(* ===== verification/Slim_Prelude.thy ===== *)
theory Slim_Prelude
  imports Main "HOL-Library.Word"
begin

text \<open>
  Shared vocabulary of the SlimVM development: the C integer types as words, the Linux error
  numbers, page arithmetic, the kernel's bitmap helpers (\<^verbatim>\<open>find_first_zero_bit\<close>,
  \<^verbatim>\<open>for_each_set_bit\<close>, \<^verbatim>\<open>__bitmap_weight\<close>) and the word lemmas the components share.
  The error numbers, system call numbers and architectural bit positions are constants of the
  Linux/x86-64 ABI; they are abbreviations, so that closed terms compute.
\<close>

unbundle bit_operations_syntax

section \<open>Machine types\<close>

type_synonym u8 = "8 word"
type_synonym u16 = "16 word"
type_synonym u32 = "32 word"
type_synonym u64 = "64 word"

text \<open>Conversion to the C type \<^verbatim>\<open>int\<close>: the low 32 bits, read as two's complement.\<close>

definition c_int :: "u64 \<Rightarrow> int" where
  "c_int x = sint (ucast x :: u32)"

text \<open>Conversion of a negative error number to an unsigned 64-bit register.\<close>

definition of_errno :: "int \<Rightarrow> u64" where
  "of_errno e = word_of_int e"

named_theorems page_simps
named_theorems bitmap_simps

section \<open>Error numbers\<close>

abbreviation (input) ENOENT :: int where "ENOENT \<equiv> 2"
abbreviation (input) EINTR :: int where "EINTR \<equiv> 4"
abbreviation (input) EIO :: int where "EIO \<equiv> 5"
abbreviation (input) ENOMEM :: int where "ENOMEM \<equiv> 12"
abbreviation (input) EFAULT :: int where "EFAULT \<equiv> 14"
abbreviation (input) EBUSY :: int where "EBUSY \<equiv> 16"
abbreviation (input) EINVAL :: int where "EINVAL \<equiv> 22"
abbreviation (input) ENOTTY :: int where "ENOTTY \<equiv> 25"
abbreviation (input) ENOSYS :: int where "ENOSYS \<equiv> 38"
abbreviation (input) ERESTARTSYS :: int where "ERESTARTSYS \<equiv> 512"
abbreviation (input) ERESTARTNOINTR :: int where "ERESTARTNOINTR \<equiv> 513"
abbreviation (input) ERESTARTNOHAND :: int where "ERESTARTNOHAND \<equiv> 514"
abbreviation (input) ERESTART_RESTARTBLOCK :: int where "ERESTART_RESTARTBLOCK \<equiv> 516"

section \<open>Pages\<close>

abbreviation (input) PAGE_SHIFT :: nat where "PAGE_SHIFT \<equiv> 12"
abbreviation (input) PAGE_SIZE :: u64 where "PAGE_SIZE \<equiv> 4096"
abbreviation (input) ADDR_INVAL :: u64 where "ADDR_INVAL \<equiv> - 1"

lemma unat_take_bit_mod: "unat (take_bit n (x :: u64)) = unat x mod 2 ^ n"
  by (simp add: unsigned_take_bit_eq take_bit_nat_def)

lemma unat_add_no_wrap: "unat a + unat b < 2 ^ 64 \<Longrightarrow> unat (a + b :: u64) = unat a + unat b"
  by (simp add: unat_word_ariths)

lemma and_mask_mod: "unat (x AND mask n :: u64) = unat x mod 2 ^ n"
  by (simp add: take_bit_eq_mask [symmetric] unat_take_bit_mod)

lemma and_plus_and_not: "(x AND m) + (x AND NOT m) = (x :: u64)"
proof -
  have "(x AND m) OR (x AND NOT m) = x"
    by (auto intro!: bit_eqI simp: bit_simps)
  moreover have "(x AND m) AND (x AND NOT m) = 0"
    by (auto intro!: bit_eqI simp: bit_simps)
  ultimately show ?thesis
    using disjunctive_add_eq_or [of "x AND m" "x AND NOT m"] by simp
qed

lemma and_not_mask_unat: "unat (x AND NOT (mask n) :: u64) = unat x - unat x mod 2 ^ n"
proof -
  have "x AND NOT (mask n) = x - (x AND mask n)"
    using and_plus_and_not [of x "mask n"] by (simp add: eq_diff_eq add.commute)
  moreover have "(x AND mask n) \<le> x"
    by (simp add: word_le_nat_alt and_mask_mod)
  ultimately show ?thesis
    by (simp add: unat_sub and_mask_mod)
qed

text \<open>Rounding down to a power of two, as arithmetic on the value.\<close>

lemma page_mask: "(4095 :: u64) = mask 12"
  by (simp add: mask_eq_exp_minus_1)

lemma hpage_mask: "(2097151 :: u64) = mask 21"
  by (simp add: mask_eq_exp_minus_1)

section \<open>Bitmaps\<close>

text \<open>
  A kernel bitmap is its characteristic function; \<open>find_first_zero_bit\<close> returns \<open>nbits\<close> when no
  bit below it is clear, as the kernel's helper does.
\<close>

type_synonym bitmap = "nat \<Rightarrow> bool"

function ffz_from :: "bitmap \<Rightarrow> nat \<Rightarrow> nat \<Rightarrow> nat" where
  "ffz_from bm nbits i = (if i < nbits \<and> bm i then ffz_from bm nbits (Suc i) else i)"
  by pat_completeness auto
termination
  by (relation "measure (\<lambda>(bm, nbits, i). nbits - i)") auto

declare ffz_from.simps [simp del]

definition find_first_zero_bit :: "bitmap \<Rightarrow> nat \<Rightarrow> nat" where
  "find_first_zero_bit bm nbits = ffz_from bm nbits 0"

definition bitmap_set :: "nat \<Rightarrow> bitmap \<Rightarrow> bitmap" where
  "bitmap_set i bm = bm(i := True)"

definition bitmap_clear :: "nat \<Rightarrow> bitmap \<Rightarrow> bitmap" where
  "bitmap_clear i bm = bm(i := False)"

definition set_bits_of :: "bitmap \<Rightarrow> nat \<Rightarrow> nat list" where
  "set_bits_of bm nbits = filter bm [0..<nbits]"

definition bitmap_weight :: "bitmap \<Rightarrow> nat \<Rightarrow> nat" where
  "bitmap_weight bm nbits = length (set_bits_of bm nbits)"

lemma bitmap_set_apply [bitmap_simps]: "bitmap_set i bm j \<longleftrightarrow> j = i \<or> bm j"
  by (simp add: bitmap_set_def)

lemma bitmap_clear_apply [bitmap_simps]: "bitmap_clear i bm j \<longleftrightarrow> j \<noteq> i \<and> bm j"
  by (simp add: bitmap_clear_def)

lemma set_set_bits_of [bitmap_simps]: "set (set_bits_of bm nbits) = {i. i < nbits \<and> bm i}"
  by (auto simp: set_bits_of_def)

lemma distinct_set_bits_of [simp]: "distinct (set_bits_of bm nbits)"
  by (simp add: set_bits_of_def)

lemma ffz_from_step: "i < nbits \<Longrightarrow> bm i \<Longrightarrow> ffz_from bm nbits i = ffz_from bm nbits (Suc i)"
  and ffz_from_stop: "\<not> (i < nbits \<and> bm i) \<Longrightarrow> ffz_from bm nbits i = i"
  by (auto simp: ffz_from.simps [of bm nbits i])

lemma ffz_from_props:
  "i \<le> nbits \<Longrightarrow> i \<le> ffz_from bm nbits i \<and> ffz_from bm nbits i \<le> nbits
     \<and> (\<forall>j. i \<le> j \<and> j < ffz_from bm nbits i \<longrightarrow> bm j)
     \<and> (ffz_from bm nbits i < nbits \<longrightarrow> \<not> bm (ffz_from bm nbits i))"
proof (induction bm nbits i rule: ffz_from.induct)
  case (1 bm nbits i)
  show ?case
  proof (cases "i < nbits \<and> bm i")
    case True
    define r where "r = ffz_from bm nbits (Suc i)"
    have r: "ffz_from bm nbits i = r"
      using True by (simp add: r_def ffz_from_step)
    from "1.IH" [OF True] True have IH: "Suc i \<le> r" "r \<le> nbits"
      "\<And>j. Suc i \<le> j \<Longrightarrow> j < r \<Longrightarrow> bm j" "r < nbits \<Longrightarrow> \<not> bm r"
      unfolding r_def by simp_all
    have "bm j" if "i \<le> j" "j < r" for j
      using that True IH(3) [of j] by (cases "j = i") simp_all
    with IH show ?thesis unfolding r by simp
  next
    case False
    with "1.prems" show ?thesis by (auto simp: ffz_from_stop)
  qed
qed

lemma find_first_zero_bit_le [simp]: "find_first_zero_bit bm nbits \<le> nbits"
  using ffz_from_props [of 0 nbits bm] by (simp add: find_first_zero_bit_def)

lemma find_first_zero_bit_clear:
  "find_first_zero_bit bm nbits < nbits \<Longrightarrow> \<not> bm (find_first_zero_bit bm nbits)"
  using ffz_from_props [of 0 nbits bm] by (simp add: find_first_zero_bit_def)

lemma find_first_zero_bit_below: "j < find_first_zero_bit bm nbits \<Longrightarrow> bm j"
  using ffz_from_props [of 0 nbits bm] by (simp add: find_first_zero_bit_def)

lemma find_first_zero_bit_full: "\<not> find_first_zero_bit bm nbits < nbits \<Longrightarrow> j < nbits \<Longrightarrow> bm j"
  using find_first_zero_bit_below [of j bm nbits] by simp

end
