(* ===== verification/Slim_Engine.thy ===== *)
theory Slim_Engine
  imports Slim_Prelude
begin

text \<open>
  The data the engine-independent code shares: \<^verbatim>\<open>engine.h\<close> (register file, vcpu modes, request
  bits, the vendor operations table), \<^verbatim>\<open>slimvm.h\<close> (the ioctl configuration block and the exit
  codes), \<^verbatim>\<open>mm.h\<close> (memory regions) and \<^verbatim>\<open>instance.h\<close> (the VM instance).  The C code stores
  engine vcpus behind \<^verbatim>\<open>void *\<close>; the instance is polymorphic in the engine's vcpu type \<open>'v\<close>.
  Each vcpu is owned by exactly one slot of \<open>vcpus\<close>, so a slot holds the structure itself;
  \<open>None\<close> is the null pointer.
\<close>

section \<open>Registers, modes and requests (engine.h)\<close>

datatype vcpu_reg =
    VCPU_REGS_RAX | VCPU_REGS_RCX | VCPU_REGS_RDX | VCPU_REGS_RBX
  | VCPU_REGS_RSP | VCPU_REGS_RBP | VCPU_REGS_RSI | VCPU_REGS_RDI
  | VCPU_REGS_R8 | VCPU_REGS_R9 | VCPU_REGS_R10 | VCPU_REGS_R11
  | VCPU_REGS_R12 | VCPU_REGS_R13 | VCPU_REGS_R14 | VCPU_REGS_R15
  | VCPU_REGS_RIP

type_synonym reg_file = "vcpu_reg \<Rightarrow> u64"

datatype vcpu_mode =
    OUTSIDE_ROOT_MODE | IN_ROOT_MODE | OUTSIDE_GUEST_MODE | IN_GUEST_MODE | EXITING_GUEST_MODE

abbreviation (input) SLIMVM_REQ_TLB_FLUSH :: nat where "SLIMVM_REQ_TLB_FLUSH \<equiv> 0"
abbreviation (input) SLIMVM_REQ_MMU_RELOAD :: nat where "SLIMVM_REQ_MMU_RELOAD \<equiv> 1"
abbreviation (input) SLIMVM_REQ_PENDING_TIMER :: nat where "SLIMVM_REQ_PENDING_TIMER \<equiv> 2"
abbreviation (input) SLIMVM_REQ_UNHALT :: nat where "SLIMVM_REQ_UNHALT \<equiv> 3"
abbreviation (input) SLIMVM_REQ_NMI :: nat where "SLIMVM_REQ_NMI \<equiv> 17"

record msr_entry =
  msr_idx :: u32
  msr_reserved :: u32
  msr_data :: u64

section \<open>The ioctl configuration block and exit codes (slimvm.h)\<close>

record slimvm_segment =
  seg_base :: u64
  seg_limit :: u32
  seg_selector :: u16
  seg_type :: u8
  seg_present :: u8
  seg_dpl :: u8
  seg_db :: u8
  seg_s :: u8
  seg_l :: u8
  seg_g :: u8
  seg_avl :: u8
  seg_unusable :: u8

record slimvm_dtable =
  dt_base :: u64
  dt_limit :: u16

record slimvm_regs =
  rax :: u64
  rbx :: u64
  rcx :: u64
  rdx :: u64
  rsi :: u64
  rdi :: u64
  rsp :: u64
  rbp :: u64
  r8 :: u64
  r9 :: u64
  r10 :: u64
  r11 :: u64
  r12 :: u64
  r13 :: u64
  r14 :: u64
  r15 :: u64
  rip :: u64
  rflags :: u64

record slimvm_sregs =
  sr_cs :: slimvm_segment
  sr_ds :: slimvm_segment
  sr_es :: slimvm_segment
  sr_fs :: slimvm_segment
  sr_gs :: slimvm_segment
  sr_ss :: slimvm_segment
  sr_tr :: slimvm_segment
  sr_ldt :: slimvm_segment
  sr_gdt :: slimvm_dtable
  sr_idt :: slimvm_dtable
  sr_cr0 :: u64
  sr_cr2 :: u64
  sr_cr3 :: u64
  sr_cr4 :: u64
  sr_cr8 :: u64
  sr_efer :: u64
  sr_apic_base :: u64

record slimvm_config =
  user_regs :: slimvm_regs
  sys_regs :: slimvm_sregs
  conf_sid :: int
  conf_status :: int
  conf_vcpu :: u64
  conf_page_fault_physical :: u64
  conf_mem_region_num :: u64
  conf_mem_region_addr :: u64

abbreviation (input) SLIMVM_RET_HLT :: int where "SLIMVM_RET_HLT \<equiv> 0x5"
abbreviation (input) SLIMVM_RET_FAIL_ENTRY :: int where "SLIMVM_RET_FAIL_ENTRY \<equiv> 0x9"
abbreviation (input) SLIMVM_RET_INTR :: int where "SLIMVM_RET_INTR \<equiv> 0xa"
abbreviation (input) SLIMVM_RET_INTERNAL_ERROR :: int where "SLIMVM_RET_INTERNAL_ERROR \<equiv> 0x11"
abbreviation (input) SLIMVM_RET_MSR_WRITE :: int where "SLIMVM_RET_MSR_WRITE \<equiv> 0x20"
abbreviation (input) SLIMVM_RET_EPT_VIOLATION :: int where "SLIMVM_RET_EPT_VIOLATION \<equiv> 0x81"
abbreviation (input) SLIMVM_RET_UNHANDLED_VMEXIT :: int where "SLIMVM_RET_UNHANDLED_VMEXIT \<equiv> 0x82"

abbreviation (input) MSR_PLATFORM_INFO :: u32 where "MSR_PLATFORM_INFO \<equiv> 0xce"
abbreviation (input) MSR_MISC_FEATURES_ENABLES :: u32 where "MSR_MISC_FEATURES_ENABLES \<equiv> 0x140"

section \<open>Memory regions and instances (mm.h, instance.h)\<close>

record mem_region =
  region_hva :: u64
  region_gpa :: u64
  region_size :: u64

abbreviation (input) INSTANCES_MAX_NUM :: nat where "INSTANCES_MAX_NUM \<equiv> 8192"
abbreviation (input) VM_MAX_VCPUS :: nat where "VM_MAX_VCPUS \<equiv> 2048"
abbreviation (input) MAX_MEM_REGION_NUM :: nat where "MAX_MEM_REGION_NUM \<equiv> 50"

text \<open>
  Pointers to kernel objects the module only stores and compares (\<^verbatim>\<open>mm_struct\<close>,
  \<^verbatim>\<open>task_struct\<close>, \<^verbatim>\<open>file\<close>) are natural numbers, null is \<open>None\<close>.
\<close>

type_synonym kptr = nat

record 'v vm_instance =
  inst_id :: int
  inst_sid :: int
  notifier_ops :: bool
  notifier_regs :: int
  ept_root :: u64
  eptp :: u64
  npt_mmu_users :: int
  memp :: "mem_region list"
  inst_mm :: "kptr option"
  mem_region_num :: int
  ept_4k_pages :: u64
  ept_2m_pages :: u64
  ept_invl_count :: u64
  ept_invl_range :: u64
  ept_invl_ipi :: u64
  mmu_notifier_seq :: u64
  mmu_notifier_count :: u64
  inst_shutdown :: bool
  inst_filp :: "kptr option"
  force_release :: bool
  running_vcpus :: int
  sandbox_tsk :: "kptr option"
  sandbox_pid :: int
  vcpu_bitmap :: bitmap
  vcpus :: "nat \<Rightarrow> 'v option"

text \<open>
  \<open>notifier_ops\<close> says whether \<^verbatim>\<open>mmu_notifier.ops\<close> has been set; \<open>notifier_regs\<close> counts how often the
  kernel has linked this \<^verbatim>\<open>mmu_notifier\<close> into the notifier list of an address space, which its
  single link field allows once.
\<close>

text \<open>The first \<open>mem_region_num\<close> entries of \<open>memp\<close>, the part of the array the lookups scan.\<close>

definition regions :: "'v vm_instance \<Rightarrow> mem_region list" where
  "regions i = take (nat (mem_region_num i)) (memp i)"

text \<open>A zeroed instance, as \<^verbatim>\<open>vzalloc\<close> returns it.\<close>

definition instance_zero :: "'v vm_instance" where
  "instance_zero = \<lparr>inst_id = 0, inst_sid = 0, notifier_ops = False, notifier_regs = 0, ept_root = 0, eptp = 0,
     npt_mmu_users = 0, memp = [], inst_mm = None, mem_region_num = 0, ept_4k_pages = 0,
     ept_2m_pages = 0, ept_invl_count = 0, ept_invl_range = 0, ept_invl_ipi = 0,
     mmu_notifier_seq = 0, mmu_notifier_count = 0, inst_shutdown = False, inst_filp = None,
     force_release = False, running_vcpus = 0, sandbox_tsk = None, sandbox_pid = 0,
     vcpu_bitmap = (\<lambda>_. False), vcpus = (\<lambda>_. None)\<rparr>"

section \<open>The vendor operations table (engine.h)\<close>

text \<open>
  An engine works on its own vcpu type \<open>'v\<close> and on engine-wide state \<open>'g\<close> (nested page tables,
  VPIDs, per-CPU hardware state).  An operation that takes a vcpu handle takes the vcpu; \<open>launch\<close>
  runs the vcpu in slot \<open>n\<close> of the instance and may change all of the instance.  It returns, or
  the thread ends in a system call of the guest (\<open>Run_exit\<close>), or it never comes back (\<open>None\<close>: the guest
  runs forever, or the kernel faults).  \<open>instance_destroy_pt\<close> is \<open>None\<close> when it reads outside the table.
  \<open>sync_all_vcpus\<close> spins until the other threads have left the root-mode code: its result is the
  state in which the loop ends, \<open>None\<close> when it never does.  \<open>instance_init_pt\<close> takes the address
  space of the calling process.
\<close>

datatype ('v, 'g) run_result =
    Run_return int slimvm_config "'v vm_instance" 'g
  | Run_exit "'v vm_instance" 'g

record ('v, 'g) slimvm_engine_ops =
  eng_name :: string
  hardware_enable_all :: "'g \<Rightarrow> int \<times> 'g"
  hardware_disable_all :: "'g \<Rightarrow> 'g"
  create_vcpu :: "slimvm_config \<Rightarrow> 'v vm_instance \<Rightarrow> nat \<Rightarrow> 'g \<Rightarrow> 'v option \<times> 'g"
  destroy_vcpu :: "'v \<Rightarrow> 'g \<Rightarrow> 'g"
  launch :: "nat \<Rightarrow> slimvm_config \<Rightarrow> 'v vm_instance \<Rightarrow> 'g
    \<Rightarrow> ('v, 'g) run_result option"
  set_vcpu_mode :: "'v \<Rightarrow> vcpu_mode \<Rightarrow> 'v"
  vcpu_is_shutdown :: "'v \<Rightarrow> bool"
  make_nmi_request :: "'v \<Rightarrow> 'v"
  shutdown_all_vcpus :: "'v vm_instance \<Rightarrow> 'g \<Rightarrow> 'v vm_instance \<times> 'g"
  sync_all_vcpus :: "'v vm_instance \<Rightarrow> 'g \<Rightarrow> ('v vm_instance \<times> 'g) option"
  instance_alloc_ptp :: "'v vm_instance \<Rightarrow> 'g \<Rightarrow> int \<times> 'v vm_instance \<times> 'g"
  instance_init_pt :: "kptr \<Rightarrow> 'v vm_instance \<Rightarrow> 'g \<Rightarrow> int \<times> 'v vm_instance \<times> 'g"
  instance_destroy_pt :: "'v vm_instance \<Rightarrow> 'g \<Rightarrow> ('v vm_instance \<times> 'g) option"

end
