(* ===== verification/Slim_Pool.thy ===== *)
theory Slim_Pool
  imports Slim_Prelude
begin

text \<open>
  The contract of the identifier allocators.  The module hands out three kinds of small numbers
  from bitmaps: instance ids (\<^verbatim>\<open>alloc_inst_id\<close>), vcpu numbers (\<^verbatim>\<open>vcpu_allocate_vcpu_no\<close>) and VPIDs
  (\<^verbatim>\<open>vmx_allocate_vpid\<close>).  Their clients rely on the same three laws, stated once as a locale:
  an allocated number is in range and was free, allocation fails only when the pool is exhausted,
  freeing gives the number back.  The theories of the providers interpret the locale.
\<close>

section \<open>Allocation and release sequences\<close>

datatype pool_op = Pool_alloc | Pool_free nat

text \<open>
  A client that remembers what it holds: it frees only numbers it holds.  The result is the pool
  and the list of numbers held.
\<close>

fun pool_run :: "('s \<Rightarrow> nat option \<times> 's) \<Rightarrow> (nat \<Rightarrow> 's \<Rightarrow> 's) \<Rightarrow> pool_op list \<Rightarrow> 's \<Rightarrow> nat list
    \<Rightarrow> 's \<times> nat list" where
  "pool_run alloc free [] s held = (s, held)"
| "pool_run alloc free (Pool_alloc # ops) s held =
     (case alloc s of
        (None, s') \<Rightarrow> pool_run alloc free ops s' held
      | (Some n, s') \<Rightarrow> pool_run alloc free ops s' (n # held))"
| "pool_run alloc free (Pool_free n # ops) s held =
     (if n \<in> set held then pool_run alloc free ops (free n s) (remove1 n held)
      else pool_run alloc free ops s held)"

section \<open>The contract\<close>

locale id_pool =
  fixes alloc :: "'s \<Rightarrow> nat option \<times> 's"
    and free :: "nat \<Rightarrow> 's \<Rightarrow> 's"
    and used :: "'s \<Rightarrow> nat \<Rightarrow> bool"
    and lo hi :: nat
  assumes alloc_Some: "alloc s = (Some n, s') \<Longrightarrow> (\<forall>k < lo. used s k) \<Longrightarrow>
      lo \<le> n \<and> n < hi \<and> \<not> used s n \<and> used s' = (used s)(n := True)"
    and alloc_None: "alloc s = (None, s') \<Longrightarrow> (\<forall>k < lo. used s k) \<Longrightarrow> used s' = used s \<and> (\<forall>k < hi. used s k)"
    and free_used: "lo \<le> n \<Longrightarrow> n < hi \<Longrightarrow> used (free n s) = (used s)(n := False)"
begin

text \<open>What the client holds is what the pool has handed out on top of what was in use before.\<close>

definition pool_inv :: "(nat \<Rightarrow> bool) \<Rightarrow> 's \<Rightarrow> nat list \<Rightarrow> bool" where
  "pool_inv base s held \<longleftrightarrow> distinct held \<and> set held \<subseteq> {lo ..< hi}
     \<and> (\<forall>n \<in> set held. \<not> base n) \<and> used s = (\<lambda>n. base n \<or> n \<in> set held)"

lemma pool_inv_start: "pool_inv (used s) s []"
  by (simp add: pool_inv_def)

lemma pool_inv_reserved: "pool_inv base s held \<Longrightarrow> (\<forall>k < lo. base k) \<Longrightarrow> \<forall>k < lo. used s k"
  by (auto simp: pool_inv_def)

lemma pool_inv_alloc:
  assumes "pool_inv base s held" "\<forall>k < lo. base k" "alloc s = (Some n, s')"
  shows "pool_inv base s' (n # held)"
proof -
  from alloc_Some [OF assms(3)] pool_inv_reserved [OF assms(1,2)]
  have "lo \<le> n" "n < hi" "\<not> used s n" "used s' = (used s)(n := True)" by auto
  with assms(1) show ?thesis by (auto simp: pool_inv_def fun_eq_iff)
qed

lemma pool_inv_free:
  assumes "pool_inv base s held" "n \<in> set held"
  shows "pool_inv base (free n s) (remove1 n held)"
proof -
  from assms have "lo \<le> n" "n < hi" by (auto simp: pool_inv_def)
  from free_used [OF this, of s] assms show ?thesis
    by (auto simp: pool_inv_def fun_eq_iff set_remove1_eq)
qed

lemma pool_inv_run:
  assumes "pool_inv base s held" "\<forall>k < lo. base k"
  shows "case pool_run alloc free ops s held of (s', held') \<Rightarrow> pool_inv base s' held'"
  using assms(1)
proof (induction ops arbitrary: s held)
  case (Cons op ops)
  show ?case
  proof (cases op)
    case Pool_alloc
    obtain r s' where a: "alloc s = (r, s')" by fastforce
    show ?thesis
    proof (cases r)
      case None
      then have "pool_inv base s' held"
        using Cons.prems alloc_None [of s s'] pool_inv_reserved [OF Cons.prems assms(2)] a by (simp add: pool_inv_def)
      from Cons.IH [OF this] show ?thesis by (simp add: Pool_alloc a None)
    next
      case (Some n)
      from Cons.IH [OF pool_inv_alloc [OF Cons.prems assms(2)]] a show ?thesis
        by (simp add: Pool_alloc Some)
    qed
  next
    case (Pool_free n)
    then show ?thesis
      using Cons.IH [OF Cons.prems] Cons.IH [OF pool_inv_free [OF Cons.prems]] by simp
  qed
qed simp

text \<open>The summary clients use: numbers held at the same time are pairwise different, in range, and
  were not in use before.\<close>

lemma held_distinct:
  assumes "\<forall>k < lo. used s k" "pool_run alloc free ops s [] = (s', held)"
  shows "distinct held \<and> set held \<subseteq> {lo ..< hi} \<and> (\<forall>n \<in> set held. \<not> used s n)
    \<and> used s' = (\<lambda>n. used s n \<or> n \<in> set held)"
  using pool_inv_run [OF pool_inv_start assms(1), of ops] assms(2) by (simp add: pool_inv_def)

end

end
