(* ===== verification/Slim_Vcpu.thy ===== *)
theory Slim_Vcpu
  imports Slim_Engine Slim_Pool
begin

text \<open>
  \<^verbatim>\<open>vcpu.c\<close>: vcpu numbers and vcpu slots of an instance.  The slot array is indexed without a bounds
  check in \<open>vcpu_release\<close> and \<open>vcpu_inject_nmi\<close>; an index outside the array is the outcome \<open>None\<close>, so
  that the callers' checks can be shown to be sufficient.  The lemmas show that numbers handed out
  are unique, that a failed creation leaves no trace, and that bitmap and slot array stay in step.
\<close>

section \<open>Definitions\<close>

definition vcpu_allocate_vcpu_no :: "'v vm_instance \<Rightarrow> int \<times> 'v vm_instance" where
  "vcpu_allocate_vcpu_no instp =
     (let vcpu_no = find_first_zero_bit (vcpu_bitmap instp) VM_MAX_VCPUS in
      if vcpu_no < VM_MAX_VCPUS
      then (int vcpu_no, instp\<lparr>vcpu_bitmap := bitmap_set vcpu_no (vcpu_bitmap instp)\<rparr>)
      else (- 1, instp))"

definition vcpu_free_vcpu_no :: "'v vm_instance \<Rightarrow> int \<Rightarrow> 'v vm_instance" where
  "vcpu_free_vcpu_no instp vcpu_no =
     (if 0 \<le> vcpu_no
      then instp\<lparr>vcpu_bitmap := bitmap_clear (nat vcpu_no) (vcpu_bitmap instp)\<rparr>
      else instp)"

text \<open>\<open>mm_count\<close> is the reference count of every address space; \<open>cur_mm\<close> is \<^verbatim>\<open>current->mm\<close>.\<close>

definition vcpu_alloc :: "('v, 'g) slimvm_engine_ops \<Rightarrow> kptr \<Rightarrow> slimvm_config \<Rightarrow> 'v vm_instance
    \<Rightarrow> 'g \<Rightarrow> (kptr \<Rightarrow> int) \<Rightarrow> int \<times> 'v vm_instance \<times> 'g \<times> (kptr \<Rightarrow> int)" where
  "vcpu_alloc ops cur_mm conf instp g mm_count =
     (let (vcpu_no, instp1) = vcpu_allocate_vcpu_no instp in
      if vcpu_no = - 1 then (- ENOMEM, instp1, g, mm_count)
      else
        (case create_vcpu ops conf instp1 (nat vcpu_no) g of
           (None, g') \<Rightarrow> (- ENOMEM, vcpu_free_vcpu_no instp1 vcpu_no, g', mm_count)
         | (Some vcpu, g') \<Rightarrow>
             (let (instp2, mm_count') =
                (if inst_mm instp1 = None
                 then (instp1\<lparr>inst_mm := Some cur_mm\<rparr>,
                       mm_count(cur_mm := mm_count cur_mm + 1))
                 else (instp1, mm_count))
              in (vcpu_no,
                  instp2\<lparr>vcpus := (vcpus instp2)(nat vcpu_no := Some vcpu)\<rparr>,
                  g', mm_count'))))"

definition slot_index :: "int \<Rightarrow> bool" where
  "slot_index vcpu_no \<longleftrightarrow> 0 \<le> vcpu_no \<and> vcpu_no < int VM_MAX_VCPUS"

definition vcpu_release :: "('v, 'g) slimvm_engine_ops \<Rightarrow> 'v vm_instance \<Rightarrow> int \<Rightarrow> 'g
    \<Rightarrow> ('v vm_instance \<times> 'g) option" where
  "vcpu_release ops instp vcpu_no g =
     (if \<not> slot_index vcpu_no then None
      else case vcpus instp (nat vcpu_no) of
        None \<Rightarrow> Some (instp, g)
      | Some vcpu \<Rightarrow>
          Some (instp\<lparr>vcpu_bitmap := bitmap_clear (nat vcpu_no) (vcpu_bitmap instp),
                      vcpus := (vcpus instp)(nat vcpu_no := None)\<rparr>,
                destroy_vcpu ops vcpu g))"

definition vcpu_inject_nmi :: "('v, 'g) slimvm_engine_ops \<Rightarrow> 'v vm_instance \<Rightarrow> int
    \<Rightarrow> 'v vm_instance option" where
  "vcpu_inject_nmi ops instp vcpu_no =
     (if \<not> slot_index vcpu_no then None
      else case vcpus instp (nat vcpu_no) of
        None \<Rightarrow> Some instp
      | Some vcpu \<Rightarrow>
          Some (instp\<lparr>vcpus := (vcpus instp)(nat vcpu_no := Some (make_nmi_request ops vcpu))\<rparr>))"

section \<open>Bitmap and slots in step\<close>

text \<open>Between operations a number is in use exactly when its slot is filled.\<close>

definition vcpus_ok :: "'v vm_instance \<Rightarrow> bool" where
  "vcpus_ok i \<longleftrightarrow> (\<forall>n. vcpu_bitmap i n \<longleftrightarrow> vcpus i n \<noteq> None) \<and> (\<forall>n \<ge> VM_MAX_VCPUS. \<not> vcpu_bitmap i n)"

lemma vcpu_allocate_vcpu_no_cases:
  obtains (none) "vcpu_allocate_vcpu_no i = (- 1, i)" "\<forall>n < VM_MAX_VCPUS. vcpu_bitmap i n"
  | (fresh) n where "vcpu_allocate_vcpu_no i = (int n, i\<lparr>vcpu_bitmap := (vcpu_bitmap i)(n := True)\<rparr>)"
      "n < VM_MAX_VCPUS" "\<not> vcpu_bitmap i n" "\<forall>k < n. vcpu_bitmap i k"
proof (cases "find_first_zero_bit (vcpu_bitmap i) VM_MAX_VCPUS < VM_MAX_VCPUS")
  case True
  then show ?thesis
    by (intro fresh [of "find_first_zero_bit (vcpu_bitmap i) VM_MAX_VCPUS"])
      (auto simp: vcpu_allocate_vcpu_no_def bitmap_set_def Let_def
        dest: find_first_zero_bit_clear find_first_zero_bit_below)
next
  case False
  then show ?thesis
    by (intro none) (auto simp: vcpu_allocate_vcpu_no_def dest: find_first_zero_bit_full)
qed

lemma vcpus_ok_full_or_free: "vcpus_ok i \<Longrightarrow> vcpus i n = None \<longleftrightarrow> \<not> vcpu_bitmap i n"
  by (simp add: vcpus_ok_def)

lemma vcpu_alloc_cases:
  assumes "vcpu_alloc ops m conf i g mmc = (r, i', g', mmc')"
  obtains (full) "r = - ENOMEM" "i' = i" "g' = g" "mmc' = mmc" "\<forall>n < VM_MAX_VCPUS. vcpu_bitmap i n"
  | (failed) "r = - ENOMEM" "i' = i" "mmc' = mmc"
  | (created) n v where "r = int n" "n < VM_MAX_VCPUS" "\<not> vcpu_bitmap i n"
      "i' = i\<lparr>vcpu_bitmap := (vcpu_bitmap i)(n := True), vcpus := (vcpus i)(n := Some v),
              inst_mm := Some (case inst_mm i of None \<Rightarrow> m | Some m' \<Rightarrow> m')\<rparr>"
      "mmc' = (case inst_mm i of None \<Rightarrow> mmc(m := mmc m + 1) | Some _ \<Rightarrow> mmc)"
proof (cases rule: vcpu_allocate_vcpu_no_cases [of i])
  case none
  with assms show ?thesis by (intro full) (auto simp: vcpu_alloc_def)
next
  case (fresh n)
  show ?thesis
  proof (cases "create_vcpu ops conf (i\<lparr>vcpu_bitmap := (vcpu_bitmap i)(n := True)\<rparr>) n g")
    case (Pair c g1)
    have undo: "i\<lparr>vcpu_bitmap := (vcpu_bitmap i)(n := False)\<rparr> = i"
      using fresh(3) by (simp add: fun_upd_idem)
    show ?thesis
    proof (cases c)
      case None
      with Pair fresh assms undo show ?thesis
        by (intro failed) (auto simp: vcpu_alloc_def vcpu_free_vcpu_no_def bitmap_clear_def)
    next
      case (Some v)
      with Pair fresh assms show ?thesis
        by (intro created [of n v]) (auto simp: vcpu_alloc_def split: option.splits if_splits)
    qed
  qed
qed

lemma vcpus_ok_alloc:
  assumes "vcpus_ok i" "vcpu_alloc ops m conf i g mmc = (r, i', g', mmc')"
  shows "vcpus_ok i'"
  using assms(2) by (cases rule: vcpu_alloc_cases) (use assms(1) in \<open>auto simp: vcpus_ok_def\<close>)

lemma vcpus_ok_release:
  "vcpus_ok i \<Longrightarrow> vcpu_release ops i n g = Some (i', g') \<Longrightarrow> vcpus_ok i'"
  by (auto simp: vcpu_release_def vcpus_ok_def bitmap_clear_def split: if_splits option.splits)

lemma vcpus_ok_inject_nmi:
  "vcpus_ok i \<Longrightarrow> vcpu_inject_nmi ops i n = Some i' \<Longrightarrow> vcpus_ok i'"
  by (auto simp: vcpu_inject_nmi_def vcpus_ok_def split: if_splits option.splits)

section \<open>The vcpu numbers as a pool\<close>

definition vcpu_no_alloc :: "'v vm_instance \<Rightarrow> nat option \<times> 'v vm_instance" where
  "vcpu_no_alloc i = (case vcpu_allocate_vcpu_no i of
     (n, i') \<Rightarrow> (if n = - 1 then None else Some (nat n), i'))"

definition vcpu_no_free :: "nat \<Rightarrow> 'v vm_instance \<Rightarrow> 'v vm_instance" where
  "vcpu_no_free n i = vcpu_free_vcpu_no i (int n)"

interpretation vcpu_pool: id_pool vcpu_no_alloc vcpu_no_free vcpu_bitmap 0 VM_MAX_VCPUS
proof
  fix s s' :: "'a vm_instance" and n
  show "vcpu_no_alloc s = (Some n, s') \<Longrightarrow> \<forall>k < 0. vcpu_bitmap s k \<Longrightarrow>
      0 \<le> n \<and> n < VM_MAX_VCPUS \<and> \<not> vcpu_bitmap s n \<and> vcpu_bitmap s' = (vcpu_bitmap s)(n := True)"
    by (cases rule: vcpu_allocate_vcpu_no_cases [of s]) (auto simp: vcpu_no_alloc_def)
  show "vcpu_no_alloc s = (None, s') \<Longrightarrow> \<forall>k < 0. vcpu_bitmap s k \<Longrightarrow>
      vcpu_bitmap s' = vcpu_bitmap s \<and> (\<forall>k < VM_MAX_VCPUS. vcpu_bitmap s k)"
    by (cases rule: vcpu_allocate_vcpu_no_cases [of s]) (auto simp: vcpu_no_alloc_def)
  show "vcpu_bitmap (vcpu_no_free n s) = (vcpu_bitmap s)(n := False)"
    by (simp add: vcpu_no_free_def vcpu_free_vcpu_no_def bitmap_clear_def)
qed

section \<open>Properties\<close>

text \<open>C22. However \<open>vcpu_allocate_vcpu_no\<close> and \<open>vcpu_free_vcpu_no\<close> interleave on an instance, the vcpu
  numbers held at the same time are pairwise different, below \<open>VM_MAX_VCPUS\<close> and none of them was
  in use at the start, and the bitmap is exactly what was in use plus what is held.\<close>

theorem vcpu_numbers_unique:
  assumes "pool_run vcpu_no_alloc vcpu_no_free ops i [] = (i', held)"
  shows "distinct held \<and> set held \<subseteq> {0 ..< VM_MAX_VCPUS} \<and> (\<forall>n \<in> set held. \<not> vcpu_bitmap i n)
    \<and> vcpu_bitmap i' = (\<lambda>n. vcpu_bitmap i n \<or> n \<in> set held)"
  by (rule vcpu_pool.held_distinct [OF _ assms]) simp

theorem vcpu_numbers_unique_witness:
  "\<exists>i'. pool_run vcpu_no_alloc vcpu_no_free [Pool_alloc, Pool_alloc, Pool_free 0, Pool_alloc]
      (instance_zero :: unit vm_instance) [] = (i', [0, 1]) \<and> distinct [0::nat, 1]
    \<and> vcpu_bitmap i' = (\<lambda>n. vcpu_bitmap (instance_zero :: unit vm_instance) n \<or> n \<in> {0, 1})"
proof -
  let ?i = "instance_zero\<lparr>vcpu_bitmap := ((\<lambda>_. False)(0 := True, 1 := True))\<rparr> :: unit vm_instance"
  have "pool_run vcpu_no_alloc vcpu_no_free [Pool_alloc, Pool_alloc, Pool_free 0, Pool_alloc]
      (instance_zero :: unit vm_instance) [] = (?i, [0, 1])"
    by (simp add: vcpu_no_alloc_def vcpu_no_free_def vcpu_allocate_vcpu_no_def Let_def
        vcpu_free_vcpu_no_def find_first_zero_bit_def ffz_from.simps bitmap_set_def bitmap_clear_def
        instance_zero_def fun_upd_twist)
  from vcpu_numbers_unique [OF this] this show ?thesis by auto
qed

text \<open>C23. Creating a vcpu is all or nothing.  On success the number returned was free, the slot is
  filled and marked, no other slot changes, and the first creation takes one reference on the
  address space of the caller; on failure the result is \<open>ENOMEM\<close> and the instance, including its
  bitmap, and the reference counts are as before.\<close>

theorem vcpu_alloc_all_or_nothing:
  "case vcpu_alloc ops m conf i g mmc of (r, i', g', mmc') \<Rightarrow>
     r = - ENOMEM \<and> i' = i \<and> mmc' = mmc
     \<or> 0 \<le> r \<and> r < int VM_MAX_VCPUS \<and> \<not> vcpu_bitmap i (nat r)
       \<and> vcpu_bitmap i' = (vcpu_bitmap i)(nat r := True)
       \<and> (\<exists>v. vcpus i' = (vcpus i)(nat r := Some v))
       \<and> (if inst_mm i = None then inst_mm i' = Some m \<and> mmc' = mmc(m := mmc m + 1)
          else inst_mm i' = inst_mm i \<and> mmc' = mmc)"
proof -
  obtain r i' g' mmc' where *: "vcpu_alloc ops m conf i g mmc = (r, i', g', mmc')"
    by (metis prod_cases4)
  show ?thesis
    unfolding * prod.case by (rule vcpu_alloc_cases [OF *]) (auto split: option.splits)
qed

end
