(* ===== verification/Slim_Instance.thy ===== *)
theory Slim_Instance
  imports Slim_Vcpu
begin

text \<open>
  \<^verbatim>\<open>instance.c\<close>: the registry of VM instances.  Instances live in a heap of vmalloc'ed objects;
  \<^verbatim>\<open>instances_list\<close> holds pointers into it and \<^verbatim>\<open>instances_bitmap\<close> the ids in use.  Following a pointer
  whose object has been freed is the outcome \<open>None\<close>.  The reference counts the module takes on
  address spaces and drops on files, and the preempt notifier static key, are part of the state.
  The registry invariant \<open>registry_ok\<close> ties list, bitmap, heap and counts together.
\<close>

section \<open>State\<close>

record ('v, 'g) slim_world =
  inst_heap :: "kptr \<Rightarrow> 'v vm_instance option"
  instances_bitmap :: bitmap
  instances_list :: "kptr list"
  preempt_users :: int
  w_mm_count :: "kptr \<Rightarrow> int"
  file_count :: "kptr \<Rightarrow> int"
  private_data :: "kptr \<Rightarrow> kptr option"
  engine_state :: 'g

abbreviation set_inst :: "kptr \<Rightarrow> 'v vm_instance option \<Rightarrow> ('v, 'g) slim_world \<Rightarrow> ('v, 'g) slim_world" where
  "set_inst p i w \<equiv> w\<lparr>inst_heap := (inst_heap w)(p := i)\<rparr>"

section \<open>Operations\<close>

text \<open>\<open>on_each_vm_instance\<close> folds an action over the list; the action sees the instance.\<close>

fun on_each_vm_instance :: "('v vm_instance \<Rightarrow> 'd \<Rightarrow> 'd) \<Rightarrow> (kptr \<Rightarrow> 'v vm_instance option)
    \<Rightarrow> kptr list \<Rightarrow> 'd \<Rightarrow> 'd option" where
  "on_each_vm_instance act heap [] d = Some d"
| "on_each_vm_instance act heap (p # ps) d =
     (case heap p of None \<Rightarrow> None | Some i \<Rightarrow> on_each_vm_instance act heap ps (act i d))"

definition instance_get_vm_num :: "('v, 'g) slim_world \<Rightarrow> nat" where
  "instance_get_vm_num w = bitmap_weight (instances_bitmap w) INSTANCES_MAX_NUM"

definition instance_get_vcpu_num :: "('v, 'g) slim_world \<Rightarrow> nat option" where
  "instance_get_vcpu_num w =
     on_each_vm_instance (\<lambda>i num. num + bitmap_weight (vcpu_bitmap i) VM_MAX_VCPUS)
       (inst_heap w) (instances_list w) 0"

definition alloc_inst_id :: "('v, 'g) slim_world \<Rightarrow> kptr \<Rightarrow> 'v vm_instance \<Rightarrow> bool \<times> ('v, 'g) slim_world" where
  "alloc_inst_id w p instp =
     (let id = find_first_zero_bit (instances_bitmap w) INSTANCES_MAX_NUM in
      if id < INSTANCES_MAX_NUM
      then (True, set_inst p (Some (instp\<lparr>inst_id := int id\<rparr>)) w
                    \<lparr>instances_bitmap := bitmap_set id (instances_bitmap w),
                     instances_list := p # instances_list w\<rparr>)
      else (False, w))"

definition free_inst_id :: "('v, 'g) slim_world \<Rightarrow> kptr \<Rightarrow> 'v vm_instance \<Rightarrow> ('v, 'g) slim_world" where
  "free_inst_id w p instp =
     (if inst_id instp < 0 \<or> int INSTANCES_MAX_NUM \<le> inst_id instp then w
      else w\<lparr>instances_bitmap := bitmap_clear (nat (inst_id instp)) (instances_bitmap w),
             instances_list := remove1 p (instances_list w)\<rparr>)"

text \<open>
  \<open>vz\<close> is the result of \<^verbatim>\<open>vzalloc\<close>, \<open>kz\<close> whether \<^verbatim>\<open>kzalloc\<close> of the region array succeeds.  The
  result is the instance, or \<open>None\<close> for \<^verbatim>\<open>ERR_PTR(-ENOMEM)\<close>.
\<close>

definition mem_region_zero :: mem_region where
  "mem_region_zero = \<lparr>region_hva = 0, region_gpa = 0, region_size = 0\<rparr>"

definition instance_create :: "('v, 'g) slimvm_engine_ops \<Rightarrow> kptr option \<Rightarrow> bool \<Rightarrow> ('v, 'g) slim_world
    \<Rightarrow> kptr option \<times> ('v, 'g) slim_world" where
  "instance_create ops vz kz w =
     (case vz of
        None \<Rightarrow> (None, w)
      | Some p \<Rightarrow>
          (let w1 = set_inst p (Some instance_zero) w in
           if \<not> kz then (None, set_inst p None w1)
           else
             (let i = instance_zero\<lparr>memp := replicate MAX_MEM_REGION_NUM mem_region_zero,
                        inst_id := - 1\<rparr>;
                  (ok, w2) = alloc_inst_id (set_inst p (Some i) w1) p i in
              if \<not> ok then (None, set_inst p None w2)
              else
                (let i2 = (the (inst_heap w2 p))\<lparr>mmu_notifier_seq := 0, mmu_notifier_count := 0\<rparr>;
                     (r, i3, g) = instance_alloc_ptp ops i2 (engine_state w2);
                     w3 = set_inst p (Some i3) (w2\<lparr>engine_state := g\<rparr>) in
                 if r \<noteq> 0 then (None, set_inst p None w3)
                 else (Some p, w3\<lparr>preempt_users := preempt_users w3 + 1\<rparr>)))))"

text \<open>The loop \<^verbatim>\<open>for_each_set_bit(vcpu, ...) vcpu_release(instp, vcpu)\<close>.\<close>

fun release_vcpus :: "('v, 'g) slimvm_engine_ops \<Rightarrow> nat list \<Rightarrow> 'v vm_instance \<Rightarrow> 'g
    \<Rightarrow> ('v vm_instance \<times> 'g) option" where
  "release_vcpus ops [] i g = Some (i, g)"
| "release_vcpus ops (n # ns) i g =
     (case vcpu_release ops i (int n) g of
        None \<Rightarrow> None
      | Some (i', g') \<Rightarrow> release_vcpus ops ns i' g')"

definition mmdrop :: "kptr option \<Rightarrow> (kptr \<Rightarrow> int) \<Rightarrow> kptr \<Rightarrow> int" where
  "mmdrop mm cnt = (case mm of None \<Rightarrow> cnt | Some m \<Rightarrow> cnt(m := cnt m - 1))"

definition instance_release :: "('v, 'g) slimvm_engine_ops \<Rightarrow> kptr \<Rightarrow> ('v, 'g) slim_world
    \<Rightarrow> (int \<times> ('v, 'g) slim_world) option" where
  "instance_release ops p w =
     (case inst_heap w p of
        None \<Rightarrow> None
      | Some i0 \<Rightarrow>
          (let (i1, g1) = shutdown_all_vcpus ops i0 (engine_state w) in
           case (if force_release i1 then Some (i1, g1) else sync_all_vcpus ops i1 g1) of
             None \<Rightarrow> None
           | Some (i2, g2) \<Rightarrow>
               (case release_vcpus ops (set_bits_of (vcpu_bitmap i2) VM_MAX_VCPUS) i2 g2 of
                  None \<Rightarrow> None
                | Some (i3, g3) \<Rightarrow>
                    (case instance_destroy_pt ops i3 g3 of
                       None \<Rightarrow> None
                     | Some (i4, g4) \<Rightarrow>
                         (let w1 = w\<lparr>engine_state := g4,
                                     w_mm_count := mmdrop (inst_mm i4) (w_mm_count w)\<rparr>;
                              w2 = free_inst_id w1 p i4
                          in Some (0, (set_inst p None w2)\<lparr>preempt_users := preempt_users w2 - 1\<rparr>))))))"

text \<open>
  Reclaiming.  \<open>pid_task\<close> is the task a process id names now.  The first loop marks and collects
  the leaked instances under the lock, the second drops the file references their vanished
  threads hold.
\<close>

definition is_leaked :: "(int \<Rightarrow> kptr option) \<Rightarrow> 'v vm_instance \<Rightarrow> bool" where
  "is_leaked pid_task i \<longleftrightarrow> sandbox_tsk i \<noteq> None \<and> sandbox_pid i \<noteq> 0
     \<and> \<not> (pid_task (sandbox_pid i) = sandbox_tsk i \<or> force_release i)"

fun reclaim_mark :: "(int \<Rightarrow> kptr option) \<Rightarrow> kptr list \<Rightarrow> (kptr \<Rightarrow> 'v vm_instance option) \<Rightarrow> kptr list
    \<Rightarrow> ((kptr \<Rightarrow> 'v vm_instance option) \<times> kptr list) option" where
  "reclaim_mark pid_task [] heap reclaim_list = Some (heap, reclaim_list)"
| "reclaim_mark pid_task (p # ps) heap reclaim_list =
     (case heap p of
        None \<Rightarrow> None
      | Some i \<Rightarrow>
          if is_leaked pid_task i
          then reclaim_mark pid_task ps (heap(p := Some (i\<lparr>force_release := True\<rparr>))) (p # reclaim_list)
          else reclaim_mark pid_task ps heap reclaim_list)"

fun reclaim_fput :: "(kptr \<Rightarrow> 'v vm_instance option) \<Rightarrow> kptr list \<Rightarrow> (kptr \<Rightarrow> int) \<Rightarrow> (kptr \<Rightarrow> int) option" where
  "reclaim_fput heap [] cnt = Some cnt"
| "reclaim_fput heap (p # ps) cnt =
     (case heap p of
        None \<Rightarrow> None
      | Some i \<Rightarrow>
          (let refcount = unat (word_of_int (running_vcpus i) :: u32) in
           case inst_filp i of
             None \<Rightarrow> if refcount = 0 then reclaim_fput heap ps cnt else None
           | Some f \<Rightarrow> reclaim_fput heap ps (cnt(f := cnt f - int refcount))))"

definition slimvm_reclaim_leaked_instances :: "(int \<Rightarrow> kptr option) \<Rightarrow> ('v, 'g) slim_world
    \<Rightarrow> ('v, 'g) slim_world option" where
  "slimvm_reclaim_leaked_instances pid_task w =
     (case reclaim_mark pid_task (instances_list w) (inst_heap w) [] of
        None \<Rightarrow> None
      | Some (heap, rl) \<Rightarrow>
          (case reclaim_fput heap rl (file_count w) of
             None \<Rightarrow> None
           | Some cnt \<Rightarrow> Some (w\<lparr>inst_heap := heap, file_count := cnt\<rparr>)))"

definition instance_get_vcpu :: "'v vm_instance \<Rightarrow> int \<Rightarrow> 'v option" where
  "instance_get_vcpu instp vcpu_no =
     (if vcpu_no < 0 \<or> int VM_MAX_VCPUS \<le> vcpu_no then None else vcpus instp (nat vcpu_no))"

definition slimvm_record_sandbox :: "int \<Rightarrow> (int \<Rightarrow> kptr option) \<Rightarrow> 'v vm_instance \<Rightarrow> 'v vm_instance" where
  "slimvm_record_sandbox tgid pid_task instp =
     (if sandbox_tsk instp \<noteq> None then instp
      else instp\<lparr>sandbox_pid := tgid, sandbox_tsk := pid_task tgid\<rparr>)"

section \<open>The registry seen through its keys\<close>

text \<open>
  What the registry has to know of an instance: its id and the address space it pins.  \<open>keys_ok\<close>
  is the invariant over these keys only; operations that leave the keys alone preserve it for
  free.  \<open>base\<close> counts the address space references held by others.
\<close>

type_synonym inst_key = "int \<times> kptr option"

definition inst_key :: "'v vm_instance \<Rightarrow> inst_key" where
  "inst_key i = (inst_id i, inst_mm i)"

definition mm_users :: "(kptr \<Rightarrow> inst_key option) \<Rightarrow> kptr \<Rightarrow> kptr set" where
  "mm_users keys m = {p. \<exists>x. keys p = Some (x, Some m)}"

definition key_ids :: "(kptr \<Rightarrow> inst_key option) \<Rightarrow> int set" where
  "key_ids keys = {x. \<exists>p m. keys p = Some (x, m)}"

definition keys_unique :: "(kptr \<Rightarrow> inst_key option) \<Rightarrow> bool" where
  "keys_unique keys \<longleftrightarrow> (\<forall>p q x m l. keys p = Some (x, m) \<longrightarrow> keys q = Some (x, l) \<longrightarrow> p = q)"

definition keys_ok :: "(kptr \<Rightarrow> int) \<Rightarrow> (kptr \<Rightarrow> inst_key option) \<Rightarrow> kptr list \<Rightarrow> bitmap \<Rightarrow> int
    \<Rightarrow> (kptr \<Rightarrow> int) \<Rightarrow> bool" where
  "keys_ok base keys ps bm users cnt \<longleftrightarrow>
     distinct ps \<and> set ps = dom keys
     \<and> key_ids keys \<subseteq> {0 ..< int INSTANCES_MAX_NUM} \<and> keys_unique keys
     \<and> (\<forall>n. bm n \<longleftrightarrow> int n \<in> key_ids keys)
     \<and> users = int (length ps)
     \<and> (\<forall>m. cnt m = base m + int (card (mm_users keys m)))"

lemma key_idsI: "keys p = Some (x, m) \<Longrightarrow> x \<in> key_ids keys"
  by (auto simp: key_ids_def)

lemma key_ids_add: "keys p = None \<Longrightarrow> key_ids (keys(p \<mapsto> (x, m))) = insert x (key_ids keys)"
proof -
  assume p: "keys p = None"
  have "(\<exists>q l. (keys(p \<mapsto> (x, m))) q = Some (y, l)) \<longleftrightarrow> y = x \<or> (\<exists>q l. keys q = Some (y, l))" for y
    using p by (metis fun_upd_apply option.distinct(1) option.inject prod.inject)
  then show ?thesis unfolding key_ids_def by blast
qed

lemma key_ids_remove:
  "keys_unique keys \<Longrightarrow> keys p = Some (x, m) \<Longrightarrow> key_ids (keys(p := None)) = key_ids keys - {x}"
  by (auto simp: key_ids_def keys_unique_def split: if_splits) (metis fun_upd_apply option.inject prod.inject)

lemma key_ids_same: "keys p = Some (x, m) \<Longrightarrow> key_ids (keys(p \<mapsto> (x, l))) = key_ids keys"
  by (auto simp: key_ids_def split: if_splits) (metis fun_upd_apply option.inject prod.inject)

lemma finite_mm_users: "keys_ok base keys ps bm users cnt \<Longrightarrow> finite (mm_users keys m)"
proof -
  assume "keys_ok base keys ps bm users cnt"
  then have "mm_users keys m \<subseteq> set ps" by (auto simp: keys_ok_def mm_users_def)
  then show ?thesis by (rule finite_subset) simp
qed

lemma mm_users_iff: "p \<in> mm_users keys m \<longleftrightarrow> (\<exists>x. keys p = Some (x, Some m))"
  by (simp add: mm_users_def)

lemma mm_users_upd:
  "mm_users (keys(p \<mapsto> (x, Some m'))) m = (if m = m' then insert p (mm_users keys m) else mm_users keys m - {p})"
  "mm_users (keys(p \<mapsto> (x, None))) m = mm_users keys m - {p}"
  "mm_users (keys(p := None)) m = mm_users keys m - {p}"
  by (auto simp: mm_users_def)

lemma keys_add:
  assumes "keys_ok base keys ps bm users cnt" "keys p = None" "\<not> bm n" "n < INSTANCES_MAX_NUM"
  shows "keys_ok base (keys(p \<mapsto> (int n, None))) (p # ps) (bm(n := True)) (users + 1) cnt"
proof -
  have "mm_users (keys(p \<mapsto> (int n, None))) m = mm_users keys m" for m
    using assms(2) by (auto simp: mm_users_def)
  moreover have "keys_unique (keys(p \<mapsto> (int n, None)))"
    using assms by (auto simp: keys_ok_def keys_unique_def key_ids_def)
  moreover have "p \<notin> set ps" using assms by (auto simp: keys_ok_def)
  ultimately show ?thesis
    using assms by (auto simp: keys_ok_def key_ids_add)
qed

lemma keys_remove:
  assumes ok: "keys_ok base keys ps bm users cnt" and p: "keys p = Some (x, mm)"
  shows "keys_ok base (keys(p := None)) (remove1 p ps) (bm(nat x := False)) (users - 1) (mmdrop mm cnt)"
proof -
  have x: "0 \<le> x" "p \<in> set ps" using ok p key_idsI [of keys p x mm] by (auto simp: keys_ok_def)
  have ids: "key_ids (keys(p := None)) = key_ids keys - {x}"
    using ok p by (intro key_ids_remove) (auto simp: keys_ok_def)
  have cnt: "mmdrop mm cnt m = base m + int (card (mm_users (keys(p := None)) m))" for m
  proof (cases "mm = Some m")
    case True
    then have "p \<in> mm_users keys m" using p by (simp add: mm_users_iff)
    then have "card (mm_users keys m) = card (mm_users keys m - {p}) + 1"
      using card_Suc_Diff1 [OF finite_mm_users [OF ok]] by fastforce
    with True ok show ?thesis by (simp add: mmdrop_def mm_users_upd keys_ok_def)
  next
    case False
    then have "p \<notin> mm_users keys m" using p by (auto simp: mm_users_iff)
    with False ok show ?thesis by (simp add: mmdrop_def mm_users_upd keys_ok_def split: option.splits)
  qed
  have "Suc (length (remove1 p ps)) = length ps"
    using x(2) length_pos_if_in_set [OF x(2)] by (simp add: length_remove1)
  then have len: "int (length (remove1 p ps)) = users - 1"
    using ok by (simp add: keys_ok_def)
  have "keys_unique (keys(p := None))"
    using ok by (auto simp: keys_ok_def keys_unique_def)
  moreover have "(bm(nat x := False)) n \<longleftrightarrow> int n \<in> key_ids (keys(p := None))" for n
    using ok x by (auto simp: keys_ok_def ids)
  ultimately show ?thesis
    using ok len cnt unfolding keys_ok_def by (auto simp: ids)
qed

lemma keys_pin:
  assumes ok: "keys_ok base keys ps bm users cnt" and p: "keys p = Some (x, None)"
  shows "keys_ok base (keys(p \<mapsto> (x, Some m))) ps bm users (cnt(m := cnt m + 1))"
proof -
  have "p \<notin> mm_users keys l" for l using p by (simp add: mm_users_iff)
  then have "(cnt(m := cnt m + 1)) l = base l + int (card (mm_users (keys(p \<mapsto> (x, Some m))) l))" for l
    using ok finite_mm_users [OF ok] by (simp add: mm_users_upd keys_ok_def)
  moreover have "keys_unique (keys(p \<mapsto> (x, Some m)))"
    using ok p by (auto simp: keys_ok_def keys_unique_def split: if_splits)
  moreover have "dom (keys(p \<mapsto> (x, Some m))) = dom keys" using p by auto
  ultimately show ?thesis using ok p unfolding keys_ok_def by (simp add: key_ids_same)
qed

section \<open>The registry invariant\<close>

definition inst_keys :: "(kptr \<Rightarrow> 'v vm_instance option) \<Rightarrow> kptr \<Rightarrow> inst_key option" where
  "inst_keys heap p = map_option inst_key (heap p)"

definition registry_ok :: "(kptr \<Rightarrow> int) \<Rightarrow> ('v, 'g) slim_world \<Rightarrow> bool" where
  "registry_ok base w \<longleftrightarrow>
     keys_ok base (inst_keys (inst_heap w)) (instances_list w) (instances_bitmap w)
       (preempt_users w) (w_mm_count w)
     \<and> (\<forall>p i. inst_heap w p = Some i \<longrightarrow> vcpus_ok i)"

lemma inst_keys_upd [simp]:
  "inst_keys (heap(p \<mapsto> i)) = (inst_keys heap)(p \<mapsto> inst_key i)"
  "inst_keys (heap(p := None)) = (inst_keys heap)(p := None)"
  by (auto simp: inst_keys_def)

lemma inst_keys_None [simp]: "inst_keys heap p = None \<longleftrightarrow> heap p = None"
  by (simp add: inst_keys_def)

lemma inst_keys_empty [simp]: "inst_keys (\<lambda>_. None) = (\<lambda>_. None)"
  by (simp add: inst_keys_def fun_eq_iff)

lemma registry_ok_frame [simp]:
  "registry_ok base (w\<lparr>engine_state := g\<rparr>) = registry_ok base w"
  "registry_ok base (w\<lparr>file_count := c\<rparr>) = registry_ok base w"
  "registry_ok base (w\<lparr>private_data := d\<rparr>) = registry_ok base w"
  by (simp_all add: registry_ok_def)

lemma registry_ok_set:
  assumes "registry_ok base w" "inst_heap w p = Some i" "inst_key i' = inst_key i" "vcpus_ok i'"
  shows "registry_ok base (set_inst p (Some i') w)"
proof -
  have "(inst_keys (inst_heap w))(p \<mapsto> inst_key i') = inst_keys (inst_heap w)"
    using assms(2,3) by (simp add: inst_keys_def fun_upd_idem_iff)
  with assms show ?thesis by (auto simp: registry_ok_def)
qed

lemma registry_ok_mem: "registry_ok base w \<Longrightarrow> p \<in> set (instances_list w) \<longleftrightarrow> inst_heap w p \<noteq> None"
  by (auto simp: registry_ok_def keys_ok_def domIff)

lemma registry_okD:
  "registry_ok base w \<Longrightarrow> inst_heap w p = Some i \<Longrightarrow> vcpus_ok i"
  by (simp add: registry_ok_def)

section \<open>The loops of release and the branches of create\<close>

lemma release_vcpus_slots:
  "\<lbrakk>distinct ns; \<forall>n \<in> set ns. n < VM_MAX_VCPUS \<and> vcpus i n \<noteq> None\<rbrakk> \<Longrightarrow>
   \<exists>g'. release_vcpus ops ns i g = Some
     (i\<lparr>vcpu_bitmap := (\<lambda>k. vcpu_bitmap i k \<and> k \<notin> set ns),
        vcpus := (\<lambda>k. if k \<in> set ns then None else vcpus i k)\<rparr>, g')"
proof (induction ns arbitrary: i g)
  case (Cons n ns)
  then obtain v where v: "vcpus i n = Some v" "n < VM_MAX_VCPUS" by auto
  let ?i = "i\<lparr>vcpu_bitmap := bitmap_clear n (vcpu_bitmap i), vcpus := (vcpus i)(n := None)\<rparr>"
  have step: "vcpu_release ops i (int n) g = Some (?i, destroy_vcpu ops v g)"
    using v by (simp add: vcpu_release_def slot_index_def)
  have "distinct ns" "\<forall>m \<in> set ns. m < VM_MAX_VCPUS \<and> vcpus ?i m \<noteq> None"
    using Cons.prems by auto
  from Cons.IH [OF this, of "destroy_vcpu ops v g"] obtain g' where
    "release_vcpus ops ns ?i (destroy_vcpu ops v g) = Some
     (?i\<lparr>vcpu_bitmap := (\<lambda>k. vcpu_bitmap ?i k \<and> k \<notin> set ns),
         vcpus := (\<lambda>k. if k \<in> set ns then None else vcpus ?i k)\<rparr>, g')" ..
  moreover have "(\<lambda>k. vcpu_bitmap ?i k \<and> k \<notin> set ns) = (\<lambda>k. vcpu_bitmap i k \<and> k \<notin> set (n # ns))"
    "(\<lambda>k. if k \<in> set ns then None else vcpus ?i k) = (\<lambda>k. if k \<in> set (n # ns) then None else vcpus i k)"
    by (auto simp: bitmap_clear_def fun_eq_iff)
  ultimately show ?case by (simp add: step)
qed simp

lemma release_vcpus_all:
  assumes "vcpus_ok i"
  obtains g' where "release_vcpus ops (set_bits_of (vcpu_bitmap i) VM_MAX_VCPUS) i g
     = Some (i\<lparr>vcpu_bitmap := (\<lambda>_. False), vcpus := (\<lambda>_. None)\<rparr>, g')"
proof -
  let ?ns = "set_bits_of (vcpu_bitmap i) VM_MAX_VCPUS"
  have ns: "k \<in> set ?ns \<longleftrightarrow> vcpu_bitmap i k" "vcpu_bitmap i k \<longleftrightarrow> vcpus i k \<noteq> None" for k
    using assms not_less by (auto simp: set_set_bits_of vcpus_ok_def)
  have "\<forall>n \<in> set ?ns. n < VM_MAX_VCPUS \<and> vcpus i n \<noteq> None"
    using ns by (auto simp: set_set_bits_of)
  from release_vcpus_slots [OF distinct_set_bits_of this, of ops g] obtain g' where
    r: "release_vcpus ops ?ns i g = Some (i\<lparr>vcpu_bitmap := (\<lambda>k. vcpu_bitmap i k \<and> k \<notin> set ?ns),
      vcpus := (\<lambda>k. if k \<in> set ?ns then None else vcpus i k)\<rparr>, g')" ..
  have "(\<lambda>k. vcpu_bitmap i k \<and> k \<notin> set ?ns) = (\<lambda>_. False)"
    "(\<lambda>k. if k \<in> set ?ns then None else vcpus i k) = (\<lambda>_. None)"
    by (auto simp: ns fun_eq_iff)
  with r show ?thesis by (intro that [of g']) simp
qed

definition instance_fresh :: "nat \<Rightarrow> 'v vm_instance" where
  "instance_fresh n = instance_zero\<lparr>memp := replicate MAX_MEM_REGION_NUM mem_region_zero, inst_id := int n\<rparr>"

lemma instance_fresh_eq:
  "instance_zero\<lparr>memp := replicate MAX_MEM_REGION_NUM mem_region_zero, inst_id := int n,
     mmu_notifier_seq := 0, mmu_notifier_count := 0\<rparr> = instance_fresh n"
  by (simp add: instance_fresh_def instance_zero_def)

text \<open>The state \<open>instance_create\<close> has reached when it calls the engine.\<close>

definition registered :: "('v, 'g) slim_world \<Rightarrow> kptr \<Rightarrow> nat \<Rightarrow> 'v vm_instance option \<Rightarrow> 'g \<Rightarrow> ('v, 'g) slim_world" where
  "registered w p n i g = w\<lparr>inst_heap := (inst_heap w)(p := i),
     instances_bitmap := (instances_bitmap w)(n := True), instances_list := p # instances_list w,
     engine_state := g\<rparr>"

lemma instance_create_cases:
  assumes "inst_heap w p = None"
  obtains (early) "\<not> kz \<or> (\<forall>n < INSTANCES_MAX_NUM. instances_bitmap w n)"
      "instance_create ops (Some p) kz w = (None, w)"
  | (ptp) n r i g where "kz" "n < INSTANCES_MAX_NUM" "\<not> instances_bitmap w n"
      "instance_alloc_ptp ops (instance_fresh n) (engine_state w) = (r, i, g)" "r \<noteq> 0"
      "instance_create ops (Some p) kz w = (None, registered w p n None g)"
  | (created) n i g where "kz" "n < INSTANCES_MAX_NUM" "\<not> instances_bitmap w n"
      "instance_alloc_ptp ops (instance_fresh n) (engine_state w) = (0, i, g)"
      "instance_create ops (Some p) kz w =
         (Some p, (registered w p n (Some i) g)\<lparr>preempt_users := preempt_users w + 1\<rparr>)"
proof -
  define n where "n = find_first_zero_bit (instances_bitmap w) INSTANCES_MAX_NUM"
  have h: "(inst_heap w)(p := None) = inst_heap w" using assms by (simp add: fun_upd_idem)
  show ?thesis
  proof (cases "kz \<and> n < INSTANCES_MAX_NUM")
    case False
    then show ?thesis
      by (intro early) (auto simp: instance_create_def alloc_inst_id_def Let_def n_def h
        dest: find_first_zero_bit_full)
  next
    case True
    obtain r i g where a: "instance_alloc_ptp ops (instance_fresh n) (engine_state w) = (r, i, g)"
      by (metis prod_cases3)
    have n: "\<not> instances_bitmap w n" using True by (simp add: n_def find_first_zero_bit_clear)
    have "instance_create ops (Some p) kz w = (if r \<noteq> 0 then (None, registered w p n None g)
        else (Some p, (registered w p n (Some i) g)\<lparr>preempt_users := preempt_users w + 1\<rparr>))"
      using True a
      by (simp add: instance_create_def instance_fresh_eq alloc_inst_id_def Let_def n_def [symmetric] registered_def
          bitmap_set_def h)
    with True n a show ?thesis
      by (cases "r = 0") (auto intro: ptp created)
  qed
qed

section \<open>What the registry relies on an engine for\<close>

text \<open>The part of an instance that belongs to the engine independent code.\<close>

definition inst_core :: "'v vm_instance \<Rightarrow> _" where
  "inst_core i = (inst_key i, memp i, mem_region_num i, inst_filp i, force_release i, running_vcpus i,
     sandbox_tsk i, sandbox_pid i, vcpu_bitmap i, dom (vcpus i))"

lemma inst_core_key: "inst_core i' = inst_core i \<Longrightarrow> inst_key i' = inst_key i"
  by (simp add: inst_core_def)

lemma inst_core_vcpus_ok: "inst_core i' = inst_core i \<Longrightarrow> vcpus_ok i' = vcpus_ok i"
proof -
  assume a: "inst_core i' = inst_core i"
  then have "vcpus i' n = None \<longleftrightarrow> vcpus i n = None" for n
    by (simp add: inst_core_def) (metis domIff)
  with a show ?thesis by (simp add: vcpus_ok_def inst_core_def)
qed

locale engine_contract =
  fixes ops :: "('v, 'g) slimvm_engine_ops"
  assumes launch_core: "launch ops n conf i g = Some (Run_return r conf' i' g') \<Longrightarrow> inst_core i' = inst_core i"
    and launch_exit: "launch ops n conf i g = Some (Run_exit i' g') \<Longrightarrow>
      \<exists>j k h. inst_core j = inst_core i \<and> vcpu_release ops j k h = Some (i', g')"
    and shutdown_core: "shutdown_all_vcpus ops i g = (i', g') \<Longrightarrow> inst_core i' = inst_core i"
    and shutdown_stops: "shutdown_all_vcpus ops i g = (i', g') \<Longrightarrow> vcpus_ok i \<Longrightarrow>
      inst_shutdown i' \<and> (\<forall>n v. vcpus i' n = Some v \<longrightarrow> vcpu_is_shutdown ops v)"
    and sync_core: "sync_all_vcpus ops i g = Some (i', g') \<Longrightarrow> inst_core i' = inst_core i"
    and alloc_ptp_core: "instance_alloc_ptp ops i g = (r, i', g') \<Longrightarrow> inst_core i' = inst_core i"
    and init_pt_core: "instance_init_pt ops m i g = (r, i', g') \<Longrightarrow> inst_core i' = inst_core i"
    and destroy_pt_core: "instance_destroy_pt ops i g = Some (i', g') \<Longrightarrow> inst_core i' = inst_core i"
    and mode_shutdown: "vcpu_is_shutdown ops (set_vcpu_mode ops v md) = vcpu_is_shutdown ops v"
begin

lemma registry_ok_core:
  "registry_ok base w \<Longrightarrow> inst_heap w p = Some i \<Longrightarrow> inst_core i' = inst_core i
     \<Longrightarrow> registry_ok base (set_inst p (Some i') w)"
  using registry_ok_set [of base w p i i'] inst_core_key [of i' i] inst_core_vcpus_ok [of i' i]
    registry_okD [of base w p i]
  by blast

text \<open>A new instance: the id was free, the instance has no vcpus, all other instances and all
  reference counts are as before.\<close>

lemma create_ok:
  assumes ok: "registry_ok base w" and p: "inst_heap w p = None"
    and c: "instance_create ops (Some p) kz w = (Some q, w')"
  shows "q = p \<and> registry_ok base w' \<and>
    (\<exists>i. inst_heap w' = (inst_heap w)(p \<mapsto> i) \<and> vcpus i = (\<lambda>_. None)
      \<and> 0 \<le> inst_id i \<and> \<not> instances_bitmap w (nat (inst_id i)))"
proof (cases rule: instance_create_cases [OF p, where ops = ops and kz = kz])
  case (3 n i g)
  note core = alloc_ptp_core [OF 3(4)]
  have key: "inst_key i = (int n, None)"
    using inst_core_key [OF core] by (simp add: inst_key_def instance_fresh_def instance_zero_def)
  have "dom (vcpus i) = {}" "vcpus_ok i"
    using core inst_core_vcpus_ok [OF core]
    by (simp_all add: inst_core_def instance_fresh_def instance_zero_def vcpus_ok_def)
  with c 3 key keys_add [of base "inst_keys (inst_heap w)" _ _ _ _ p n] ok p show ?thesis
    by (auto simp: registry_ok_def registered_def inst_key_def)
qed (use c in auto)

text \<open>Release: when the vcpus have left and it returns, it has freed every vcpu, removed the instance from heap,
  list and bitmap, dropped the reference on its address space, and touched no other instance.\<close>

lemma release_result:
  assumes ok: "registry_ok base w" and p: "inst_heap w p = Some i"
    and sd: "shutdown_all_vcpus ops i (engine_state w) = (i1, g1)"
    and sync: "(if force_release i1 then Some (i1, g1) else sync_all_vcpus ops i1 g1) = Some (i2, g2)"
    and r: "instance_release ops p w = Some (r, w')"
  shows "r = 0 \<and> registry_ok base w' \<and> inst_heap w' = (inst_heap w)(p := None) \<and> private_data w' = private_data w"
proof -
  have c2: "inst_core i2 = inst_core i"
    using shutdown_core [OF sd] sync sync_core [of i1 g1 i2 g2] by (auto split: if_splits)
  have "vcpus_ok i2" using inst_core_vcpus_ok [OF c2] registry_okD [OF ok p] by simp
  then obtain g3 where rel: "release_vcpus ops (set_bits_of (vcpu_bitmap i2) VM_MAX_VCPUS) i2 g2
      = Some (i2\<lparr>vcpu_bitmap := (\<lambda>_. False), vcpus := (\<lambda>_. None)\<rparr>, g3)"
    by (rule release_vcpus_all)
  obtain i4 g4 where d: "instance_destroy_pt ops (i2\<lparr>vcpu_bitmap := (\<lambda>_. False), vcpus := (\<lambda>_. None)\<rparr>) g3
      = Some (i4, g4)"
    using r p sd sync rel by (auto simp: instance_release_def split: option.splits)
  have key: "inst_key i4 = inst_key i"
    using inst_core_key [OF destroy_pt_core [OF d]] inst_core_key [OF c2] by (simp add: inst_key_def)
  have keys: "inst_keys (inst_heap w) p = Some (inst_id i4, inst_mm i4)"
    using p key by (simp add: inst_keys_def inst_key_def)
  have "keys_ok base (inst_keys (inst_heap w)) (instances_list w) (instances_bitmap w)
      (preempt_users w) (w_mm_count w)"
    using ok by (simp add: registry_ok_def)
  note rem = keys_remove [OF this keys]
  have range: "0 \<le> inst_id i4" "inst_id i4 < int INSTANCES_MAX_NUM"
    using ok key_idsI [of "inst_keys (inst_heap w)", OF keys] by (auto simp: registry_ok_def keys_ok_def)
  have "instance_release ops p w = Some (0, w\<lparr>engine_state := g4,
      w_mm_count := mmdrop (inst_mm i4) (w_mm_count w),
      instances_bitmap := (instances_bitmap w)(nat (inst_id i4) := False),
      instances_list := remove1 p (instances_list w), inst_heap := (inst_heap w)(p := None),
      preempt_users := preempt_users w - 1\<rparr>)"
    using p sd sync rel d range
    by (simp add: instance_release_def Let_def free_inst_id_def bitmap_clear_def)
  then show ?thesis using rem ok r by (auto simp: registry_ok_def split: if_splits)
qed

end

section \<open>Reclaiming\<close>

definition marked :: "(int \<Rightarrow> kptr option) \<Rightarrow> 'v vm_instance \<Rightarrow> 'v vm_instance" where
  "marked pid_task i = (if is_leaked pid_task i then i\<lparr>force_release := True\<rparr> else i)"

lemma marked_not_leaked: "\<not> is_leaked pid_task' (marked pid_task i) \<or> \<not> is_leaked pid_task i"
  by (simp add: marked_def is_leaked_def)

lemma reclaim_mark_result:
  "\<lbrakk>distinct ps; \<forall>p \<in> set ps. heap p \<noteq> None\<rbrakk> \<Longrightarrow>
   reclaim_mark pid_task ps heap rl = Some
     (\<lambda>p. if p \<in> set ps then map_option (marked pid_task) (heap p) else heap p,
      rev (filter (\<lambda>p. is_leaked pid_task (the (heap p))) ps) @ rl)"
proof (induction ps arbitrary: heap rl)
  case (Cons p ps)
  then obtain i where i: "heap p = Some i" by auto
  show ?case
  proof (cases "is_leaked pid_task i")
    case True
    let ?h = "heap(p \<mapsto> i\<lparr>force_release := True\<rparr>)"
    have h: "?h q = heap q" if "q \<in> set ps" for q using Cons.prems that by auto
    have "reclaim_mark pid_task ps ?h (p # rl) = Some
       (\<lambda>q. if q \<in> set ps then map_option (marked pid_task) (?h q) else ?h q,
        rev (filter (\<lambda>q. is_leaked pid_task (the (?h q))) ps) @ p # rl)"
      by (rule Cons.IH) (use Cons.prems h in auto)
    moreover have "filter (\<lambda>q. is_leaked pid_task (the (?h q))) ps
        = filter (\<lambda>q. is_leaked pid_task (the (heap q))) ps"
      by (rule filter_cong [OF refl]) (simp only: h)
    moreover have "(\<lambda>q. if q \<in> set ps then map_option (marked pid_task) (?h q) else ?h q)
        = (\<lambda>q. if q \<in> set (p # ps) then map_option (marked pid_task) (heap q) else heap q)"
      using Cons.prems i True by (auto simp: marked_def fun_eq_iff)
    ultimately show ?thesis using i True by simp
  next
    case False
    have "reclaim_mark pid_task ps heap rl = Some
       (\<lambda>q. if q \<in> set ps then map_option (marked pid_task) (heap q) else heap q,
        rev (filter (\<lambda>q. is_leaked pid_task (the (heap q))) ps) @ rl)"
      by (rule Cons.IH) (use Cons.prems in auto)
    moreover have "(\<lambda>q. if q \<in> set ps then map_option (marked pid_task) (heap q) else heap q)
        = (\<lambda>q. if q \<in> set (p # ps) then map_option (marked pid_task) (heap q) else heap q)"
      using Cons.prems i False by (auto simp: marked_def fun_eq_iff)
    ultimately show ?thesis using i False by simp
  qed
qed simp

text \<open>The references a leaked instance drops on a file.\<close>

definition dropped :: "(kptr \<Rightarrow> 'v vm_instance option) \<Rightarrow> kptr \<Rightarrow> kptr \<Rightarrow> int" where
  "dropped heap f p = (case heap p of
     Some i \<Rightarrow> (if inst_filp i = Some f then int (unat (word_of_int (running_vcpus i) :: u32)) else 0)
   | None \<Rightarrow> 0)"

lemma reclaim_fput_result:
  "reclaim_fput heap ps cnt = Some cnt' \<Longrightarrow> cnt' f = cnt f - (\<Sum>p\<leftarrow>ps. dropped heap f p)"
  by (induction ps arbitrary: cnt) (auto simp: Let_def dropped_def split: option.splits if_splits)

lemma reclaim_fput_total:
  "\<forall>p \<in> set ps. \<exists>i. heap p = Some i \<and> inst_filp i \<noteq> None \<Longrightarrow> \<exists>cnt'. reclaim_fput heap ps cnt = Some cnt'"
  by (induction ps arbitrary: cnt) (auto simp: Let_def split: option.splits)

lemma reclaim_heap:
  assumes "registry_ok base w" "slimvm_reclaim_leaked_instances pid_task w = Some w'"
  shows "inst_heap w' p = map_option (marked pid_task) (inst_heap w p)"
    and "instances_list w' = instances_list w"
    and "file_count w' f = file_count w f - (\<Sum>p\<leftarrow>rev (filter (\<lambda>p. is_leaked pid_task (the (inst_heap w p)))
      (instances_list w)). dropped (inst_heap w') f p)"
proof -
  have l: "distinct (instances_list w)" "\<forall>p \<in> set (instances_list w). inst_heap w p \<noteq> None"
    using assms(1) registry_ok_mem [OF assms(1)] by (auto simp: registry_ok_def keys_ok_def)
  have out: "inst_heap w p = None" if "p \<notin> set (instances_list w)" for p
    using that registry_ok_mem [OF assms(1), of p] by simp
  from assms(2) show "inst_heap w' p = map_option (marked pid_task) (inst_heap w p)"
    "instances_list w' = instances_list w"
    "file_count w' f = file_count w f - (\<Sum>p\<leftarrow>rev (filter (\<lambda>p. is_leaked pid_task (the (inst_heap w p)))
      (instances_list w)). dropped (inst_heap w') f p)"
    by (auto simp: slimvm_reclaim_leaked_instances_def reclaim_mark_result [OF l] out
        dest!: reclaim_fput_result [where f = f] split: option.splits)
qed

lemma marked_idem: "marked pid_task (marked pid_task i) = marked pid_task i"
  by (simp add: marked_def is_leaked_def)

lemma inst_key_marked [simp]: "inst_key (marked pid_task i) = inst_key i"
  by (simp add: marked_def inst_key_def)

lemma vcpus_ok_marked [simp]: "vcpus_ok (marked pid_task i) = vcpus_ok i"
  by (simp add: marked_def vcpus_ok_def)

lemma reclaim_frame:
  assumes "slimvm_reclaim_leaked_instances pid_task w = Some w'"
  obtains h c where "w' = w\<lparr>inst_heap := h, file_count := c\<rparr>"
  using assms by (auto simp: slimvm_reclaim_leaked_instances_def split: option.splits)

lemma registry_ok_reclaim:
  assumes "registry_ok base w" "slimvm_reclaim_leaked_instances pid_task w = Some w'"
  shows "registry_ok base w'"
proof -
  have "inst_keys (inst_heap w') = inst_keys (inst_heap w)"
    by (auto simp: inst_keys_def reclaim_heap(1) [OF assms] option.map_comp comp_def)
  moreover have "\<forall>p i. inst_heap w' p = Some i \<longrightarrow> vcpus_ok i"
    using assms(1) by (auto simp: reclaim_heap(1) [OF assms] registry_ok_def)
  ultimately show ?thesis
    using assms(1) by (auto intro: reclaim_frame [OF assms(2)] simp: registry_ok_def)
qed

section \<open>Instance ids as a pool\<close>

definition inst_id_alloc :: "kptr \<Rightarrow> 'v vm_instance \<Rightarrow> ('v, 'g) slim_world \<Rightarrow> nat option \<times> ('v, 'g) slim_world" where
  "inst_id_alloc p i w = (case alloc_inst_id w p i of
     (ok, w') \<Rightarrow> (if ok then map_option (\<lambda>j. nat (inst_id j)) (inst_heap w' p) else None, w'))"

definition inst_id_free :: "kptr \<Rightarrow> 'v vm_instance \<Rightarrow> nat \<Rightarrow> ('v, 'g) slim_world \<Rightarrow> ('v, 'g) slim_world" where
  "inst_id_free p i n w = free_inst_id w p (i\<lparr>inst_id := int n\<rparr>)"

interpretation inst_pool: id_pool "inst_id_alloc p i" "inst_id_free p i" instances_bitmap 0 INSTANCES_MAX_NUM
  for p i
  by unfold_locales
    (auto simp: inst_id_alloc_def inst_id_free_def alloc_inst_id_def free_inst_id_def Let_def
      bitmap_set_def bitmap_clear_def dest: find_first_zero_bit_clear find_first_zero_bit_full
      split: if_splits)

section \<open>Concrete registries\<close>

text \<open>The state after the module is loaded, and one with a single instance at address 1 whose sandbox
  process, task 7 with process id 42, was recorded and two of whose threads are inside the module.\<close>

definition world_init :: "'g \<Rightarrow> ('v, 'g) slim_world" where
  "world_init g = \<lparr>inst_heap = (\<lambda>_. None), instances_bitmap = (\<lambda>_. False), instances_list = [],
     preempt_users = 0, w_mm_count = (\<lambda>_. 0), file_count = (\<lambda>_. 0), private_data = (\<lambda>_. None),
     engine_state = g\<rparr>"

definition inst_example :: "unit vm_instance" where
  "inst_example = instance_zero\<lparr>sandbox_tsk := Some 7, sandbox_pid := 42, inst_filp := Some 9, running_vcpus := 2\<rparr>"

definition world_example :: "(unit, unit) slim_world" where
  "world_example = (registered (world_init ()) 1 0 (Some inst_example) ())\<lparr>preempt_users := 1, file_count := (\<lambda>_. 3)\<rparr>"

lemma keys_ok_init: "keys_ok (\<lambda>_. 0) (\<lambda>_. None) [] (\<lambda>_. False) 0 (\<lambda>_. 0)"
  by (auto simp: keys_ok_def key_ids_def keys_unique_def mm_users_def)

lemma registry_ok_init: "registry_ok (\<lambda>_. 0) (world_init g)"
  using keys_ok_init by (simp add: registry_ok_def world_init_def)

lemma registry_ok_example: "registry_ok (\<lambda>_. 0) world_example"
  using keys_add [OF keys_ok_init, where p = 1 and n = 0]
  by (auto simp: registry_ok_def world_example_def registered_def world_init_def
      inst_example_def inst_key_def instance_zero_def vcpus_ok_def)

section \<open>Properties\<close>

text \<open>C24. Reclaiming happens once.  A call marks exactly the leaked instances and drops, on each file,
  the references of their vanished threads; the registry stays consistent.  No instance it marked
  counts as leaked again, whatever tasks exist later, and an immediate second call changes nothing.\<close>

theorem reclaim_once:
  assumes ok: "registry_ok base w" and r: "slimvm_reclaim_leaked_instances pid_task w = Some w'"
  shows "registry_ok base w'
    \<and> (\<forall>p. inst_heap w' p = map_option (marked pid_task) (inst_heap w p))
    \<and> (\<forall>p i pid_task'. inst_heap w p = Some i \<and> is_leaked pid_task i
         \<longrightarrow> \<not> is_leaked pid_task' (the (inst_heap w' p)))
    \<and> slimvm_reclaim_leaked_instances pid_task w' = Some w'"
proof -
  note ok' = registry_ok_reclaim [OF ok r]
  note h = reclaim_heap(1) [OF ok r]
  have none: "\<not> is_leaked pid_task (the (inst_heap w' p))" if "p \<in> set (instances_list w')" for p
    using that registry_ok_mem [OF ok', of p] by (auto simp: h marked_def is_leaked_def)
  have l: "distinct (instances_list w')" "\<forall>p \<in> set (instances_list w'). inst_heap w' p \<noteq> None"
    using ok' registry_ok_mem [OF ok'] by (auto simp: registry_ok_def keys_ok_def)
  have "(\<lambda>p. if p \<in> set (instances_list w') then map_option (marked pid_task) (inst_heap w' p)
      else inst_heap w' p) = inst_heap w'"
    by (auto simp: h option.map_comp comp_def marked_idem fun_eq_iff)
  moreover have "filter (\<lambda>p. is_leaked pid_task (the (inst_heap w' p))) (instances_list w') = []"
    using none by (simp add: filter_empty_conv)
  ultimately have "slimvm_reclaim_leaked_instances pid_task w' = Some w'"
    by (simp add: slimvm_reclaim_leaked_instances_def reclaim_mark_result [OF l])
  then show ?thesis using ok' h by (auto simp: marked_def is_leaked_def)
qed

theorem reclaim_once_witness:
  "\<exists>w'. slimvm_reclaim_leaked_instances (\<lambda>_. None) world_example = Some w'
    \<and> is_leaked (\<lambda>_. None) inst_example \<and> registry_ok (\<lambda>_. 0) w'
    \<and> inst_heap w' 1 = Some (inst_example\<lparr>force_release := True\<rparr>)
    \<and> slimvm_reclaim_leaked_instances (\<lambda>_. None) w' = Some w'"
proof -
  let ?w = "world_example\<lparr>inst_heap := (\<lambda>_. None)(1 \<mapsto> inst_example\<lparr>force_release := True\<rparr>),
      file_count := (\<lambda>_. 3)(9 := 1)\<rparr>"
  have l: "is_leaked (\<lambda>_. None) inst_example"
    by (simp add: is_leaked_def inst_example_def instance_zero_def)
  have "slimvm_reclaim_leaked_instances (\<lambda>_. None) world_example = Some ?w"
    by (simp add: slimvm_reclaim_leaked_instances_def world_example_def registered_def world_init_def l)
      (simp add: inst_example_def)
  from reclaim_once [OF registry_ok_example this] l show ?thesis
    by (intro exI [of _ ?w]) (simp add: \<open>slimvm_reclaim_leaked_instances (\<lambda>_. None) world_example = Some ?w\<close>)
qed

text \<open>C25. When the engine cannot allocate the root of the nested page table, \<open>instance_create\<close> frees
  the instance but leaves it registered: the id stays taken, the list keeps a pointer to freed
  memory, and the next walk over the list, for example to count vcpus, follows it.\<close>

theorem create_ptp_failure_dangles:
  assumes "inst_heap w p = None" "kz" "\<not> instances_bitmap w n" "n < INSTANCES_MAX_NUM"
    and "\<And>i g. fst (instance_alloc_ptp ops i g) \<noteq> 0"
  shows "\<exists>w'. instance_create ops (Some p) kz w = (None, w') \<and> inst_heap w' p = None
    \<and> p \<in> set (instances_list w') \<and> instance_get_vcpu_num w' = None \<and> \<not> registry_ok base w'"
proof (cases rule: instance_create_cases [OF assms(1), where ops = ops and kz = kz])
  case (2 n' r i g)
  let ?w = "registered w p n' None g"
  have "instance_get_vcpu_num ?w = None" "inst_heap ?w p = None" "p \<in> set (instances_list ?w)"
    by (simp_all add: registered_def instance_get_vcpu_num_def)
  moreover from this have "\<not> registry_ok base ?w" using registry_ok_mem by blast
  ultimately show ?thesis using 2(6) by blast
next
  case (3 n' i g)
  then show ?thesis using assms(5) [of "instance_fresh n'" "engine_state w"] by simp
qed (use assms in auto)

theorem create_ptp_failure_dangles_witness:
  "\<forall>ops. \<exists>w'. instance_create (ops\<lparr>instance_alloc_ptp := (\<lambda>i g. (- ENOMEM, i, g))\<rparr>) (Some 1) True
      (world_init () :: (unit, unit) slim_world) = (None, w')
    \<and> inst_heap w' 1 = None \<and> 1 \<in> set (instances_list w') \<and> instance_get_vcpu_num w' = None
    \<and> \<not> registry_ok (\<lambda>_. 0) w'"
  by (rule allI, rule create_ptp_failure_dangles [where n = 0]) (simp_all add: world_init_def)

end
