(* ===== verification/Slim_Proc.thy ===== *)
theory Slim_Proc
  imports Slim_Instance
begin

text \<open>
  \<^verbatim>\<open>proc.c\<close>: the sysctl table and the statistics file.  The kernel's parsing and printing of
  integers (\<^verbatim>\<open>proc_dointvec\<close>, \<^verbatim>\<open>proc_doulongvec_minmax\<close>) is a parameter where its result matters:
  what a write leaves in the variable.  The lemmas show that the two counters are exact.
\<close>

section \<open>Definitions\<close>

record proc_state =
  slimvm_sysctl_header :: bool
  slimvm_proc_dir :: bool
  vm_mem_stat :: bool
  slimvm_vcpu_num :: int
  slimvm_vm_num :: int
  slimvm_operation_code :: int
  slimvm_debug_enable :: int

definition proc_zero :: proc_state where
  "proc_zero = \<lparr>slimvm_sysctl_header = False, slimvm_proc_dir = False, vm_mem_stat = False,
     slimvm_vcpu_num = 0, slimvm_vm_num = 0, slimvm_operation_code = 0, slimvm_debug_enable = 0\<rparr>"

definition read_vcpu_num :: "('v, 'g) slim_world \<Rightarrow> proc_state \<Rightarrow> (int \<times> proc_state) option" where
  "read_vcpu_num w ps =
     map_option (\<lambda>n. (0, ps\<lparr>slimvm_vcpu_num := int n\<rparr>)) (instance_get_vcpu_num w)"

definition read_vm_num :: "('v, 'g) slim_world \<Rightarrow> proc_state \<Rightarrow> int \<times> proc_state" where
  "read_vm_num w ps = (0, ps\<lparr>slimvm_vm_num := int (instance_get_vm_num w)\<rparr>)"

abbreviation (input) SLIMVM_OP_RECLAIM_LEAKED_INSTANCES :: int where
  "SLIMVM_OP_RECLAIM_LEAKED_INSTANCES \<equiv> 100678677"

text \<open>\<open>parse\<close> is what \<^verbatim>\<open>proc_doulongvec_minmax\<close> leaves in the variable, given its old value.\<close>

definition slimvm_do_operation :: "(int \<Rightarrow> kptr option) \<Rightarrow> (int \<Rightarrow> int) \<Rightarrow> bool \<Rightarrow> ('v, 'g) slim_world
    \<Rightarrow> proc_state \<Rightarrow> (int \<times> ('v, 'g) slim_world \<times> proc_state) option" where
  "slimvm_do_operation pid_task parse write w ps =
     (if \<not> write then Some (0, w, ps)
      else
        (let ps1 = ps\<lparr>slimvm_operation_code := parse (slimvm_operation_code ps)\<rparr> in
         if slimvm_operation_code ps1 = SLIMVM_OP_RECLAIM_LEAKED_INSTANCES
         then map_option (\<lambda>w'. (0, w', ps1)) (slimvm_reclaim_leaked_instances pid_task w)
         else Some (- EINVAL, w, ps1)))"

text \<open>The entries of \<^verbatim>\<open>slimvm_table\<close>: name and mode.\<close>

definition slimvm_table :: "(string \<times> nat) list" where
  "slimvm_table = [(''slimvm_vcpu_num'', 292), (''slimvm_vm_num'', 292),
     (''slimvm_operation'', 128), (''slimvm_debug_enable'', 420)]"

text \<open>A line of the statistics file, as the numbers it prints.\<close>

definition ept_show_vm_mem_stat :: "'v vm_instance \<Rightarrow> (int \<times> u64 list) list \<Rightarrow> (int \<times> u64 list) list" where
  "ept_show_vm_mem_stat instp seq = seq @ [(inst_sid instp,
     [ept_4k_pages instp, ept_2m_pages instp, ept_invl_count instp, ept_invl_range instp,
      ept_invl_ipi instp])]"

definition ept_stat_show :: "('v, 'g) slim_world \<Rightarrow> (int \<times> u64 list) list option" where
  "ept_stat_show w = on_each_vm_instance ept_show_vm_mem_stat (inst_heap w) (instances_list w) []"

text \<open>\<open>reg\<close>, \<open>dir\<close>, \<open>file\<close> say whether the kernel registers the table, creates the directory and the file.\<close>

definition slimvm_sysctl_init :: "bool \<Rightarrow> bool \<Rightarrow> bool \<Rightarrow> proc_state \<Rightarrow> bool \<times> proc_state" where
  "slimvm_sysctl_init reg dir file ps =
     (let ps1 = ps\<lparr>slimvm_sysctl_header := reg\<rparr> in
      if \<not> reg then (False, ps1)
      else
        (let ps2 = ps1\<lparr>slimvm_proc_dir := dir\<rparr> in
         (True, if dir then ps2\<lparr>vm_mem_stat := file\<rparr> else ps2)))"

text \<open>
  The kernel objects are gone afterwards; \<open>vm_mem_stat\<close> and \<open>slimvm_proc_dir\<close> stand for them (the
  module's pointers keep their stale values, nothing reads them again).
\<close>

definition slimvm_sysctl_exit :: "proc_state \<Rightarrow> proc_state" where
  "slimvm_sysctl_exit ps =
     (let ps1 = (if vm_mem_stat ps then ps\<lparr>vm_mem_stat := False\<rparr> else ps);
          ps2 = (if slimvm_proc_dir ps1 then ps1\<lparr>slimvm_proc_dir := False\<rparr> else ps1)
      in if slimvm_sysctl_header ps2 then ps2\<lparr>slimvm_sysctl_header := False\<rparr> else ps2)"

section \<open>The counters are exact\<close>

lemma bitmap_weight_card: "bitmap_weight bm n = card {i. i < n \<and> bm i}"
  unfolding bitmap_weight_def
  by (metis distinct_card distinct_set_bits_of set_set_bits_of)

lemma on_each_sum:
  "\<forall>p \<in> set ps. heap p \<noteq> None \<Longrightarrow>
   on_each_vm_instance (\<lambda>i num. num + f i) heap ps (n :: nat) = Some (n + (\<Sum>p\<leftarrow>ps. f (the (heap p))))"
  by (induction ps arbitrary: n) (auto simp: add.assoc)

lemma on_each_total:
  "\<forall>p \<in> set ps. heap p \<noteq> None \<Longrightarrow> \<exists>d'. on_each_vm_instance act heap ps d = Some d'"
  by (induction ps arbitrary: d) auto

lemma keys_ok_weight:
  assumes "keys_ok base keys ps bm users cnt"
  shows "bitmap_weight bm INSTANCES_MAX_NUM = length ps"
proof -
  let ?id = "\<lambda>p. nat (fst (the (keys p)))"
  have ids: "0 \<le> x \<and> x < int INSTANCES_MAX_NUM" if "keys p = Some (x, m)" for p x m
    using assms key_idsI [of keys, OF that] unfolding keys_ok_def by auto
  have "bij_betw ?id (set ps) {i. i < INSTANCES_MAX_NUM \<and> bm i}"
  proof (rule bij_betw_imageI)
    show "inj_on ?id (set ps)"
    proof (rule inj_onI)
      fix p q assume "p \<in> set ps" "q \<in> set ps" "?id p = ?id q"
      then obtain x m y l where k: "keys p = Some (x, m)" "keys q = Some (y, l)" "nat x = nat y"
        using assms by (auto simp: keys_ok_def)
      with ids [OF k(1)] ids [OF k(2)] have "x = y" by (metis int_nat_eq)
      then show "p = q" using k assms unfolding keys_ok_def keys_unique_def by blast
    qed
    show "?id ` set ps = {i. i < INSTANCES_MAX_NUM \<and> bm i}"
    proof safe
      fix p assume "p \<in> set ps"
      then obtain x m where k: "keys p = Some (x, m)" using assms by (auto simp: keys_ok_def)
      with ids [OF k] assms key_idsI [of keys, OF k]
      show "?id p < INSTANCES_MAX_NUM" "bm (?id p)" by (auto simp: keys_ok_def)
    next
      fix n assume "n < INSTANCES_MAX_NUM" "bm n"
      then obtain p m where "keys p = Some (int n, m)"
        using assms by (auto simp: keys_ok_def key_ids_def)
      then show "n \<in> ?id ` set ps" using assms by (force simp: keys_ok_def image_iff)
    qed
  qed
  then have "card (set ps) = card {i. i < INSTANCES_MAX_NUM \<and> bm i}" by (rule bij_betw_same_card)
  moreover have "distinct ps" using assms by (simp add: keys_ok_def)
  ultimately show ?thesis by (simp add: bitmap_weight_card distinct_card)
qed

section \<open>Properties\<close>

text \<open>In a consistent registry the two sysctl counters are exact: \<open>slimvm_vm_num\<close> is the number of
  live instances and \<open>slimvm_vcpu_num\<close> is defined and is the number of occupied vcpu slots over all
  of them.\<close>

lemma sysctl_counters_exact:
  assumes "registry_ok base w"
  shows "slimvm_vm_num (snd (read_vm_num w ps)) = int (length (instances_list w))
    \<and> read_vcpu_num w ps = Some (0, ps\<lparr>slimvm_vcpu_num :=
        int (\<Sum>p\<leftarrow>instances_list w. card (dom (vcpus (the (inst_heap w p)))))\<rparr>)"
proof -
  have live: "\<forall>p \<in> set (instances_list w). inst_heap w p \<noteq> None"
    using registry_ok_mem [OF assms] by simp
  have slots: "bitmap_weight (vcpu_bitmap (the (inst_heap w p))) VM_MAX_VCPUS
      = card (dom (vcpus (the (inst_heap w p))))" if p: "p \<in> set (instances_list w)" for p
  proof -
    obtain i where i: "inst_heap w p = Some i" using live p by auto
    then have "vcpus_ok i" using assms by (simp add: registry_ok_def)
    then have "{n. n < VM_MAX_VCPUS \<and> vcpu_bitmap i n} = dom (vcpus i)"
      using not_less by (auto simp: vcpus_ok_def)
    then show ?thesis by (simp add: i bitmap_weight_card)
  qed
  have "(\<Sum>p\<leftarrow>instances_list w. bitmap_weight (vcpu_bitmap (the (inst_heap w p))) VM_MAX_VCPUS)
      = (\<Sum>p\<leftarrow>instances_list w. card (dom (vcpus (the (inst_heap w p)))))"
    using slots by (simp cong: map_cong)
  moreover have "instance_get_vm_num w = length (instances_list w)"
    using assms keys_ok_weight unfolding registry_ok_def instance_get_vm_num_def by blast
  ultimately show ?thesis
    by (simp add: read_vm_num_def read_vcpu_num_def instance_get_vcpu_num_def on_each_sum [OF live])
qed

end
