(* ===== verification/Slim_Mm.thy ===== *)
theory Slim_Mm
  imports Slim_Engine
begin

text \<open>
  \<^verbatim>\<open>mm.c\<close>: the memory regions that map host virtual addresses (hva) of the sandbox process to
  guest physical addresses (gpa).  \<open>check_mem_region\<close> validates what user space passes in,
  \<open>hva_to_gpa\<close> and \<open>gpa_to_hva\<close> scan the region array in order and return \<open>ADDR_INVAL\<close> when no
  region contains the address.  The lemmas relate the wrapping 64-bit comparisons to intervals of
  natural numbers, show when the two scans are inverse to each other, and what the validation
  guarantees.
\<close>

section \<open>Definitions\<close>

fun check_mem_region_loop :: "mem_region list \<Rightarrow> int" where
  "check_mem_region_loop [] = 0"
| "check_mem_region_loop (r # rs) =
     (if region_size r AND (PAGE_SIZE - 1) \<noteq> 0 then - EINVAL
      else if region_gpa r AND (PAGE_SIZE - 1) \<noteq> 0 then - EINVAL
      else if region_gpa r + region_size r < region_gpa r then - EINVAL
      else check_mem_region_loop rs)"

definition check_mem_region :: "'v vm_instance \<Rightarrow> int \<Rightarrow> int" where
  "check_mem_region instp num = check_mem_region_loop (take (nat num) (memp instp))"

fun hva_to_gpa_loop :: "mem_region list \<Rightarrow> u64 \<Rightarrow> u64" where
  "hva_to_gpa_loop [] hva = ADDR_INVAL"
| "hva_to_gpa_loop (r # rs) hva =
     (if region_hva r \<le> hva \<and> region_hva r + region_size r > hva
      then region_gpa r + (hva - region_hva r)
      else hva_to_gpa_loop rs hva)"

definition hva_to_gpa :: "'v vm_instance \<Rightarrow> u64 \<Rightarrow> u64" where
  "hva_to_gpa instp hva = hva_to_gpa_loop (regions instp) hva"

fun gpa_to_hva_loop :: "mem_region list \<Rightarrow> u64 \<Rightarrow> u64" where
  "gpa_to_hva_loop [] gpa = ADDR_INVAL"
| "gpa_to_hva_loop (r # rs) gpa =
     (if region_gpa r \<le> gpa \<and> region_gpa r + region_size r > gpa
      then region_hva r + (gpa - region_gpa r)
      else gpa_to_hva_loop rs gpa)"

definition gpa_to_hva :: "'v vm_instance \<Rightarrow> u64 \<Rightarrow> u64" where
  "gpa_to_hva instp gpa = gpa_to_hva_loop (regions instp) gpa"

text \<open>
  \<open>vm_mmap\<close> is kernel code: an argument that returns the mapped address or an error pointer
  (one of the top 4095 addresses).  The guest physical address is not used.
\<close>

definition IS_ERR :: "u64 \<Rightarrow> bool" where
  "IS_ERR p \<longleftrightarrow> - 4095 \<le> p"

definition slimvm_set_tss_addr :: "(u32 \<Rightarrow> u64) \<Rightarrow> u64 \<Rightarrow> u32 \<Rightarrow> int" where
  "slimvm_set_tss_addr vm_mmap gpa sz =
     (if sz \<noteq> 0 then
        (let hva = vm_mmap sz in if IS_ERR hva then c_int hva else 0)
      else 0)"

text \<open>Two regions as a sandbox sets them up, for the witnesses below.\<close>

definition mm_example :: "unit vm_instance" where
  "mm_example = instance_zero\<lparr>mem_region_num := 2,
    memp := [\<lparr>region_hva = 0x7e0000000000, region_gpa = 0x1000, region_size = 0x3000\<rparr>,
             \<lparr>region_hva = 0x7f0000000000, region_gpa = 0x4000, region_size = 0x2000\<rparr>]\<rparr>"

section \<open>Regions as intervals\<close>

definition gpa_range :: "mem_region \<Rightarrow> nat set" where
  "gpa_range r = {unat (region_gpa r) ..< unat (region_gpa r) + unat (region_size r)}"

definition hva_range :: "mem_region \<Rightarrow> nat set" where
  "hva_range r = {unat (region_hva r) ..< unat (region_hva r) + unat (region_size r)}"

text \<open>What \<open>check_mem_region\<close> accepts.\<close>

definition region_ok :: "mem_region \<Rightarrow> bool" where
  "region_ok r \<longleftrightarrow> 4096 dvd unat (region_size r) \<and> 4096 dvd unat (region_gpa r)
     \<and> unat (region_gpa r) + unat (region_size r) < 2 ^ 64"

text \<open>What it does not look at: the host virtual side.\<close>

definition hva_ok :: "mem_region \<Rightarrow> bool" where
  "hva_ok r \<longleftrightarrow> unat (region_hva r) + unat (region_size r) < 2 ^ 64"

text \<open>Two regions that do not meet, on the guest and on the host side.\<close>

definition gpa_sep :: "mem_region \<Rightarrow> mem_region \<Rightarrow> bool" where
  "gpa_sep r s \<longleftrightarrow> unat (region_gpa r) + unat (region_size r) \<le> unat (region_gpa s)
     \<or> unat (region_gpa s) + unat (region_size s) \<le> unat (region_gpa r)"

definition hva_sep :: "mem_region \<Rightarrow> mem_region \<Rightarrow> bool" where
  "hva_sep r s \<longleftrightarrow> unat (region_hva r) + unat (region_size r) \<le> unat (region_hva s)
     \<or> unat (region_hva s) + unat (region_size s) \<le> unat (region_hva r)"

lemma and_page_mask_dvd: "x AND (4095 :: u64) = 0 \<longleftrightarrow> 4096 dvd unat x"
proof -
  have "x AND 4095 = 0 \<longleftrightarrow> unat (x AND mask 12) = 0"
    by (simp add: page_mask unat_eq_0)
  then show ?thesis by (simp add: and_mask_mod dvd_eq_mod_eq_0)
qed

lemma word_add_less: "a + b < (a :: u64) \<longleftrightarrow> \<not> unat a + unat b < 2 ^ 64"
proof -
  have "unat a < 2 ^ 64" "unat b < 2 ^ 64"
    using unsigned_less [of a] unsigned_less [of b] by simp_all
  then show ?thesis
    by (cases "unat a + unat b < 2 ^ 64")
      (auto simp: word_less_nat_alt unat_word_ariths not_less le_mod_geq)
qed

lemma word_in_range:
  assumes "unat a + unat n < 2 ^ 64"
  shows "a \<le> x \<and> a + n > x \<longleftrightarrow> unat x \<in> {unat a ..< unat a + unat (n :: u64)}"
proof -
  have "unat (a + n) = unat a + unat n"
    using assms by (simp add: unat_word_ariths)
  then show ?thesis by (auto simp: word_le_nat_alt word_less_nat_alt)
qed

lemma check_mem_region_loop_cases:
  "check_mem_region_loop rs = (if \<forall>r \<in> set rs. region_ok r then 0 else - EINVAL)"
  by (induction rs) (simp_all add: and_page_mask_dvd region_ok_def word_add_less)

lemma gpa_to_hva_loop_find:
  assumes "\<forall>r \<in> set rs. region_ok r"
  shows "gpa_to_hva_loop rs g =
    (case find (\<lambda>r. unat g \<in> gpa_range r) rs of
       None \<Rightarrow> ADDR_INVAL | Some r \<Rightarrow> region_hva r + (g - region_gpa r))"
  using assms
proof (induction rs)
  case (Cons r rs)
  then have "(region_gpa r \<le> g \<and> g < region_gpa r + region_size r) = (unat g \<in> gpa_range r)"
    by (simp add: word_in_range region_ok_def gpa_range_def)
  with Cons show ?case by (cases "unat g \<in> gpa_range r") auto
qed simp

lemma hva_to_gpa_loop_find:
  assumes "\<forall>r \<in> set rs. hva_ok r"
  shows "hva_to_gpa_loop rs h =
    (case find (\<lambda>r. unat h \<in> hva_range r) rs of
       None \<Rightarrow> ADDR_INVAL | Some r \<Rightarrow> region_gpa r + (h - region_hva r))"
  using assms
proof (induction rs)
  case (Cons r rs)
  then have "(region_hva r \<le> h \<and> h < region_hva r + region_size r) = (unat h \<in> hva_range r)"
    by (simp add: word_in_range hva_ok_def hva_range_def)
  with Cons show ?case by (cases "unat h \<in> hva_range r") auto
qed simp

lemma gpa_sep_find:
  "sorted_wrt gpa_sep rs \<Longrightarrow> r \<in> set rs \<Longrightarrow> x \<in> gpa_range r \<Longrightarrow> find (\<lambda>r. x \<in> gpa_range r) rs = Some r"
  by (induction rs) (auto simp: gpa_sep_def gpa_range_def)

lemma hva_sep_find:
  "sorted_wrt hva_sep rs \<Longrightarrow> r \<in> set rs \<Longrightarrow> x \<in> hva_range r \<Longrightarrow> find (\<lambda>r. x \<in> hva_range r) rs = Some r"
  by (induction rs) (auto simp: hva_sep_def hva_range_def)

lemma find_SomeD: "find P xs = Some x \<Longrightarrow> x \<in> set xs \<and> P x"
  by (auto simp: find_Some_iff)

text \<open>The offset into a region carries over to the other side without wrapping.\<close>

lemma unat_shift:
  assumes "unat a + unat n < 2 ^ 64" "unat x \<in> {unat b ..< unat b + unat n}"
  shows "unat (a + (x - b) :: u64) = unat a + (unat x - unat b)"
proof -
  have "b \<le> x" using assms by (simp add: word_le_nat_alt)
  then have "unat (x - b) = unat x - unat b" by (simp add: unat_sub)
  moreover have "unat a + (unat x - unat b) < 2 ^ 64" using assms by auto
  ultimately show ?thesis using unat_add_no_wrap [of a "x - b"] by simp
qed

lemma gpa_to_hva_region:
  assumes "\<forall>r \<in> set (regions i). region_ok r \<and> hva_ok r" "gpa_to_hva i g \<noteq> ADDR_INVAL"
  obtains r where "r \<in> set (regions i)" "unat g \<in> gpa_range r"
    "gpa_to_hva i g = region_hva r + (g - region_gpa r)"
    "unat (gpa_to_hva i g) = unat (region_hva r) + (unat g - unat (region_gpa r))"
    "unat (gpa_to_hva i g) \<in> hva_range r"
proof -
  have ok: "\<forall>r \<in> set (regions i). region_ok r" using assms by simp
  with assms(2) obtain r where r: "find (\<lambda>r. unat g \<in> gpa_range r) (regions i) = Some r"
    "gpa_to_hva i g = region_hva r + (g - region_gpa r)"
    by (auto simp: gpa_to_hva_def gpa_to_hva_loop_find split: option.splits)
  then have mem: "r \<in> set (regions i)" "unat g \<in> gpa_range r"
    by (auto dest: find_SomeD)
  with assms have "unat (region_hva r) + unat (region_size r) < 2 ^ 64"
    by (auto simp: hva_ok_def)
  from unat_shift [OF this] mem(2) have u: "unat (gpa_to_hva i g)
      = unat (region_hva r) + (unat g - unat (region_gpa r))"
    by (simp add: r gpa_range_def)
  then have "unat (gpa_to_hva i g) \<in> hva_range r"
    using mem(2) by (auto simp: gpa_range_def hva_range_def)
  with mem r u show thesis by (blast intro: that)
qed

lemma hva_to_gpa_region:
  assumes "\<forall>r \<in> set (regions i). region_ok r \<and> hva_ok r" "hva_to_gpa i h \<noteq> ADDR_INVAL"
  obtains r where "r \<in> set (regions i)" "unat h \<in> hva_range r"
    "hva_to_gpa i h = region_gpa r + (h - region_hva r)"
    "unat (hva_to_gpa i h) = unat (region_gpa r) + (unat h - unat (region_hva r))"
    "unat (hva_to_gpa i h) \<in> gpa_range r"
proof -
  have ok: "\<forall>r \<in> set (regions i). hva_ok r" using assms by simp
  with assms(2) obtain r where r: "find (\<lambda>r. unat h \<in> hva_range r) (regions i) = Some r"
    "hva_to_gpa i h = region_gpa r + (h - region_hva r)"
    by (auto simp: hva_to_gpa_def hva_to_gpa_loop_find split: option.splits)
  then have mem: "r \<in> set (regions i)" "unat h \<in> hva_range r"
    by (auto dest: find_SomeD)
  with assms have "unat (region_gpa r) + unat (region_size r) < 2 ^ 64"
    by (auto simp: region_ok_def)
  from unat_shift [OF this] mem(2) have u: "unat (hva_to_gpa i h)
      = unat (region_gpa r) + (unat h - unat (region_hva r))"
    by (simp add: r hva_range_def)
  then have "unat (hva_to_gpa i h) \<in> gpa_range r"
    using mem(2) by (auto simp: gpa_range_def hva_range_def)
  with mem r u show thesis by (blast intro: that)
qed

lemma gpa_hva_gpa:
  assumes "\<forall>r \<in> set (regions i). region_ok r \<and> hva_ok r"
    "sorted_wrt hva_sep (regions i)" "gpa_to_hva i g \<noteq> ADDR_INVAL"
  shows "hva_to_gpa i (gpa_to_hva i g) = g"
proof -
  obtain r where r: "r \<in> set (regions i)" "gpa_to_hva i g = region_hva r + (g - region_gpa r)"
    "unat (gpa_to_hva i g) \<in> hva_range r"
    using gpa_to_hva_region [OF assms(1,3)] by blast
  from hva_sep_find [OF assms(2) r(1,3)] assms(1)
  have "hva_to_gpa i (gpa_to_hva i g) = region_gpa r + (gpa_to_hva i g - region_hva r)"
    by (simp add: hva_to_gpa_def hva_to_gpa_loop_find)
  then show ?thesis by (simp add: r(2))
qed

lemma hva_gpa_hva:
  assumes "\<forall>r \<in> set (regions i). region_ok r \<and> hva_ok r"
    "sorted_wrt gpa_sep (regions i)" "hva_to_gpa i h \<noteq> ADDR_INVAL"
  shows "gpa_to_hva i (hva_to_gpa i h) = h"
proof -
  obtain r where r: "r \<in> set (regions i)" "hva_to_gpa i h = region_gpa r + (h - region_hva r)"
    "unat (hva_to_gpa i h) \<in> gpa_range r"
    using hva_to_gpa_region [OF assms(1,3)] by blast
  from gpa_sep_find [OF assms(2) r(1,3)] assms(1)
  have "gpa_to_hva i (hva_to_gpa i h) = region_hva r + (hva_to_gpa i h - region_gpa r)"
    by (simp add: gpa_to_hva_def gpa_to_hva_loop_find)
  then show ?thesis by (simp add: r(2))
qed

text \<open>Page aligned regions cannot tell an address from the start of its page.\<close>

lemma dvd_interval_page:
  assumes "(4096::nat) dvd a" "4096 dvd n"
  shows "x - x mod 4096 \<in> {a ..< a + n} \<longleftrightarrow> x \<in> {a ..< a + n}"
proof -
  obtain k where k: "a = 4096 * k" using assms by (auto elim: dvdE)
  have "4096 dvd a + n" using assms by simp
  then obtain l where l: "a + n = 4096 * l" by (rule dvdE)
  have x: "x - x mod 4096 = 4096 * (x div 4096)" by (simp add: minus_mod_eq_mult_div)
  have "4096 * k \<le> x \<longleftrightarrow> k \<le> x div 4096" "x < 4096 * l \<longleftrightarrow> x div 4096 < l"
    by (simp_all add: less_eq_div_iff_mult_less_eq div_less_iff_less_mult mult.commute)
  then show ?thesis by (simp only: atLeastLessThan_iff k [symmetric] l) (simp add: k x)
qed

lemma unat_page_start: "unat (x AND NOT 4095 :: u64) = unat x - unat x mod 4096"
  using and_not_mask_unat [of x 12] by (simp add: page_mask)

lemma unat_page_off: "unat (x AND 4095 :: u64) = unat x mod 4096"
  using and_mask_mod [of x 12] by (simp add: page_mask)

lemma page_start_minus: "x AND NOT m = x - (x AND m :: u64)"
  using and_plus_and_not [of x m] by (simp add: eq_diff_eq add.commute)

lemma mod_shift_eq:
  "(4096::nat) dvd a \<Longrightarrow> 4096 dvd b \<Longrightarrow> h + b = a + g \<Longrightarrow> h mod 4096 = g mod 4096"
  by (metis add.commute add.right_neutral dvd_imp_mod_0 mod_add_right_eq)

lemma gpa_range_page:
  "region_ok r \<Longrightarrow> unat (g AND NOT 4095 :: u64) \<in> gpa_range r \<longleftrightarrow> unat g \<in> gpa_range r"
  by (simp only: gpa_range_def unat_page_start region_ok_def dvd_interval_page)

lemma check_mem_region_ok:
  "mem_region_num i = num \<Longrightarrow> check_mem_region i num = 0 \<Longrightarrow> \<forall>r \<in> set (regions i). region_ok r"
  by (simp add: check_mem_region_def check_mem_region_loop_cases regions_def split: if_splits)

lemma hva_range_page:
  assumes "4096 dvd unat (region_hva r)" "4096 dvd unat (region_size r)"
  shows "unat (k AND NOT 4095 :: u64) \<in> hva_range r \<longleftrightarrow> unat k \<in> hva_range r"
  using assms by (simp only: hva_range_def unat_page_start dvd_interval_page)

text \<open>When the host sides are page aligned, the start of a host page translates to the start of the
  guest page.\<close>

lemma hva_to_gpa_page:
  assumes ok: "\<forall>r \<in> set (regions i). region_ok r \<and> hva_ok r \<and> 4096 dvd unat (region_hva r)"
    and k: "hva_to_gpa i k \<noteq> ADDR_INVAL"
  shows "hva_to_gpa i (k AND NOT 4095) = hva_to_gpa i k AND NOT 4095"
proof -
  have h: "\<forall>r \<in> set (regions i). hva_ok r" using ok by simp
  then obtain r where r: "find (\<lambda>r. unat k \<in> hva_range r) (regions i) = Some r"
    "hva_to_gpa i k = region_gpa r + (k - region_hva r)"
    using k by (auto simp: hva_to_gpa_def hva_to_gpa_loop_find split: option.splits)
  then have mem: "r \<in> set (regions i)" "unat k \<in> hva_range r" by (auto dest: find_SomeD)
  have d: "4096 dvd unat (region_hva r)" "4096 dvd unat (region_gpa r)"
    "unat (region_gpa r) + unat (region_size r) < 2 ^ 64"
    using mem ok by (auto simp: region_ok_def)
  from unat_shift [OF d(3)] mem(2) have "unat (hva_to_gpa i k) + unat (region_hva r) = unat (region_gpa r) + unat k"
    by (simp add: r hva_range_def)
  with d(2,1) have "unat (hva_to_gpa i k) mod 4096 = unat k mod 4096" by (rule mod_shift_eq)
  then have off: "hva_to_gpa i k AND 4095 = k AND 4095" by (simp only: word_unat_eq_iff unat_page_off)
  have "find (\<lambda>r. unat (k AND NOT 4095) \<in> hva_range r) (regions i) = Some r"
    by (subst r(1) [symmetric], rule find_cong [OF refl]) (use ok hva_range_page in \<open>auto simp: region_ok_def\<close>)
  then have "hva_to_gpa i (k AND NOT 4095) = region_gpa r + ((k AND NOT 4095) - region_hva r)"
    by (simp add: hva_to_gpa_def hva_to_gpa_loop_find h)
  also have "\<dots> = hva_to_gpa i k AND NOT 4095" by (simp only: page_start_minus off) (simp add: r(2))
  finally show ?thesis .
qed

section \<open>Properties\<close>

text \<open>C17. \<open>check_mem_region\<close> accepts exactly the region tables whose every entry is page sized, page
  aligned on the guest side and does not wrap around the guest physical address space; everything
  else is \<open>EINVAL\<close>.  There is no third outcome.\<close>

theorem check_mem_region_correct:
  "check_mem_region i num
     = (if list_all region_ok (take (nat num) (memp i)) then 0 else - EINVAL)"
  by (simp add: check_mem_region_def check_mem_region_loop_cases list_all_iff)

text \<open>C18. For a region table that \<open>check_mem_region\<close> accepts, whose host ranges do not wrap and whose
  ranges are disjoint on both sides, the two translations are inverse to each other:
  \<open>gpa_to_hva\<close> gives a host address \<open>h\<close> for \<open>g\<close> exactly when \<open>hva_to_gpa\<close> gives \<open>g\<close> for \<open>h\<close>.\<close>

theorem gpa_hva_inverse:
  assumes "mem_region_num i = num" "check_mem_region i num = 0"
    and "\<forall>r \<in> set (regions i). hva_ok r"
    and "sorted_wrt hva_sep (regions i)" "sorted_wrt gpa_sep (regions i)"
    and "g \<noteq> ADDR_INVAL" "h \<noteq> ADDR_INVAL"
  shows "gpa_to_hva i g = h \<longleftrightarrow> hva_to_gpa i h = g"
proof -
  have ok: "\<forall>r \<in> set (regions i). region_ok r \<and> hva_ok r"
    using check_mem_region_ok [OF assms(1,2)] assms(3) by simp
  show ?thesis
    using gpa_hva_gpa [OF ok assms(4)] hva_gpa_hva [OF ok assms(5)] assms(6,7) by metis
qed

theorem gpa_hva_inverse_witness:
  "gpa_to_hva mm_example 0x5123 = 0x7f0000001123 \<longleftrightarrow> hva_to_gpa mm_example 0x7f0000001123 = 0x5123"
  by (rule gpa_hva_inverse [where num = 2])
    (simp_all add: mm_example_def regions_def check_mem_region_def hva_ok_def gpa_sep_def hva_sep_def)

text \<open>Offsets inside a page survive the translation: when the host sides are page aligned too, a
  guest address translates to a host address with the same page offset, and the page of the
  result is the translation of the page.\<close>

lemma gpa_to_hva_page:
  assumes "mem_region_num i = num" "check_mem_region i num = 0"
    and hv: "\<forall>r \<in> set (regions i). hva_ok r \<and> 4096 dvd unat (region_hva r)"
    and g: "gpa_to_hva i g \<noteq> ADDR_INVAL"
  shows "gpa_to_hva i g AND 4095 = g AND 4095
    \<and> gpa_to_hva i (g AND NOT 4095) = gpa_to_hva i g AND NOT 4095"
proof -
  have ok: "\<forall>r \<in> set (regions i). region_ok r" by (rule check_mem_region_ok [OF assms(1,2)])
  then obtain r where r: "find (\<lambda>r. unat g \<in> gpa_range r) (regions i) = Some r"
    "gpa_to_hva i g = region_hva r + (g - region_gpa r)"
    using g by (auto simp: gpa_to_hva_def gpa_to_hva_loop_find split: option.splits)
  then have mem: "r \<in> set (regions i)" "unat g \<in> gpa_range r" by (auto dest: find_SomeD)
  have d: "4096 dvd unat (region_hva r)" "4096 dvd unat (region_gpa r)"
    "unat (region_hva r) + unat (region_size r) < 2 ^ 64"
    using mem ok hv by (auto simp: region_ok_def hva_ok_def)
  from unat_shift [OF d(3)] mem(2) have "unat (gpa_to_hva i g) + unat (region_gpa r)
      = unat (region_hva r) + unat g"
    by (simp add: r gpa_range_def)
  with d(1,2) have "unat (gpa_to_hva i g) mod 4096 = unat g mod 4096"
    by (rule mod_shift_eq)
  then have off: "gpa_to_hva i g AND 4095 = g AND 4095"
    by (simp only: word_unat_eq_iff unat_page_off)
  have "find (\<lambda>r. unat (g AND NOT 4095) \<in> gpa_range r) (regions i) = Some r"
    by (subst r(1) [symmetric], rule find_cong [OF refl]) (use ok gpa_range_page in blast)
  then have "gpa_to_hva i (g AND NOT 4095) = region_hva r + ((g AND NOT 4095) - region_gpa r)"
    by (simp add: gpa_to_hva_def gpa_to_hva_loop_find ok)
  also have "\<dots> = gpa_to_hva i g AND NOT 4095"
    by (simp only: page_start_minus off) (simp add: r(2))
  finally show ?thesis using off by blast
qed

end
