(* ===== verification/Slim_Core.thy ===== *)
theory Slim_Core
  imports Slim_Proc Slim_Mm
begin

text \<open>
  \<^verbatim>\<open>core.c\<close>: the character device.  Opening the device creates an instance, closing it releases the
  instance, and the five ioctls create, release, run and interrupt vcpus.  The copies from and to
  user memory are arguments: \<open>None\<close> is a faulting copy.  Following a freed instance pointer,
  indexing a vcpu slot out of range and copying past the end of the region array are the outcome
  \<open>Bad_access\<close> of an ioctl.  \<open>world_ok\<close> is the invariant of the whole engine independent state.
\<close>

section \<open>Definitions\<close>

text \<open>The calling task: its address space, process id, and the task a process id names.\<close>

record task_ctx =
  cur_mm :: kptr
  cur_tgid :: int
  pid_task :: "int \<Rightarrow> kptr option"

definition slimvm_enter :: "('v, 'g) slimvm_engine_ops \<Rightarrow> slimvm_config \<Rightarrow> 'v vm_instance \<Rightarrow> 'g
    \<Rightarrow> ('v, 'g) run_result option" where
  "slimvm_enter ops conf instp g =
     (let vcpu_no = c_int (conf_vcpu conf) in
      if vcpu_no < 0 \<or> int VM_MAX_VCPUS \<le> vcpu_no then Some (Run_return (- 1) conf instp g)
      else if inst_shutdown instp then Some (Run_return (- 1) conf instp g)
      else case vcpus instp (nat vcpu_no) of
        None \<Rightarrow> Some (Run_return (- 1) conf instp g)
      | Some vcpu \<Rightarrow>
          if vcpu_is_shutdown ops vcpu then Some (Run_return (- 1) conf instp g)
          else launch ops (nat vcpu_no) conf
                 (instp\<lparr>vcpus := (vcpus instp)(nat vcpu_no := Some (set_vcpu_mode ops vcpu IN_ROOT_MODE))\<rparr>) g)"

text \<open>
  The ioctl requests with what the copies from user memory deliver.  For \<open>SLIMVM_RUN\<close> the copy of
  the region array reports whether it was complete and what it wrote, and the last component
  says whether the copy back to user memory succeeds.  For \<open>SLIMVM_SET_TSS_ADDR\<close> the second
  component is the kernel's \<^verbatim>\<open>vm_mmap\<close>.
\<close>

datatype ioctl_req =
    SLIMVM_CREATE_VCPU "slimvm_config option"
  | SLIMVM_RELEASE_VCPU "int option"
  | SLIMVM_RUN "slimvm_config option" "bool \<times> mem_region list" bool
  | SLIMVM_SET_TSS_ADDR u64 "u32 \<Rightarrow> u64"
  | SLIMVM_NMI "int option"
  | SLIMVM_OTHER

text \<open>
  How an ioctl ends: it returns a value and, for \<open>SLIMVM_RUN\<close>, the configuration copied back; the
  thread ends inside it; or it never comes back.
\<close>

datatype 's ioctl_result = Bad_access | No_return | Thread_exit 's | Ret int "slimvm_config option" 's

text \<open>The part of \<open>SLIMVM_RUN\<close> under \<^verbatim>\<open>mm_mutex\<close>: the first run installs the memory regions.\<close>

definition run_setup :: "('v, 'g) slimvm_engine_ops \<Rightarrow> kptr \<Rightarrow> slimvm_config \<Rightarrow> bool \<times> mem_region list
    \<Rightarrow> 'v vm_instance \<Rightarrow> 'g \<Rightarrow> (int \<times> 'v vm_instance \<times> 'g) option" where
  "run_setup ops mm conf cp instp g =
     (if mem_region_num instp \<noteq> 0 then Some (0, instp, g)
      else if conf_mem_region_num conf > of_nat MAX_MEM_REGION_NUM then Some (- EINVAL, instp, g)
      else
        (let n = unat (conf_mem_region_num conf); data = take n (snd cp) in
         if length (memp instp) < n then None
         else
           (let instp1 = instp\<lparr>memp := data @ drop (length data) (memp instp)\<rparr> in
            if \<not> fst cp then Some (- EIO, instp1, g)
            else
              (let r = check_mem_region instp1 (int n) in
               if r \<noteq> 0 then Some (r, instp1, g)
               else
                 (let instp2 = instp1\<lparr>mem_region_num := int n, inst_sid := conf_sid conf\<rparr>;
                      (r', instp3, g') = instance_init_pt ops mm instp2 g
                  in Some (r', instp3, g'))))))"

definition run_ioctl :: "('v, 'g) slimvm_engine_ops \<Rightarrow> kptr \<Rightarrow> slimvm_config \<Rightarrow> bool \<times> mem_region list
    \<Rightarrow> bool \<Rightarrow> 'v vm_instance \<Rightarrow> 'g \<Rightarrow> ('v vm_instance \<times> 'g) ioctl_result" where
  "run_ioctl ops mm conf cp out_ok instp g =
     (case run_setup ops mm conf cp instp g of
        None \<Rightarrow> Bad_access
      | Some (r, i1, g1) \<Rightarrow>
          if r \<noteq> 0 then Ret r None (i1, g1)
          else
            (let i2 = i1\<lparr>running_vcpus := running_vcpus i1 + 1\<rparr> in
             case slimvm_enter ops conf i2 g1 of
               None \<Rightarrow> No_return
             | Some (Run_exit i3 g3) \<Rightarrow> Thread_exit (i3, g3)
             | Some (Run_return r' conf' i3 g3) \<Rightarrow>
                 (let i4 = i3\<lparr>running_vcpus := running_vcpus i3 - 1\<rparr>
                  in if r' \<noteq> 0 then Ret r' None (i4, g3)
                     else if \<not> out_ok then Ret (- EIO) None (i4, g3)
                     else Ret 0 (Some conf') (i4, g3))))"

definition slimvm_dev_ioctl :: "('v, 'g) slimvm_engine_ops \<Rightarrow> task_ctx \<Rightarrow> kptr \<Rightarrow> ioctl_req
    \<Rightarrow> ('v, 'g) slim_world \<Rightarrow> ('v, 'g) slim_world ioctl_result" where
  "slimvm_dev_ioctl ops ctx filp req w =
     (case req of SLIMVM_OTHER \<Rightarrow> Ret (- ENOTTY) None w | _ \<Rightarrow>
      (case private_data w filp of
         None \<Rightarrow> Ret (- EINVAL) None w
       | Some p \<Rightarrow>
      (case inst_heap w p of
         None \<Rightarrow> Bad_access
       | Some instp \<Rightarrow>
      (case req of
         SLIMVM_CREATE_VCPU None \<Rightarrow> Ret (- EIO) None w
       | SLIMVM_CREATE_VCPU (Some conf) \<Rightarrow>
           (let (vcpu_no, i1, g1, cnt) = vcpu_alloc ops (cur_mm ctx) conf instp (engine_state w) (w_mm_count w);
                w1 = w\<lparr>engine_state := g1, w_mm_count := cnt\<rparr>
            in if vcpu_no < 0 then Ret (- ENOMEM) None (set_inst p (Some i1) w1)
               else Ret vcpu_no None
                 (set_inst p (Some (slimvm_record_sandbox (cur_tgid ctx) (pid_task ctx) i1)) w1))
       | SLIMVM_RELEASE_VCPU None \<Rightarrow> Ret (- EIO) None w
       | SLIMVM_RELEASE_VCPU (Some vcpu_no) \<Rightarrow>
           if vcpu_no < 0 \<or> int VM_MAX_VCPUS \<le> vcpu_no then Ret (- EINVAL) None w
           else (case vcpu_release ops instp vcpu_no (engine_state w) of
                   None \<Rightarrow> Bad_access
                 | Some (i1, g1) \<Rightarrow> Ret 0 None (set_inst p (Some i1) (w\<lparr>engine_state := g1\<rparr>)))
       | SLIMVM_RUN None _ _ \<Rightarrow> Ret (- EIO) None w
       | SLIMVM_RUN (Some conf) cp out_ok \<Rightarrow>
           (case run_ioctl ops (cur_mm ctx) conf cp out_ok instp (engine_state w) of
              Bad_access \<Rightarrow> Bad_access
            | No_return \<Rightarrow> No_return
            | Thread_exit (i1, g1) \<Rightarrow> Thread_exit (set_inst p (Some i1) (w\<lparr>engine_state := g1\<rparr>))
            | Ret r out (i1, g1) \<Rightarrow> Ret r out (set_inst p (Some i1) (w\<lparr>engine_state := g1\<rparr>)))
       | SLIMVM_SET_TSS_ADDR arg vm_mmap \<Rightarrow>
           (let r = slimvm_set_tss_addr vm_mmap arg (3 * 4096) in Ret 0 None w)
       | SLIMVM_NMI None \<Rightarrow> Ret (- EIO) None w
       | SLIMVM_NMI (Some vcpu_no) \<Rightarrow>
           if vcpu_no < 0 \<or> int VM_MAX_VCPUS \<le> vcpu_no then Ret (- EINVAL) None w
           else (case vcpu_inject_nmi ops instp vcpu_no of
                   None \<Rightarrow> Bad_access
                 | Some i1 \<Rightarrow> Ret 0 None (set_inst p (Some i1) w))
       | SLIMVM_OTHER \<Rightarrow> Ret (- ENOTTY) None w))))"

definition slimvm_dev_open :: "('v, 'g) slimvm_engine_ops \<Rightarrow> kptr \<Rightarrow> kptr option \<Rightarrow> bool
    \<Rightarrow> ('v, 'g) slim_world \<Rightarrow> int \<times> ('v, 'g) slim_world" where
  "slimvm_dev_open ops filp vz kz w =
     (case instance_create ops vz kz w of
        (None, w1) \<Rightarrow> (- ENOMEM, w1\<lparr>private_data := (private_data w1)(filp := None)\<rparr>)
      | (Some p, w1) \<Rightarrow>
          (0, w1\<lparr>private_data := (private_data w1)(filp := Some p),
                 inst_heap := (inst_heap w1)
                   (p := map_option (\<lambda>i. i\<lparr>inst_filp := Some filp\<rparr>) (inst_heap w1 p))\<rparr>))"

text \<open>After \<open>slimvm_dev_release\<close> the kernel frees the file; its \<open>private_data\<close> is gone with it.\<close>

definition slimvm_dev_release :: "('v, 'g) slimvm_engine_ops \<Rightarrow> kptr \<Rightarrow> ('v, 'g) slim_world
    \<Rightarrow> (int \<times> ('v, 'g) slim_world) option" where
  "slimvm_dev_release ops filp w =
     (case private_data w filp of
        None \<Rightarrow> Some (0, w)
      | Some p \<Rightarrow>
          (case instance_release ops p w of
             None \<Rightarrow> None
           | Some (r, w1) \<Rightarrow> Some (0, w1\<lparr>private_data := (private_data w1)(filp := None)\<rparr>)))"

section \<open>Loading and unloading the module\<close>

text \<open>
  The two engines have different vcpu types, so the bound operations table is the name of the
  engine.  What the kernel and the hardware answer is an argument: \<open>kprobe\<close> is the result of
  \<^verbatim>\<open>register_kprobe\<close> with the address found, \<open>enable e\<close> the result of \<^verbatim>\<open>hardware_enable_all\<close> of
  engine \<open>e\<close>, \<open>misc\<close> the result of \<^verbatim>\<open>misc_register\<close>.
\<close>

datatype x86_vendor = X86_VENDOR_INTEL | X86_VENDOR_AMD | X86_VENDOR_HYGON | X86_VENDOR_OTHER

datatype engine_id = VMX | SVM

record module_state =
  kln_hack :: u64
  slimvm_ops :: "engine_id option"
  hw_enabled :: "engine_id option"
  misc_registered :: bool
  m_proc :: proc_state

definition m_init :: "int \<times> u64 \<Rightarrow> module_state \<Rightarrow> int \<times> module_state" where
  "m_init kprobe m = (if fst kprobe < 0 then (fst kprobe, m) else (0, m\<lparr>kln_hack := snd kprobe\<rparr>))"

text \<open>\<open>have_svm\<close> is the build option \<^verbatim>\<open>SLIMVM_HAVE_SVM\<close>; an engine that fails to enable is off.\<close>

definition slimvm_engine_init :: "bool \<Rightarrow> x86_vendor \<Rightarrow> (engine_id \<Rightarrow> int) \<Rightarrow> module_state
    \<Rightarrow> int \<times> module_state" where
  "slimvm_engine_init have_svm vendor enable m =
     (let bind = (\<lambda>e. let m1 = m\<lparr>slimvm_ops := Some e\<rparr>; r = enable e
                      in (r, if r = 0 then m1\<lparr>hw_enabled := Some e\<rparr> else m1))
      in case vendor of
           X86_VENDOR_INTEL \<Rightarrow> bind VMX
         | X86_VENDOR_AMD \<Rightarrow> if have_svm then bind SVM else (- EIO, m)
         | X86_VENDOR_HYGON \<Rightarrow> if have_svm then bind SVM else (- EIO, m)
         | X86_VENDOR_OTHER \<Rightarrow> (- EIO, m))"

definition slimvm_engine_exit :: "module_state \<Rightarrow> module_state" where
  "slimvm_engine_exit m = (if slimvm_ops m \<noteq> None then m\<lparr>hw_enabled := None\<rparr> else m)"

definition slimvm_init :: "int \<times> u64 \<Rightarrow> bool \<times> bool \<times> bool \<Rightarrow> bool \<Rightarrow> x86_vendor \<Rightarrow> (engine_id \<Rightarrow> int)
    \<Rightarrow> int \<Rightarrow> module_state \<Rightarrow> int \<times> module_state" where
  "slimvm_init kprobe sysctl have_svm vendor enable misc m =
     (let m1 = snd (m_init kprobe m);
          (reg, dir, fil) = sysctl;
          (ok, ps) = slimvm_sysctl_init reg dir fil (m_proc m1);
          m2 = m1\<lparr>m_proc := ps\<rparr>
      in if \<not> ok then (- 1, m2)
         else
           (let (r, m3) = slimvm_engine_init have_svm vendor enable m2 in
            if r \<noteq> 0 then (r, m3\<lparr>m_proc := slimvm_sysctl_exit (m_proc m3)\<rparr>)
            else if misc \<noteq> 0 then
              (let m4 = slimvm_engine_exit m3
               in (misc, m4\<lparr>m_proc := slimvm_sysctl_exit (m_proc m4)\<rparr>))
            else (misc, m3\<lparr>misc_registered := True\<rparr>)))"

definition slimvm_exit :: "module_state \<Rightarrow> module_state" where
  "slimvm_exit m =
     slimvm_engine_exit (m\<lparr>m_proc := slimvm_sysctl_exit (m_proc m), misc_registered := False\<rparr>)"

text \<open>Nothing of the module is visible to the system.\<close>

definition unloaded :: "module_state \<Rightarrow> bool" where
  "unloaded m \<longleftrightarrow> hw_enabled m = None \<and> \<not> misc_registered m \<and> \<not> slimvm_sysctl_header (m_proc m)
     \<and> \<not> slimvm_proc_dir (m_proc m) \<and> \<not> vm_mem_stat (m_proc m)"

lemma engine_init_result:
  assumes "slimvm_engine_init have_svm vendor enable m = (r, m')"
  shows "m_proc m' = m_proc m \<and> misc_registered m' = misc_registered m
    \<and> (if r = 0 then hw_enabled m' = Some (if vendor = X86_VENDOR_INTEL then VMX else SVM) \<and> slimvm_ops m' \<noteq> None
          \<and> (vendor = X86_VENDOR_INTEL \<or> have_svm \<and> vendor \<in> {X86_VENDOR_AMD, X86_VENDOR_HYGON})
       else hw_enabled m' = hw_enabled m)"
  using assms by (cases vendor) (auto simp: slimvm_engine_init_def Let_def split: if_splits)

lemma sysctl_exit_clears:
  "\<not> slimvm_sysctl_header (slimvm_sysctl_exit ps)" "\<not> slimvm_proc_dir (slimvm_sysctl_exit ps)"
  "\<not> vm_mem_stat (slimvm_sysctl_exit ps)"
  by (simp_all add: slimvm_sysctl_exit_def Let_def)

section \<open>The invariant of the engine independent state\<close>

text \<open>The region array keeps its size, and the installed part has passed \<open>check_mem_region\<close>.\<close>

definition inst_mem_ok :: "'v vm_instance \<Rightarrow> bool" where
  "inst_mem_ok i \<longleftrightarrow> length (memp i) = MAX_MEM_REGION_NUM
     \<and> 0 \<le> mem_region_num i \<and> mem_region_num i \<le> int MAX_MEM_REGION_NUM
     \<and> list_all region_ok (regions i)"

text \<open>Every open file has an instance of its own, and every instance belongs to an open file.\<close>

definition files_ok :: "('v, 'g) slim_world \<Rightarrow> bool" where
  "files_ok w \<longleftrightarrow> (\<forall>f p. private_data w f = Some p \<longleftrightarrow> (\<exists>i. inst_heap w p = Some i \<and> inst_filp i = Some f))
     \<and> (\<forall>p i. inst_heap w p = Some i \<longrightarrow> inst_filp i \<noteq> None)"

definition world_ok :: "(kptr \<Rightarrow> int) \<Rightarrow> ('v, 'g) slim_world \<Rightarrow> bool" where
  "world_ok base w \<longleftrightarrow> registry_ok base w \<and> files_ok w
     \<and> (\<forall>p i. inst_heap w p = Some i \<longrightarrow> inst_mem_ok i)"

lemma inst_mem_ok_core: "inst_core i' = inst_core i \<Longrightarrow> inst_mem_ok i' = inst_mem_ok i"
  by (simp add: inst_core_def inst_mem_ok_def regions_def)

lemma inst_filp_core: "inst_core i' = inst_core i \<Longrightarrow> inst_filp i' = inst_filp i"
  by (simp add: inst_core_def)

lemma vcpus_ok_filp [simp]: "vcpus_ok (i\<lparr>inst_filp := f\<rparr>) = vcpus_ok i"
  by (simp add: vcpus_ok_def)

lemma inst_mem_ok_fresh: "inst_mem_ok (instance_fresh n)"
  by (simp add: inst_mem_ok_def instance_fresh_def instance_zero_def regions_def)

text \<open>Replacing the instance at \<open>p\<close> by one with the same registry key and file.\<close>

lemma world_ok_set:
  assumes ok: "world_ok base w" and p: "inst_heap w p = Some i"
    and "inst_key i' = inst_key i" "inst_filp i' = inst_filp i" "vcpus_ok i'" "inst_mem_ok i'"
  shows "world_ok base (set_inst p (Some i') (w\<lparr>engine_state := g\<rparr>))"
proof -
  have "registry_ok base (set_inst p (Some i') (w\<lparr>engine_state := g\<rparr>))"
    by (rule registry_ok_set [where i = i]) (use assms in \<open>auto simp: world_ok_def\<close>)
  moreover have "files_ok (set_inst p (Some i') (w\<lparr>engine_state := g\<rparr>))"
    using ok p assms(4) unfolding world_ok_def files_ok_def by auto
  ultimately show ?thesis using assms by (auto simp: world_ok_def)
qed

text \<open>Creating a vcpu may pin the caller's address space.\<close>

lemma registry_ok_alloc:
  assumes ok: "registry_ok base w" and p: "inst_heap w p = Some i"
    and a: "vcpu_alloc ops m conf i g (w_mm_count w) = (r, i1, g1, cnt)"
  shows "registry_ok base (set_inst p (Some i1) (w\<lparr>engine_state := g1, w_mm_count := cnt\<rparr>))"
proof -
  have v: "vcpus_ok i1" using vcpus_ok_alloc [OF registry_okD [OF ok p] a] .
  have k: "inst_keys (inst_heap w) p = Some (inst_id i, inst_mm i)"
    using p by (simp add: inst_keys_def inst_key_def)
  have same: "(inst_keys (inst_heap w))(p \<mapsto> (inst_id i, inst_mm i)) = inst_keys (inst_heap w)"
    using k by (simp add: fun_upd_idem)
  have "keys_ok base ((inst_keys (inst_heap w))(p \<mapsto> inst_key i1)) (instances_list w)
      (instances_bitmap w) (preempt_users w) cnt"
  proof (cases "inst_mm i")
    case None
    then show ?thesis
      using a ok same keys_pin [of base "inst_keys (inst_heap w)" _ _ _ _ p "inst_id i" m] k
      by (elim vcpu_alloc_cases) (auto simp: registry_ok_def inst_key_def)
  next
    case (Some m')
    then show ?thesis
      using a ok same by (elim vcpu_alloc_cases) (auto simp: registry_ok_def inst_key_def)
  qed
  with ok v show ?thesis by (auto simp: registry_ok_def)
qed

lemma vcpu_alloc_frame:
  assumes "vcpu_alloc ops m conf i g c = (r, i1, g1, cnt)"
  shows "inst_filp i1 = inst_filp i \<and> inst_mem_ok i1 = inst_mem_ok i"
  using assms by (elim vcpu_alloc_cases) (simp_all add: inst_mem_ok_def regions_def)

lemma record_sandbox_frame:
  "inst_key (slimvm_record_sandbox t pt i) = inst_key i"
  "inst_filp (slimvm_record_sandbox t pt i) = inst_filp i"
  "vcpus_ok (slimvm_record_sandbox t pt i) = vcpus_ok i"
  "inst_mem_ok (slimvm_record_sandbox t pt i) = inst_mem_ok i"
  by (simp_all add: slimvm_record_sandbox_def inst_key_def vcpus_ok_def inst_mem_ok_def regions_def)

lemma world_ok_alloc:
  assumes ok: "world_ok base w" and p: "inst_heap w p = Some i"
    and a: "vcpu_alloc ops m conf i g (w_mm_count w) = (r, i1, g1, cnt)"
  shows "world_ok base (set_inst p (Some i1) (w\<lparr>engine_state := g1, w_mm_count := cnt\<rparr>))"
  using ok p registry_ok_alloc [OF _ p a] vcpu_alloc_frame [OF a]
  unfolding world_ok_def files_ok_def by auto

lemma world_ok_at:
  assumes "world_ok base w" "inst_heap w p = Some i"
  shows "vcpus_ok i" "inst_mem_ok i"
  using assms by (auto simp: world_ok_def dest: registry_okD)

text \<open>What the first run installs, on every path.\<close>

lemma run_setup_cases:
  assumes "inst_mem_ok i"
  obtains (installed) "run_setup ops m conf cp i g = Some (0, i, g)" "mem_region_num i \<noteq> 0"
  | (refused) r ms where "run_setup ops m conf cp i g = Some (r, i\<lparr>memp := ms\<rparr>, g)" "r \<noteq> 0"
      "mem_region_num i = 0" "inst_mem_ok (i\<lparr>memp := ms\<rparr>)"
  | (init) n ms r i' g' where "mem_region_num i = 0"
      "inst_mem_ok (i\<lparr>memp := ms, mem_region_num := n, inst_sid := conf_sid conf\<rparr>)"
      "instance_init_pt ops m (i\<lparr>memp := ms, mem_region_num := n, inst_sid := conf_sid conf\<rparr>) g = (r, i', g')"
      "run_setup ops m conf cp i g = Some (r, i', g')"
proof -
  define n where "n = unat (conf_mem_region_num conf)"
  define ms where "ms = take n (snd cp) @ drop (length (take n (snd cp))) (memp i)"
  show ?thesis
  proof (cases "mem_region_num i = 0 \<and> conf_mem_region_num conf \<le> of_nat MAX_MEM_REGION_NUM")
    case False
    then show ?thesis
      using assms installed refused [of "- EINVAL" "memp i"] by (auto simp: run_setup_def not_le)
  next
    case True
    then have n: "n \<le> MAX_MEM_REGION_NUM" by (simp add: n_def word_le_nat_alt)
    then have len: "length ms = MAX_MEM_REGION_NUM"
      using assms by (auto simp: ms_def inst_mem_ok_def)
    have fit: "(conf_mem_region_num conf > of_nat MAX_MEM_REGION_NUM) = False"
      "(length (memp i) < n) = False"
      using True n assms by (simp_all add: inst_mem_ok_def not_less)
    let ?c = "check_mem_region (i\<lparr>memp := ms\<rparr>) (int n)"
    have eq: "run_setup ops m conf cp i g =
      (if \<not> fst cp then Some (- EIO, i\<lparr>memp := ms\<rparr>, g)
       else if ?c \<noteq> 0 then Some (?c, i\<lparr>memp := ms\<rparr>, g)
       else (case instance_init_pt ops m (i\<lparr>memp := ms, mem_region_num := int n, inst_sid := conf_sid conf\<rparr>) g of
         (r', i3, g') \<Rightarrow> Some (r', i3, g')))"
      using True fit unfolding run_setup_def Let_def n_def [symmetric] ms_def [symmetric]
      by (simp only: if_False simp_thms not_False_eq_True)
    have "inst_mem_ok (i\<lparr>memp := ms\<rparr>)"
      using True len by (simp add: inst_mem_ok_def regions_def)
    moreover have "?c = 0 \<Longrightarrow>
        inst_mem_ok (i\<lparr>memp := ms, mem_region_num := int n, inst_sid := conf_sid conf\<rparr>)"
      using n len by (simp add: inst_mem_ok_def regions_def check_mem_region_def
          check_mem_region_loop_cases list_all_iff split: if_splits)
    ultimately show ?thesis
      using True eq refused [of "- EIO" ms] refused [of ?c ms] init [of "int n" ms]
      by (cases "instance_init_pt ops m (i\<lparr>memp := ms, mem_region_num := int n, inst_sid := conf_sid conf\<rparr>) g")
        (auto split: if_splits)
  qed
qed

lemma inst_core_running:
  "inst_core (i\<lparr>running_vcpus := k\<rparr>) = inst_core j \<Longrightarrow> inst_core i = inst_core (j\<lparr>running_vcpus := running_vcpus i\<rparr>)"
  by (simp add: inst_core_def inst_key_def)

text \<open>The part of an instance that a run may not touch: everything but the regions it installs.\<close>

definition inst_frame :: "'v vm_instance \<Rightarrow> 'v vm_instance \<Rightarrow> bool" where
  "inst_frame i' i \<longleftrightarrow> inst_key i' = inst_key i \<and> inst_filp i' = inst_filp i
     \<and> running_vcpus i' = running_vcpus i \<and> vcpus_ok i' = vcpus_ok i"

lemma inst_frame_core: "inst_core i' = inst_core i \<Longrightarrow> inst_frame i' i"
  using inst_core_vcpus_ok [of i' i] by (simp add: inst_frame_def inst_core_def)

lemma inst_frame_trans: "inst_frame i2 i1 \<Longrightarrow> inst_frame i1 i \<Longrightarrow> inst_frame i2 i"
  by (simp add: inst_frame_def)

text \<open>The part of an instance that stays when the thread ends in a run.\<close>

definition gone_frame :: "'v vm_instance \<Rightarrow> 'v vm_instance \<Rightarrow> bool" where
  "gone_frame i' i \<longleftrightarrow> inst_key i' = inst_key i \<and> inst_filp i' = inst_filp i \<and> (vcpus_ok i \<longrightarrow> vcpus_ok i')"

text \<open>An ioctl ends well: no access outside the module's memory, and the invariant is kept; only a run may end the
  thread or not come back.\<close>

definition ioctl_good :: "(kptr \<Rightarrow> int) \<Rightarrow> ioctl_req \<Rightarrow> ('v, 'g) slim_world ioctl_result \<Rightarrow> bool" where
  "ioctl_good base req res =
     (case res of
        Bad_access \<Rightarrow> False
      | No_return \<Rightarrow> (\<exists>c cp out. req = SLIMVM_RUN c cp out)
      | Thread_exit w \<Rightarrow> world_ok base w \<and> (\<exists>c cp out. req = SLIMVM_RUN c cp out)
      | Ret r out w \<Rightarrow> world_ok base w)"

context engine_contract
begin

lemma enter_core:
  assumes "slimvm_enter ops conf i g = Some res"
  shows "case res of Run_return r conf' i' g' \<Rightarrow> inst_core i' = inst_core i
    | Run_exit i' g' \<Rightarrow> \<exists>j k h. inst_core j = inst_core i \<and> vcpu_release ops j k h = Some (i', g')"
proof -
  define n where "n = nat (c_int (conf_vcpu conf))"
  show ?thesis
  proof (cases "res = Run_return (- 1) conf i g")
    case False
    let ?i = "\<lambda>v. i\<lparr>vcpus := (vcpus i)(n := Some (set_vcpu_mode ops v IN_ROOT_MODE))\<rparr>"
    obtain v where v: "vcpus i n = Some v" "launch ops n conf (?i v) g = Some res"
      using assms False by (auto simp: slimvm_enter_def Let_def n_def split: if_splits option.splits)
    have "inst_core (?i v) = inst_core i"
      using v(1) by (auto simp: inst_core_def inst_key_def)
    then show ?thesis using launch_core [of n conf "?i v" g] launch_exit [of n conf "?i v" g] v(2) by (cases res) auto
  qed simp
qed

text \<open>What a released vcpu leaves of the instance.\<close>

lemma release_frame:
  assumes "vcpu_release ops j k h = Some (i', g')"
  shows "inst_key i' = inst_key j" "inst_filp i' = inst_filp j" "inst_mem_ok i' = inst_mem_ok j"
  using assms by (auto simp: vcpu_release_def inst_key_def inst_mem_ok_def regions_def split: if_splits option.splits)

lemma run_setup_frame:
  assumes "inst_mem_ok i"
  shows "\<exists>r i' g'. run_setup ops m conf cp i g = Some (r, i', g') \<and> inst_frame i' i \<and> inst_mem_ok i'"
proof (cases rule: run_setup_cases [OF assms, where ops = ops and m = m and conf = conf and cp = cp and g = g])
  case 1
  then show ?thesis using assms by (auto simp: inst_frame_def)
next
  case (2 r ms)
  then show ?thesis by (auto simp: inst_frame_def inst_key_def vcpus_ok_def)
next
  case (3 n ms r i' g')
  note c = init_pt_core [OF 3(3)]
  have "inst_mem_ok i'" using inst_mem_ok_core [OF c] 3(2) by simp
  moreover have "inst_frame i' i"
    using inst_frame_core [OF c] by (simp add: inst_frame_def inst_key_def vcpus_ok_def)
  ultimately show ?thesis using 3(4) by blast
qed

lemma run_ioctl_frame:
  assumes "inst_mem_ok i"
  shows "case run_ioctl ops m conf cp ok i g of
      Bad_access \<Rightarrow> False
    | No_return \<Rightarrow> True
    | Thread_exit (i', g') \<Rightarrow> gone_frame i' i \<and> inst_mem_ok i'
    | Ret r out (i', g') \<Rightarrow> inst_frame i' i \<and> inst_mem_ok i'"
proof -
  obtain r i1 g1 where s: "run_setup ops m conf cp i g = Some (r, i1, g1)" "inst_frame i1 i" "inst_mem_ok i1"
    using run_setup_frame [OF assms] by blast
  let ?i2 = "i1\<lparr>running_vcpus := running_vcpus i1 + 1\<rparr>"
  have i2: "inst_key ?i2 = inst_key i1" "inst_filp ?i2 = inst_filp i1" "vcpus_ok ?i2 = vcpus_ok i1" "inst_mem_ok ?i2 = inst_mem_ok i1"
    by (simp_all add: inst_key_def vcpus_ok_def inst_mem_ok_def regions_def)
  show ?thesis
  proof (cases "r = 0")
    case False
    then show ?thesis using s by (simp add: run_ioctl_def)
  next
    case True
    show ?thesis
    proof (cases "slimvm_enter ops conf ?i2 g1")
      case None
      then show ?thesis using s True by (simp add: run_ioctl_def)
    next
      case (Some res)
      note c = enter_core [OF Some]
      show ?thesis
      proof (cases res)
        case (Run_return r' c' i3 g3)
        then have c: "inst_core i3 = inst_core ?i2" using c by simp
        have "inst_frame (i3\<lparr>running_vcpus := running_vcpus i3 - 1\<rparr>) i1"
          using c inst_core_vcpus_ok [OF c] by (simp add: inst_frame_def inst_core_def inst_key_def vcpus_ok_def)
        moreover have "inst_mem_ok (i3\<lparr>running_vcpus := running_vcpus i3 - 1\<rparr>)"
          using inst_mem_ok_core [OF c] s(3) by (simp add: inst_mem_ok_def regions_def)
        ultimately show ?thesis
          using s True Some Run_return by (auto simp: run_ioctl_def Let_def intro: inst_frame_trans)
      next
        case (Run_exit i3 g3)
        then obtain j k h where j: "inst_core j = inst_core ?i2" "vcpu_release ops j k h = Some (i3, g3)" using c by auto
        have "vcpus_ok i1 \<Longrightarrow> vcpus_ok i3"
          using inst_core_vcpus_ok [OF j(1)] vcpus_ok_release [OF _ j(2)] i2(3) by simp
        then have "gone_frame i3 i" "inst_mem_ok i3"
          using release_frame [OF j(2)] inst_core_key [OF j(1)] inst_filp_core [OF j(1)] inst_mem_ok_core [OF j(1)] i2 s(2,3)
          by (simp_all add: gone_frame_def inst_frame_def)
        then show ?thesis using s True Some Run_exit by (simp add: run_ioctl_def Let_def)
      qed
    qed
  qed
qed

text \<open>Every ioctl ends well, on every request and every outcome of the user copies.\<close>

lemma create_vcpu_ioctl_ok:
  assumes ok: "world_ok base w" and i: "inst_heap w p = Some i" and f: "private_data w f = Some p"
  shows "\<exists>r out w'. slimvm_dev_ioctl ops ctx f (SLIMVM_CREATE_VCPU c) w = Ret r out w' \<and> world_ok base w'"
proof (cases c)
  case None
  then show ?thesis using assms by (simp add: slimvm_dev_ioctl_def)
next
  case (Some conf)
  obtain r i1 g1 cnt where a: "vcpu_alloc ops (cur_mm ctx) conf i (engine_state w) (w_mm_count w) = (r, i1, g1, cnt)"
    by (metis prod_cases4)
  let ?w1 = "set_inst p (Some i1) (w\<lparr>engine_state := g1, w_mm_count := cnt\<rparr>)"
  let ?i2 = "slimvm_record_sandbox (cur_tgid ctx) (pid_task ctx) i1"
  have w1: "world_ok base ?w1" by (rule world_ok_alloc [OF ok i a])
  then have "world_ok base (set_inst p (Some ?i2) (?w1\<lparr>engine_state := g1\<rparr>))"
    by (rule world_ok_set [where i = i1]) (use world_ok_at [OF w1, of p i1] in \<open>simp_all add: record_sandbox_frame\<close>)
  moreover have "set_inst p (Some ?i2) (?w1\<lparr>engine_state := g1\<rparr>)
      = set_inst p (Some ?i2) (w\<lparr>engine_state := g1, w_mm_count := cnt\<rparr>)" by simp
  ultimately have "world_ok base (set_inst p (Some ?i2) (w\<lparr>engine_state := g1, w_mm_count := cnt\<rparr>))"
    by (simp only:)
  with w1 a show ?thesis by (auto simp: slimvm_dev_ioctl_def Some f i Let_def)
qed

lemma release_vcpu_ioctl_ok:
  assumes ok: "world_ok base w" and i: "inst_heap w p = Some i" and f: "private_data w f = Some p"
  shows "\<exists>r out w'. slimvm_dev_ioctl ops ctx f (SLIMVM_RELEASE_VCPU c) w = Ret r out w' \<and> world_ok base w'"
proof (cases "\<exists>n. c = Some n \<and> slot_index n")
  case False
  then show ?thesis using assms by (cases c) (auto simp: slimvm_dev_ioctl_def slot_index_def)
next
  case True
  then obtain n where n: "c = Some n" "slot_index n" by blast
  then obtain i1 g1 where r: "vcpu_release ops i n (engine_state w) = Some (i1, g1)"
    by (cases "vcpus i (nat n)") (auto simp: vcpu_release_def)
  then have "inst_key i1 = inst_key i" "inst_filp i1 = inst_filp i" "inst_mem_ok i1 = inst_mem_ok i"
    by (auto simp: vcpu_release_def inst_key_def inst_mem_ok_def regions_def split: if_splits option.splits)
  with world_ok_set [OF ok i, of i1 g1] world_ok_at [OF ok i] vcpus_ok_release [OF _ r] r n f i
  show ?thesis by (auto simp: slimvm_dev_ioctl_def slot_index_def)
qed

lemma nmi_ioctl_ok:
  assumes ok: "world_ok base w" and i: "inst_heap w p = Some i" and f: "private_data w f = Some p"
  shows "\<exists>r out w'. slimvm_dev_ioctl ops ctx f (SLIMVM_NMI c) w = Ret r out w' \<and> world_ok base w'"
proof (cases "\<exists>n. c = Some n \<and> slot_index n")
  case False
  then show ?thesis using assms by (cases c) (auto simp: slimvm_dev_ioctl_def slot_index_def)
next
  case True
  then obtain n where n: "c = Some n" "slot_index n" by blast
  then obtain i1 where r: "vcpu_inject_nmi ops i n = Some i1"
    by (cases "vcpus i (nat n)") (auto simp: vcpu_inject_nmi_def)
  then have "inst_key i1 = inst_key i" "inst_filp i1 = inst_filp i" "inst_mem_ok i1 = inst_mem_ok i"
    by (auto simp: vcpu_inject_nmi_def inst_key_def inst_mem_ok_def regions_def split: if_splits option.splits)
  with world_ok_set [OF ok i, of i1 "engine_state w"] world_ok_at [OF ok i] vcpus_ok_inject_nmi [OF _ r] r n f i
  show ?thesis by (auto simp: slimvm_dev_ioctl_def slot_index_def)
qed

lemma run_ioctl_ok:
  assumes ok: "world_ok base w" and i: "inst_heap w p = Some i" and f: "private_data w f = Some p"
  shows "ioctl_good base (SLIMVM_RUN c cp oko) (slimvm_dev_ioctl ops ctx f (SLIMVM_RUN c cp oko) w)"
proof (cases c)
  case None
  then show ?thesis using assms by (simp add: slimvm_dev_ioctl_def ioctl_good_def)
next
  case (Some conf)
  have w: "world_ok base (set_inst p (Some i') (w\<lparr>engine_state := g'\<rparr>))"
    if "inst_key i' = inst_key i" "inst_filp i' = inst_filp i" "vcpus_ok i \<longrightarrow> vcpus_ok i'" "inst_mem_ok i'" for i' g'
    using world_ok_set [OF ok i] world_ok_at(1) [OF ok i] that by simp
  have "slimvm_dev_ioctl ops ctx f (SLIMVM_RUN c cp oko) w =
      (case run_ioctl ops (cur_mm ctx) conf cp oko i (engine_state w) of
         Bad_access \<Rightarrow> Bad_access | No_return \<Rightarrow> No_return
       | Thread_exit (i1, g1) \<Rightarrow> Thread_exit (set_inst p (Some i1) (w\<lparr>engine_state := g1\<rparr>))
       | Ret r out (i1, g1) \<Rightarrow> Ret r out (set_inst p (Some i1) (w\<lparr>engine_state := g1\<rparr>)))"
    by (simp add: slimvm_dev_ioctl_def Some f i)
  then show ?thesis
    using run_ioctl_frame [OF world_ok_at(2) [OF ok i], of "cur_mm ctx" conf cp oko "engine_state w"] w
    by (cases "run_ioctl ops (cur_mm ctx) conf cp oko i (engine_state w)")
      (auto simp: ioctl_good_def gone_frame_def inst_frame_def split: prod.splits)
qed

lemma ioctl_ok:
  assumes ok: "world_ok base w"
  shows "ioctl_good base req (slimvm_dev_ioctl ops ctx f req w)"
proof (cases "private_data w f")
  case None
  then show ?thesis using ok by (cases req) (simp_all add: slimvm_dev_ioctl_def ioctl_good_def)
next
  case (Some p)
  then obtain i where i: "inst_heap w p = Some i" using ok by (auto simp: world_ok_def files_ok_def)
  show ?thesis
  proof (cases req)
    case (SLIMVM_CREATE_VCPU c)
    then show ?thesis using create_vcpu_ioctl_ok [OF ok i Some, of ctx c] by (auto simp: ioctl_good_def)
  next
    case (SLIMVM_RELEASE_VCPU c)
    then show ?thesis using release_vcpu_ioctl_ok [OF ok i Some, of ctx c] by (auto simp: ioctl_good_def)
  next
    case (SLIMVM_NMI c)
    then show ?thesis using nmi_ioctl_ok [OF ok i Some, of ctx c] by (auto simp: ioctl_good_def)
  next
    case (SLIMVM_RUN c cp oko)
    then show ?thesis using run_ioctl_ok [OF ok i Some] by simp
  next
    case (SLIMVM_SET_TSS_ADDR x y)
    then show ?thesis using ok i Some by (simp add: slimvm_dev_ioctl_def ioctl_good_def)
  next
    case SLIMVM_OTHER
    then show ?thesis using ok by (simp add: slimvm_dev_ioctl_def ioctl_good_def)
  qed
qed

lemma open_ok:
  assumes ok: "world_ok base w" and fresh: "inst_heap w p = None" "private_data w f = None"
    and o: "slimvm_dev_open ops f (Some p) kz w = (0, w')"
  shows "world_ok base w'"
proof -
  obtain q w1 where c: "instance_create ops (Some p) kz w = (Some q, w1)"
    "w' = w1\<lparr>private_data := (private_data w1)(f := Some q),
        inst_heap := (inst_heap w1)(q := map_option (\<lambda>i. i\<lparr>inst_filp := Some f\<rparr>) (inst_heap w1 q))\<rparr>"
    using o by (auto simp: slimvm_dev_open_def split: prod.splits option.splits)
  have reg: "registry_ok base w" using ok by (simp add: world_ok_def)
  obtain i where i: "q = p" "registry_ok base w1" "inst_heap w1 = (inst_heap w)(p \<mapsto> i)"
    using create_ok [OF reg fresh(1) c(1)] by blast
  obtain n g j where cr: "w1 = (registered w p n (Some j) g)\<lparr>preempt_users := preempt_users w + 1\<rparr>"
    "instance_alloc_ptp ops (instance_fresh n) (engine_state w) = (0, j, g)"
    by (rule instance_create_cases [OF fresh(1), where ops = ops and kz = kz]) (use c(1) in auto)
  have "j = i" "private_data w1 = private_data w"
    using cr(1) i(3) by (auto simp: registered_def dest: fun_cong [of _ _ p])
  have mem: "inst_mem_ok i"
    using inst_mem_ok_core [OF alloc_ptp_core [OF cr(2)]] inst_mem_ok_fresh \<open>j = i\<close> by blast
  have w': "w' = (set_inst p (Some (i\<lparr>inst_filp := Some f\<rparr>)) w1)\<lparr>private_data := (private_data w)(f := Some p)\<rparr>"
    using i \<open>private_data w1 = private_data w\<close> by (simp add: c(2))
  have "vcpus_ok (i\<lparr>inst_filp := Some f\<rparr>)"
    using registry_okD [OF i(2), of p i] i(3) by simp
  then have "registry_ok base (set_inst p (Some (i\<lparr>inst_filp := Some f\<rparr>)) w1)"
    by (intro registry_ok_set [OF i(2), of p i]) (simp_all add: i(3) inst_key_def)
  then have "registry_ok base w'" unfolding w' by (simp only: registry_ok_frame)
  moreover have "inst_filp j \<noteq> Some f" if "inst_heap w a = Some j" for a j
    using ok fresh(2) that unfolding world_ok_def files_ok_def by (metis option.distinct(1))
  then have "files_ok w'"
    using ok fresh i \<open>private_data w1 = private_data w\<close>
    by (auto simp: w' world_ok_def files_ok_def)
  moreover have "inst_mem_ok (i\<lparr>inst_filp := Some f\<rparr>)" using mem by (simp add: inst_mem_ok_def regions_def)
  ultimately show ?thesis
    using ok i by (auto simp: world_ok_def w')
qed

lemma close_ok:
  assumes ok: "world_ok base w" and c: "slimvm_dev_release ops f w = Some (r, w')"
  shows "world_ok base w' \<and> private_data w' f = None"
proof (cases "private_data w f")
  case None
  then show ?thesis using assms by (simp add: slimvm_dev_release_def)
next
  case (Some p)
  then obtain i where i: "inst_heap w p = Some i" "inst_filp i = Some f"
    using ok by (auto simp: world_ok_def files_ok_def)
  obtain i1 g1 where sd: "shutdown_all_vcpus ops i (engine_state w) = (i1, g1)" by fastforce
  obtain i2 g2 where
    "(if force_release i1 then Some (i1, g1) else sync_all_vcpus ops i1 g1) = Some (i2, g2)"
    using c Some i(1) sd
    by (auto simp: slimvm_dev_release_def instance_release_def split: option.splits prod.splits)
  note sy = this
  obtain r1 w1 where rel: "instance_release ops p w = Some (r1, w1)"
    using c Some by (auto simp: slimvm_dev_release_def split: option.splits)
  have w1: "instance_release ops p w = Some (0, w1)" "registry_ok base w1"
      "inst_heap w1 = (inst_heap w)(p := None)" "private_data w1 = private_data w"
    using release_result [OF _ i(1) sd sy rel, of base] ok rel by (simp_all add: world_ok_def)
  have w': "w' = w1\<lparr>private_data := (private_data w)(f := None)\<rparr>"
    using c w1 Some by (simp add: slimvm_dev_release_def)
  have F: "private_data w g = Some q \<longleftrightarrow> (\<exists>i. inst_heap w q = Some i \<and> inst_filp i = Some g)" for g q
    using ok by (simp add: world_ok_def files_ok_def)
  have N: "inst_heap w q = Some j \<Longrightarrow> inst_filp j \<noteq> None" for q j
    using ok by (simp add: world_ok_def files_ok_def)
  have "private_data w' g = Some q \<longleftrightarrow> (\<exists>i. inst_heap w' q = Some i \<and> inst_filp i = Some g)" for g q
    using F [of g q] F [of f p] F [of f q] i Some by (cases "g = f"; cases "q = p") (simp_all add: w' w1(3))
  moreover have "inst_heap w' q = Some j \<Longrightarrow> inst_filp j \<noteq> None" for q j
    using N [of q j] by (simp add: w' w1(3) split: if_splits)
  ultimately have "files_ok w'" unfolding files_ok_def by blast
  then show ?thesis using ok w1 by (auto simp: world_ok_def w')
qed

lemma early_open_ok:
  assumes "world_ok base w" "private_data w f = None" "instance_create ops vz kz w = (None, w)"
  shows "slimvm_dev_open ops f vz kz w = (- ENOMEM, w)"
  using assms by (simp add: slimvm_dev_open_def fun_upd_idem)

end

section \<open>Everything that can happen to the module\<close>

text \<open>
  The transitions of the state: a file is opened (with a fresh address for the instance; the
  allocation of the page table root may not fail, see \<open>create_ptp_failure_dangles\<close>), an ioctl is
  served or ends its thread, a file is closed, leaked instances are reclaimed.
\<close>

inductive world_step :: "('v, 'g) slimvm_engine_ops \<Rightarrow> ('v, 'g) slim_world \<Rightarrow> ('v, 'g) slim_world \<Rightarrow> bool"
  for ops where
  step_open: "\<lbrakk>inst_heap w p = None; private_data w f = None;
     slimvm_dev_open ops f (Some p) kz w = (0, w')\<rbrakk> \<Longrightarrow> world_step ops w w'"
| step_open_fail: "\<lbrakk>private_data w f = None; instance_create ops vz kz w = (None, w);
     slimvm_dev_open ops f vz kz w = (r, w')\<rbrakk> \<Longrightarrow> world_step ops w w'"
| step_ioctl: "slimvm_dev_ioctl ops ctx f req w = Ret r out w' \<Longrightarrow> world_step ops w w'"
| step_exit: "slimvm_dev_ioctl ops ctx f req w = Thread_exit w' \<Longrightarrow> world_step ops w w'"
| step_close: "slimvm_dev_release ops f w = Some (r, w') \<Longrightarrow> world_step ops w w'"
| step_reclaim: "slimvm_reclaim_leaked_instances pt w = Some w' \<Longrightarrow> world_step ops w w'"

inductive reachable :: "('v, 'g) slimvm_engine_ops \<Rightarrow> 'g \<Rightarrow> ('v, 'g) slim_world \<Rightarrow> bool"
  for ops g where
  start: "reachable ops g (world_init g)"
| step: "reachable ops g w \<Longrightarrow> world_step ops w w' \<Longrightarrow> reachable ops g w'"

lemma world_ok_init: "world_ok (\<lambda>_. 0) (world_init g)"
  by (simp add: world_ok_def registry_ok_init files_ok_def) (simp add: world_init_def)

lemma world_ok_reclaim:
  assumes ok: "world_ok base w" and r: "slimvm_reclaim_leaked_instances pt w = Some w'"
  shows "world_ok base w'"
proof -
  have reg: "registry_ok base w" using ok by (simp add: world_ok_def)
  obtain h c where w': "w' = w\<lparr>inst_heap := h, file_count := c\<rparr>" by (rule reclaim_frame [OF r])
  have h: "inst_heap w' p = map_option (marked pt) (inst_heap w p)" for p
    by (rule reclaim_heap(1) [OF reg r])
  have "inst_filp (marked pt i) = inst_filp i" "inst_mem_ok (marked pt i) = inst_mem_ok i" for i :: "'a vm_instance"
    by (simp_all add: marked_def inst_mem_ok_def regions_def)
  moreover have "private_data w' = private_data w" by (simp add: w')
  ultimately show ?thesis
    using ok registry_ok_reclaim [OF reg r] by (auto simp: world_ok_def files_ok_def h)
qed

context engine_contract
begin

lemma world_step_ok:
  assumes "world_ok base w" "world_step ops w w'"
  shows "world_ok base w'"
  using assms(2)
proof cases
  case (step_open p f kz)
  then show ?thesis by (intro open_ok [OF assms(1)])
next
  case (step_open_fail f vz kz r)
  then show ?thesis using assms(1) early_open_ok [OF assms(1)] by simp
next
  case (step_ioctl ctx f req r out)
  then show ?thesis using ioctl_ok [OF assms(1), of req ctx f] by (simp add: ioctl_good_def)
next
  case (step_exit ctx f req)
  then show ?thesis using ioctl_ok [OF assms(1), of req ctx f] by (simp add: ioctl_good_def)
next
  case (step_close f r)
  then show ?thesis using close_ok [OF assms(1)] by blast
next
  case (step_reclaim pt)
  then show ?thesis by (rule world_ok_reclaim [OF assms(1)])
qed

lemma reachable_world_ok: "reachable ops g w \<Longrightarrow> world_ok (\<lambda>_. 0) w"
  by (induction rule: reachable.induct) (auto intro: world_ok_init world_step_ok)

text \<open>Once an instance has been shut down, no run enters the guest and no run changes it.\<close>

lemma enter_after_shutdown:
  assumes "vcpus_ok i" "shutdown_all_vcpus ops i g = (i', g')"
  shows "slimvm_enter ops conf i' g'' = Some (Run_return (- 1) conf i' g'')"
  using shutdown_stops [OF assms(2,1)] by (simp add: slimvm_enter_def Let_def)

text \<open>The regions of an instance are installed once.\<close>

lemma run_keeps_regions:
  assumes "inst_mem_ok i" "mem_region_num i \<noteq> 0" "run_ioctl ops m conf cp ok i g = Ret r out (i', g')"
  shows "regions i' = regions i"
proof -
  have "run_setup ops m conf cp i g = Some (0, i, g)" using assms(2) by (simp add: run_setup_def)
  then obtain r1 c1 j g1 where
    e: "slimvm_enter ops conf (i\<lparr>running_vcpus := running_vcpus i + 1\<rparr>) g = Some (Run_return r1 c1 j g1)"
    and j: "i' = j\<lparr>running_vcpus := running_vcpus j - 1\<rparr>"
    using assms(3) by (auto simp: run_ioctl_def Let_def split: option.splits run_result.splits if_splits)
  show ?thesis using enter_core [OF e] by (simp add: j regions_def inst_core_def)
qed

end

section \<open>Properties\<close>



end
