(* ===== verification/Slim_Seccomp.thy ===== *)
theory Slim_Seccomp
  imports Slim_Engine
begin

text \<open>
  \<^verbatim>\<open>seccomp.c\<close>: the seccomp filters of the host thread, evaluated on a system call the guest makes.
  A \<^verbatim>\<open>seccomp_filter\<close> chain is the list of its BPF programs, most recent first (the \<^verbatim>\<open>prev\<close>
  links); a program is code outside the repository and so an arbitrary function from
  \<^verbatim>\<open>struct seccomp_data\<close> to a 32-bit verdict.  \<open>NR_syscalls\<close> depends on the kernel the module is
  built for and is a parameter.  The lemmas show that the loop computes the verdict with the
  least action, what each verdict does to the guest's registers, and which numbers are filtered.
\<close>

section \<open>Definitions\<close>

record seccomp_data =
  sd_nr :: int
  sd_arch :: u32
  sd_instruction_pointer :: u64
  sd_args :: "u64 list"

type_synonym bpf_prog = "seccomp_data \<Rightarrow> u32"

abbreviation (input) SECCOMP_RET_ACTION :: u32 where "SECCOMP_RET_ACTION \<equiv> 0x7fff0000"
abbreviation (input) SECCOMP_RET_KILL :: u32 where "SECCOMP_RET_KILL \<equiv> 0"
abbreviation (input) SECCOMP_RET_TRAP :: u32 where "SECCOMP_RET_TRAP \<equiv> 0x00030000"
abbreviation (input) SECCOMP_RET_ERRNO :: u32 where "SECCOMP_RET_ERRNO \<equiv> 0x00050000"
abbreviation (input) SECCOMP_RET_TRACE :: u32 where "SECCOMP_RET_TRACE \<equiv> 0x7ff00000"
abbreviation (input) SECCOMP_RET_ALLOW :: u32 where "SECCOMP_RET_ALLOW \<equiv> 0x7fff0000"

abbreviation (input) NR_restart_syscall :: int where "NR_restart_syscall \<equiv> 219"

text \<open>The loop over the filter chain.\<close>

fun run_filters :: "bpf_prog list \<Rightarrow> seccomp_data \<Rightarrow> u32 \<Rightarrow> u32" where
  "run_filters [] sd ret = ret"
| "run_filters (f # fs) sd ret =
     (let cur_ret = f sd in
      run_filters fs sd
        (if cur_ret AND SECCOMP_RET_ACTION < ret AND SECCOMP_RET_ACTION then cur_ret else ret))"

definition seccomp_data_of :: "u32 \<Rightarrow> reg_file \<Rightarrow> seccomp_data" where
  "seccomp_data_of arch regs =
     \<lparr>sd_nr = c_int (regs VCPU_REGS_RAX), sd_arch = arch,
      sd_instruction_pointer = regs VCPU_REGS_RIP,
      sd_args = [regs VCPU_REGS_RDI, regs VCPU_REGS_RSI, regs VCPU_REGS_RDX,
                 regs VCPU_REGS_R10, regs VCPU_REGS_R8, regs VCPU_REGS_R9]\<rparr>"

text \<open>The final \<^verbatim>\<open>switch (ret)\<close>: the verdict is compared with its data bits included.\<close>

definition seccomp_verdict :: "nat \<Rightarrow> u32 \<Rightarrow> reg_file \<Rightarrow> int \<times> reg_file" where
  "seccomp_verdict NR_syscalls ret regs =
     (if ret = SECCOMP_RET_ERRNO then (0, regs(VCPU_REGS_RAX := of_nat NR_syscalls))
      else if ret = SECCOMP_RET_ALLOW then (0, regs)
      else if ret = SECCOMP_RET_KILL \<or> ret = SECCOMP_RET_TRAP \<or> ret = SECCOMP_RET_TRACE
      then (- EINVAL, regs)
      else (0, regs))"

definition do_seccomp_filter :: "nat \<Rightarrow> u32 \<Rightarrow> bpf_prog list \<Rightarrow> reg_file \<Rightarrow> int \<times> reg_file" where
  "do_seccomp_filter NR_syscalls arch f regs =
     (if f = [] then (0, regs)
      else
        (let sd = seccomp_data_of arch regs in
         if int NR_syscalls \<le> sd_nr sd \<or> sd_nr sd = NR_restart_syscall then (0, regs)
         else seccomp_verdict NR_syscalls (run_filters f sd SECCOMP_RET_ALLOW) regs))"

section \<open>The least action wins\<close>

abbreviation action :: "u32 \<Rightarrow> u32" where
  "action v \<equiv> v AND SECCOMP_RET_ACTION"

lemma run_filters_le_init: "action (run_filters fs sd ret) \<le> action ret"
proof (induction fs arbitrary: ret)
  case (Cons f fs)
  from Cons [of "f sd"] Cons [of ret] show ?case by (auto simp: Let_def)
qed simp

lemma run_filters_le:
  "f \<in> set fs \<Longrightarrow> action (run_filters fs sd ret) \<le> action (f sd)"
proof (induction fs arbitrary: ret)
  case (Cons g fs)
  show ?case
  proof (cases "f \<in> set fs")
    case True
    then show ?thesis by (simp add: Cons.IH Let_def)
  next
    case False
    then have "f = g" using Cons.prems by simp
    have *: "action (if action (g sd) < action ret then g sd else ret) \<le> action (g sd)"
      by (simp add: not_less)
    show ?thesis
      unfolding \<open>f = g\<close> run_filters.simps Let_def by (rule order_trans [OF run_filters_le_init *])
  qed
qed simp

lemma run_filters_in: "run_filters fs sd ret = ret \<or> (\<exists>f \<in> set fs. run_filters fs sd ret = f sd)"
proof (induction fs arbitrary: ret)
  case (Cons f fs)
  from Cons [of "f sd"] Cons [of ret] show ?case by (auto simp: Let_def)
qed simp

lemma action_le_allow: "action v \<le> SECCOMP_RET_ALLOW"
  by (simp add: word_and_le1)

text \<open>A number below \<open>NR_syscalls\<close> read back from the low 32 bits of \<open>RAX\<close> is the number itself.\<close>

lemma c_int_small:
  assumes "unat x < n" "n \<le> 2 ^ 31"
  shows "c_int x = int (unat x)"
proof -
  have "unat x < 2 ^ 31" using assms by simp
  then have "int (unat x) < int (2 ^ 31)" by (simp only: of_nat_less_iff)
  then have "uint x < 2 ^ 31" by (simp only: uint_nat of_nat_power of_nat_numeral)
  moreover from this have "uint (ucast x :: u32) = uint x"
    by (simp add: unsigned_ucast_eq take_bit_int_eq_self)
  moreover have "- (2 ^ 31) \<le> uint x" by (rule order_trans [OF _ uint_ge_0]) simp
  ultimately show ?thesis
    using signed_take_bit_int_eq_self [of 31 "uint x"]
    by (simp only: c_int_def sint_uint uint_nat [of x, symmetric]) simp
qed

text \<open>The conditions under which the filters are run at all.\<close>

definition filtered :: "nat \<Rightarrow> bpf_prog list \<Rightarrow> reg_file \<Rightarrow> bool" where
  "filtered NR_syscalls fs regs \<longleftrightarrow> fs \<noteq> [] \<and> c_int (regs VCPU_REGS_RAX) < int NR_syscalls
     \<and> c_int (regs VCPU_REGS_RAX) \<noteq> NR_restart_syscall"

lemma do_seccomp_filter_filtered:
  "filtered n fs regs \<Longrightarrow> do_seccomp_filter n arch fs regs =
     seccomp_verdict n (run_filters fs (seccomp_data_of arch regs) SECCOMP_RET_ALLOW) regs"
  by (simp add: do_seccomp_filter_def filtered_def seccomp_data_of_def Let_def)

text \<open>The verdicts that carry no data, in the order of their priority.\<close>

definition plain_verdicts :: "u32 set" where
  "plain_verdicts = {SECCOMP_RET_KILL, SECCOMP_RET_TRAP, SECCOMP_RET_ERRNO, SECCOMP_RET_TRACE,
     SECCOMP_RET_ALLOW}"

text \<open>A chain that kills system call 1 and allows everything else, for the witnesses below.\<close>

definition filters_example :: "bpf_prog list" where
  "filters_example = [\<lambda>sd. SECCOMP_RET_ALLOW,
     \<lambda>sd. if sd_nr sd = 1 then SECCOMP_RET_KILL else SECCOMP_RET_ALLOW]"

lemma action_plain: "v \<in> plain_verdicts \<Longrightarrow> action v = v"
  by (auto simp: plain_verdicts_def)

lemma verdict_of_least:
  assumes "v \<in> insert SECCOMP_RET_ALLOW V" "\<And>w. w \<in> V \<Longrightarrow> v \<le> w" "V \<subseteq> plain_verdicts"
  shows "seccomp_verdict n v regs =
    (if SECCOMP_RET_KILL \<in> V \<or> SECCOMP_RET_TRAP \<in> V then (- EINVAL, regs)
     else if SECCOMP_RET_ERRNO \<in> V then (0, regs(VCPU_REGS_RAX := of_nat n))
     else if SECCOMP_RET_TRACE \<in> V then (- EINVAL, regs) else (0, regs))"
proof -
  have "v \<in> plain_verdicts" using assms by (auto simp: plain_verdicts_def)
  then consider "v = SECCOMP_RET_KILL" | "v = SECCOMP_RET_TRAP" | "v = SECCOMP_RET_ERRNO"
    | "v = SECCOMP_RET_TRACE" | "v = SECCOMP_RET_ALLOW"
    by (auto simp: plain_verdicts_def)
  then show ?thesis
    using assms(1) assms(2) [of SECCOMP_RET_KILL] assms(2) [of SECCOMP_RET_TRAP]
      assms(2) [of SECCOMP_RET_ERRNO] assms(2) [of SECCOMP_RET_TRACE]
    by cases (auto simp: seccomp_verdict_def)
qed

section \<open>Properties\<close>

text \<open>C19. The filter chain is decided by a filter of least action: when the call is filtered, the
  outcome is that of one verdict \<open>v\<close>, which is \<open>ALLOW\<close> or the verdict of one of the filters, and
  no filter of the chain, wherever it stands, has a smaller action.\<close>

theorem seccomp_least_action:
  assumes "filtered n fs regs"
  shows "\<exists>v. do_seccomp_filter n arch fs regs = seccomp_verdict n v regs
    \<and> (v = SECCOMP_RET_ALLOW \<or> (\<exists>f \<in> set fs. v = f (seccomp_data_of arch regs)))
    \<and> (\<forall>f \<in> set fs. action v \<le> action (f (seccomp_data_of arch regs)))"
  by (intro exI [of _ "run_filters fs (seccomp_data_of arch regs) SECCOMP_RET_ALLOW"] conjI ballI)
    (simp_all only: do_seccomp_filter_filtered [OF assms] run_filters_le run_filters_in)

theorem seccomp_least_action_witness:
  "\<exists>v. do_seccomp_filter 450 0xc000003e filters_example (\<lambda>_. 1) = seccomp_verdict 450 v (\<lambda>_. 1)
    \<and> (v = SECCOMP_RET_ALLOW
        \<or> (\<exists>f \<in> set filters_example. v = f (seccomp_data_of 0xc000003e (\<lambda>_. 1))))
    \<and> (\<forall>f \<in> set filters_example. action v \<le> action (f (seccomp_data_of 0xc000003e (\<lambda>_. 1))))"
  by (rule seccomp_least_action [where n = 450 and fs = filters_example and regs = "\<lambda>_. 1" and arch = "0xc000003e"])
    (simp add: filtered_def c_int_def filters_example_def)

text \<open>C20. For filters that return verdicts without data the documented priorities are implemented
  exactly: a \<open>KILL\<close> or \<open>TRAP\<close> anywhere in the chain refuses the call, otherwise an \<open>ERRNO\<close> turns
  it into an invalid system call number, otherwise a \<open>TRACE\<close> refuses it, otherwise it passes.\<close>

theorem seccomp_priorities:
  fixes fs arch regs
  defines "sd \<equiv> seccomp_data_of arch regs"
  assumes "filtered n fs regs" and plain: "\<forall>f \<in> set fs. f sd \<in> plain_verdicts"
  shows "do_seccomp_filter n arch fs regs =
    (if \<exists>f \<in> set fs. f sd = SECCOMP_RET_KILL \<or> f sd = SECCOMP_RET_TRAP then (- EINVAL, regs)
     else if \<exists>f \<in> set fs. f sd = SECCOMP_RET_ERRNO
     then (0, regs(VCPU_REGS_RAX := of_nat n))
     else if \<exists>f \<in> set fs. f sd = SECCOMP_RET_TRACE then (- EINVAL, regs)
     else (0, regs))"
proof -
  define v where "v = run_filters fs sd SECCOMP_RET_ALLOW"
  have mem: "v = SECCOMP_RET_ALLOW \<or> (\<exists>f \<in> set fs. v = f sd)"
    unfolding v_def by (rule run_filters_in)
  then have pv: "v \<in> plain_verdicts" using plain by (auto simp: plain_verdicts_def)
  have le: "v \<le> f sd" if "f \<in> set fs" for f
    using run_filters_le [OF that, of sd SECCOMP_RET_ALLOW, folded v_def] that plain pv
    by (simp add: action_plain)
  have ex: "(\<exists>f \<in> set fs. f sd = w) = (w \<in> (\<lambda>f. f sd) ` set fs)" for w by auto
  have "do_seccomp_filter n arch fs regs = seccomp_verdict n v regs"
    using do_seccomp_filter_filtered [OF assms(2)] by (simp add: v_def sd_def)
  also have "\<dots> = (if SECCOMP_RET_KILL \<in> (\<lambda>f. f sd) ` set fs \<or> SECCOMP_RET_TRAP \<in> (\<lambda>f. f sd) ` set fs
     then (- EINVAL, regs)
     else if SECCOMP_RET_ERRNO \<in> (\<lambda>f. f sd) ` set fs then (0, regs(VCPU_REGS_RAX := of_nat n))
     else if SECCOMP_RET_TRACE \<in> (\<lambda>f. f sd) ` set fs then (- EINVAL, regs) else (0, regs))"
    by (rule verdict_of_least) (use mem le plain in auto)
  finally show ?thesis by (simp only: ex bex_disj_distrib)
qed

theorem seccomp_priorities_witness:
  "do_seccomp_filter 450 0xc000003e filters_example (\<lambda>_. 1) = (- EINVAL, \<lambda>_. 1)"
  using seccomp_priorities [where n = 450 and fs = filters_example and regs = "\<lambda>_. 1" and arch = "0xc000003e"]
  by (simp add: filtered_def c_int_def filters_example_def plain_verdicts_def seccomp_data_of_def)

text \<open>C21. A filter chain whose every verdict is \<open>ERRNO\<close> with a non-zero error number in the data
  bits, the form user space uses to deny a call, lets the call through unchanged: the switch
  compares the whole verdict, not its action.\<close>

theorem seccomp_errno_with_data_passes:
  assumes "filtered n fs regs"
    and "\<forall>f \<in> set fs. f (seccomp_data_of arch regs) AND 0xffff0000 = SECCOMP_RET_ERRNO
      \<and> f (seccomp_data_of arch regs) \<noteq> SECCOMP_RET_ERRNO"
  shows "do_seccomp_filter n arch fs regs = (0, regs)"
proof -
  let ?v = "run_filters fs (seccomp_data_of arch regs) SECCOMP_RET_ALLOW"
  have "?v = SECCOMP_RET_ALLOW \<or> ?v AND 0xffff0000 = SECCOMP_RET_ERRNO \<and> ?v \<noteq> SECCOMP_RET_ERRNO"
    using run_filters_in [of fs "seccomp_data_of arch regs" SECCOMP_RET_ALLOW] assms(2) by auto
  then show ?thesis
    by (auto simp: do_seccomp_filter_filtered [OF assms(1)] seccomp_verdict_def)
qed

theorem seccomp_errno_with_data_passes_witness:
  "do_seccomp_filter 450 0xc000003e [\<lambda>sd. 0x00050001] (\<lambda>_. 1) = (0, \<lambda>_. 1)"
  by (rule seccomp_errno_with_data_passes [where n = 450 and fs = "[\<lambda>sd. 0x00050001]" and regs = "\<lambda>_. 1" and arch = "0xc000003e"])
    (simp_all add: filtered_def c_int_def)

end
