(* ===== verification/Slim_Pagetable.thy ===== *)
theory Slim_Pagetable
  imports Slim_Prelude
begin

text \<open>
  Four-level radix page tables in physical memory, as both engines use them.  The two formats
  (EPT, NPT) differ in their bits only; the walker, the hardware's translation and the
  well-formedness of a table are stated once over a \<open>pt_format\<close>, and the laws a format has to obey
  are the locale \<open>pt_laws\<close>, interpreted for EPT and NPT in their theories.

  Memory is a partial map from page addresses to arrays of 512 entries.  Reading a page that is
  not there is the result \<open>Wild\<close>.  A table is well formed when the index paths from the root
  lead to pages that exist, different paths lead to different pages, and only the 512 entries of
  a page lead anywhere; the frame lemmas follow from that alone.
\<close>

section \<open>Formats, memory, indices\<close>

record pt_format =
  fmt_present :: "u64 \<Rightarrow> bool"
  fmt_huge :: "u64 \<Rightarrow> bool"
  fmt_addr :: "u64 \<Rightarrow> u64"
  fmt_table :: "u64 \<Rightarrow> u64"

type_synonym pt_page = "nat \<Rightarrow> u64"
type_synonym pt_heap = "u64 \<Rightarrow> pt_page option"

definition zero_page :: pt_page where
  "zero_page = (\<lambda>_. 0)"

lemma zero_page_apply [simp]: "zero_page j = 0"
  by (simp add: zero_page_def)

definition ADDR_TO_IDX :: "u64 \<Rightarrow> nat \<Rightarrow> nat" where
  "ADDR_TO_IDX la n = unat (drop_bit (12 + 9 * n) la AND 511)"

lemma ADDR_TO_IDX_less [simp]: "ADDR_TO_IDX la n < 512"
proof -
  have "drop_bit (12 + 9 * n) la AND 511 \<le> 511" by (rule word_and_le1)
  then show ?thesis by (simp add: ADDR_TO_IDX_def word_le_nat_alt)
qed

text \<open>Access through a pointer to entry \<open>idx\<close> of page \<open>p\<close>.\<close>

definition pt_read :: "pt_heap \<Rightarrow> u64 \<Rightarrow> nat \<Rightarrow> u64 option" where
  "pt_read h p idx = map_option (\<lambda>pg. pg idx) (h p)"

definition pt_write :: "u64 \<Rightarrow> nat \<Rightarrow> u64 \<Rightarrow> pt_heap \<Rightarrow> pt_heap" where
  "pt_write p idx v h = (case h p of None \<Rightarrow> h | Some pg \<Rightarrow> h(p \<mapsto> pg(idx := v)))"

datatype lookup = Wild | Fail int | Entry u64 nat

section \<open>The walker\<close>

text \<open>
  One level: the entry of \<open>dir\<close> at \<open>idx\<close>, with a new zeroed table behind it if it is absent and
  \<open>create\<close> is set.  \<open>galloc\<close> is the kernel's page allocator: a page that is not in use, or failure.
\<close>

definition pt_ensure :: "pt_format \<Rightarrow> (pt_heap \<Rightarrow> u64 option) \<Rightarrow> bool \<Rightarrow> u64 \<Rightarrow> nat \<Rightarrow> pt_heap
    \<Rightarrow> (int \<times> u64 \<times> pt_heap) option" where
  "pt_ensure fmt galloc create dir idx h =
     (case h dir of
        None \<Rightarrow> None
      | Some pg \<Rightarrow>
          if fmt_present fmt (pg idx) then Some (0, pg idx, h)
          else if \<not> create then Some (- ENOENT, 0, h)
          else (case galloc h of
                  None \<Rightarrow> Some (- ENOMEM, 0, h)
                | Some page \<Rightarrow>
                    Some (0, fmt_table fmt page,
                      h(page \<mapsto> zero_page, dir \<mapsto> pg(idx := fmt_table fmt page)))))"

text \<open>The loop \<^verbatim>\<open>for (i = LEVELS - 1; i > level; i--)\<close>, from level \<open>i\<close> with directory \<open>dir\<close>.\<close>

fun pt_walk :: "pt_format \<Rightarrow> (pt_heap \<Rightarrow> u64 option) \<Rightarrow> u64 \<Rightarrow> nat \<Rightarrow> bool \<Rightarrow> nat \<Rightarrow> u64 \<Rightarrow> pt_heap
    \<Rightarrow> lookup \<times> pt_heap" where
  "pt_walk fmt galloc gpa level create i dir h =
     (if i > level then
        (case pt_ensure fmt galloc create dir (ADDR_TO_IDX gpa i) h of
           None \<Rightarrow> (Wild, h)
         | Some (r, e, h') \<Rightarrow>
             if r \<noteq> 0 then (Fail r, h')
             else if fmt_huge fmt e \<and> i = 1 then (Entry dir (ADDR_TO_IDX gpa 1), h')
             else pt_walk fmt galloc gpa level create (i - 1) (fmt_addr fmt e) h')
      else (Entry dir (ADDR_TO_IDX gpa level), h))"

declare pt_walk.simps [simp del]

section \<open>What the hardware sees\<close>

text \<open>An entry of a table at level \<open>l\<close> that leads to a table at level \<open>l - 1\<close>.\<close>

definition is_table :: "pt_format \<Rightarrow> nat \<Rightarrow> u64 \<Rightarrow> bool" where
  "is_table fmt l e \<longleftrightarrow> 0 < l \<and> fmt_present fmt e \<and> \<not> (fmt_huge fmt e \<and> l = 1)"

text \<open>The page reached from page \<open>p\<close> of level \<open>l\<close> along a list of indices.\<close>

fun follow :: "pt_format \<Rightarrow> pt_heap \<Rightarrow> nat \<Rightarrow> u64 \<Rightarrow> nat list \<Rightarrow> u64 option" where
  "follow fmt h l p [] = Some p"
| "follow fmt h l p (i # is) =
     (case h p of
        None \<Rightarrow> None
      | Some pg \<Rightarrow> if is_table fmt l (pg i) then follow fmt h (l - 1) (fmt_addr fmt (pg i)) is else None)"

definition gpa_path :: "u64 \<Rightarrow> nat \<Rightarrow> nat list" where
  "gpa_path gpa l = map (ADDR_TO_IDX gpa) (rev [Suc l ..< 4])"

definition entry_at :: "pt_format \<Rightarrow> pt_heap \<Rightarrow> u64 \<Rightarrow> nat list \<Rightarrow> nat \<Rightarrow> u64 option" where
  "entry_at fmt h root is j =
     (case follow fmt h 3 root is of None \<Rightarrow> None | Some p \<Rightarrow> map_option (\<lambda>pg. pg j) (h p))"

text \<open>
  The leaf entry that translates a guest physical address, with its level: a present entry of a
  page table, or a present large entry of a page directory.
\<close>

definition leaf :: "pt_format \<Rightarrow> pt_heap \<Rightarrow> u64 \<Rightarrow> u64 \<Rightarrow> (nat \<times> u64) option" where
  "leaf fmt h root gpa =
     (case entry_at fmt h root (gpa_path gpa 0) (ADDR_TO_IDX gpa 0) of
        Some e \<Rightarrow> if fmt_present fmt e then Some (0, e) else None
      | None \<Rightarrow>
          (case entry_at fmt h root (gpa_path gpa 1) (ADDR_TO_IDX gpa 1) of
             Some e \<Rightarrow> if fmt_present fmt e \<and> fmt_huge fmt e then Some (1, e) else None
           | None \<Rightarrow> None))"

section \<open>Well-formed tables\<close>

definition pt_wf :: "pt_format \<Rightarrow> pt_heap \<Rightarrow> u64 \<Rightarrow> bool" where
  "pt_wf fmt h root \<longleftrightarrow>
     (\<forall>is p. follow fmt h 3 root is = Some p \<longrightarrow> h p \<noteq> None)
     \<and> (\<forall>is js p. follow fmt h 3 root is = Some p \<longrightarrow> follow fmt h 3 root js = Some p \<longrightarrow> is = js)
     \<and> (\<forall>is p. follow fmt h 3 root is = Some p \<longrightarrow> set is \<subseteq> {..<512})"

text \<open>
  Entries are either present or zero, and the entries of the lowest level do not have the bit that
  marks a large entry.
\<close>

definition pt_clean :: "pt_format \<Rightarrow> pt_heap \<Rightarrow> u64 \<Rightarrow> bool" where
  "pt_clean fmt h root \<longleftrightarrow> (\<forall>is j e. entry_at fmt h root is j = Some e \<longrightarrow>
     (fmt_present fmt e \<or> e = 0) \<and> (length is = 3 \<longrightarrow> \<not> fmt_huge fmt e))"

lemma follow_append:
  "follow fmt h l p (is @ js) =
     (case follow fmt h l p is of None \<Rightarrow> None | Some q \<Rightarrow> follow fmt h (l - length is) q js)"
  by (induction "is" arbitrary: l p) (auto split: option.splits)

lemma follow_length: "follow fmt h l p is = Some q \<Longrightarrow> length is \<le> l"
proof (induction "is" arbitrary: l p)
  case (Cons i "is")
  then obtain pg where "h p = Some pg" "is_table fmt l (pg i)"
    "follow fmt h (l - 1) (fmt_addr fmt (pg i)) is = Some q"
    by (auto split: option.splits if_splits)
  with Cons.IH [of "l - 1"] show ?case by (fastforce simp: is_table_def)
qed simp

text \<open>Writing one entry changes the paths through that entry and no others.\<close>

lemma follow_write_other:
  assumes wf: "pt_wf fmt h root" and \<pi>: "follow fmt h 3 root \<pi> = Some p" and pg: "h p = Some pg"
    and npre: "take (Suc (length \<pi>)) \<rho> \<noteq> \<pi> @ [i]"
  shows "follow fmt (h(p \<mapsto> pg(i := v))) 3 root \<rho> = follow fmt h 3 root \<rho>"
proof -
  have "follow fmt (h(p \<mapsto> pg(i := v))) l q \<rho>' = follow fmt h l q \<rho>'"
    if "\<sigma> @ \<rho>' = \<rho>" "follow fmt h 3 root \<sigma> = Some q" "l = 3 - length \<sigma>" for \<sigma> \<rho>' l q
    using that
  proof (induction \<rho>' arbitrary: \<sigma> q l)
    case (Cons j \<rho>')
    show ?case
    proof (cases "q = p \<and> j = i")
      case True
      then have "\<sigma> = \<pi>" using wf \<pi> Cons.prems unfolding pt_wf_def by blast
      then have "take (Suc (length \<pi>)) \<rho> = \<pi> @ [i]" using Cons.prems True by auto
      with npre show ?thesis by simp
    next
      case False
      obtain pq where pq: "h q = Some pq" using wf Cons.prems unfolding pt_wf_def by blast
      have same: "\<exists>pq'. (h(p \<mapsto> pg(i := v))) q = Some pq' \<and> pq' j = pq j"
        using False pq pg by auto
      show ?thesis
      proof (cases "is_table fmt l (pq j)")
        case True
        then have "follow fmt h 3 root (\<sigma> @ [j]) = Some (fmt_addr fmt (pq j))"
          using Cons.prems pq by (simp add: follow_append)
        from Cons.IH [OF _ this, of "l - 1"] Cons.prems same pq show ?thesis by auto
      next
        case False
        with same pq show ?thesis by auto
      qed
    qed
  qed simp
  from this [of "[]" \<rho> root 3] show ?thesis by simp
qed

text \<open>Pages that no path reaches do not matter.\<close>

lemma follow_unreachable:
  assumes nr: "\<forall>is. follow fmt h 3 root is \<noteq> Some q"
  shows "follow fmt (h(q := x)) 3 root \<rho> = follow fmt h 3 root \<rho>"
proof -
  have "follow fmt (h(q := x)) l p \<rho>' = follow fmt h l p \<rho>'"
    if "\<sigma> @ \<rho>' = \<rho>" "follow fmt h 3 root \<sigma> = Some p" "l = 3 - length \<sigma>" for \<sigma> \<rho>' l p
    using that
  proof (induction \<rho>' arbitrary: \<sigma> p l)
    case (Cons j \<rho>')
    have "p \<noteq> q" using nr Cons.prems by blast
    show ?case
    proof (cases "\<exists>pg. h p = Some pg \<and> is_table fmt l (pg j)")
      case True
      then obtain pg where pg: "h p = Some pg" "is_table fmt l (pg j)" by blast
      then have "follow fmt h 3 root (\<sigma> @ [j]) = Some (fmt_addr fmt (pg j))"
        using Cons.prems by (simp add: follow_append)
      from Cons.IH [OF _ this, of "l - 1"] Cons.prems \<open>p \<noteq> q\<close> pg show ?thesis by auto
    next
      case False
      with \<open>p \<noteq> q\<close> show ?thesis by (auto split: option.splits)
    qed
  qed simp
  from this [of "[]" \<rho> root 3] show ?thesis by simp
qed

lemma wf_unreachable:
  assumes "pt_wf fmt h root" "\<forall>is. follow fmt h 3 root is \<noteq> Some q"
  shows "pt_wf fmt (h(q := x)) root"
  using assms unfolding pt_wf_def follow_unreachable [OF assms(2)] by (metis fun_upd_apply)

lemma absent_unreachable: "pt_wf fmt h root \<Longrightarrow> h q = None \<Longrightarrow> \<forall>is. follow fmt h 3 root is \<noteq> Some q"
  unfolding pt_wf_def by blast

lemma wf_root: "pt_wf fmt h root \<Longrightarrow> h root \<noteq> None"
  unfolding pt_wf_def by (metis follow.simps(1))

text \<open>The effect of writing an entry, on all paths.\<close>

lemma follow_write:
  assumes wf: "pt_wf fmt h root" and \<pi>: "follow fmt h 3 root \<pi> = Some p" and pg: "h p = Some pg"
  shows "follow fmt (h(p \<mapsto> pg(i := v))) 3 root \<rho> =
    (if take (Suc (length \<pi>)) \<rho> = \<pi> @ [i]
     then if is_table fmt (3 - length \<pi>) v
       then follow fmt (h(p \<mapsto> pg(i := v))) (2 - length \<pi>) (fmt_addr fmt v) (drop (Suc (length \<pi>)) \<rho>)
       else None
     else follow fmt h 3 root \<rho>)"
proof (cases "take (Suc (length \<pi>)) \<rho> = \<pi> @ [i]")
  case True
  then have \<rho>: "\<rho> = \<pi> @ i # drop (Suc (length \<pi>)) \<rho>"
    by (metis append.assoc append_Cons append_Nil append_take_drop_id)
  have "follow fmt (h(p \<mapsto> pg(i := v))) 3 root \<pi> = Some p"
    using follow_write_other [OF assms, of \<pi> i v] \<pi> by simp
  then show ?thesis using True by (subst \<rho>) (simp add: follow_append)
next
  case False
  then show ?thesis using follow_write_other [OF assms] by simp
qed

lemma wf_write_leaf:
  assumes wf: "pt_wf fmt h root" and \<pi>: "follow fmt h 3 root \<pi> = Some p" and pg: "h p = Some pg"
    and v: "\<not> is_table fmt (3 - length \<pi>) v"
  shows "pt_wf fmt (h(p \<mapsto> pg(i := v))) root"
proof -
  have *: "follow fmt (h(p \<mapsto> pg(i := v))) 3 root \<rho> = Some q \<Longrightarrow> follow fmt h 3 root \<rho> = Some q" for \<rho> q
    using follow_write [OF wf \<pi> pg, of i v \<rho>] v by (simp split: if_splits)
  show ?thesis unfolding pt_wf_def
  proof (intro conjI allI impI)
    fix \<rho> q assume "follow fmt (h(p \<mapsto> pg(i := v))) 3 root \<rho> = Some q"
    then have "h q \<noteq> None" using * wf unfolding pt_wf_def by blast
    then show "(h(p \<mapsto> pg(i := v))) q \<noteq> None" by simp
  next
    fix \<rho> \<rho>' q
    assume "follow fmt (h(p \<mapsto> pg(i := v))) 3 root \<rho> = Some q" "follow fmt (h(p \<mapsto> pg(i := v))) 3 root \<rho>' = Some q"
    then show "\<rho> = \<rho>'" using * wf unfolding pt_wf_def by blast
  next
    fix \<rho> q assume "follow fmt (h(p \<mapsto> pg(i := v))) 3 root \<rho> = Some q"
    then show "set \<rho> \<subseteq> {..<512}" using * wf unfolding pt_wf_def by blast
  qed
qed

section \<open>Translation after a write\<close>

lemma gpa_path_length [simp]: "length (gpa_path gpa l) = 3 - l"
  by (simp add: gpa_path_def)

lemma gpa_path_simps:
  "gpa_path gpa 0 = [ADDR_TO_IDX gpa 3, ADDR_TO_IDX gpa 2, ADDR_TO_IDX gpa 1]"
  "gpa_path gpa 1 = [ADDR_TO_IDX gpa 3, ADDR_TO_IDX gpa 2]"
  "gpa_path gpa (Suc 0) = [ADDR_TO_IDX gpa 3, ADDR_TO_IDX gpa 2]"
  "gpa_path gpa 2 = [ADDR_TO_IDX gpa 3]"
  "gpa_path gpa 3 = []"
  by (simp_all add: gpa_path_def upt_rec numeral_2_eq_2 numeral_3_eq_3)

text \<open>Two addresses translated by the same entry of a table at level \<open>l\<close>.\<close>

definition same_slot :: "nat \<Rightarrow> u64 \<Rightarrow> u64 \<Rightarrow> bool" where
  "same_slot l g g' \<longleftrightarrow> gpa_path g l = gpa_path g' l \<and> ADDR_TO_IDX g l = ADDR_TO_IDX g' l"

lemma same_slot_refl [simp]: "same_slot l g g"
  by (simp add: same_slot_def)

lemma entry_write_leaf:
  assumes wf: "pt_wf fmt h root" and \<pi>: "follow fmt h 3 root \<pi> = Some p" and pg: "h p = Some pg"
    and v: "\<not> is_table fmt (3 - length \<pi>) v"
  shows "entry_at fmt (h(p \<mapsto> pg(i := v))) root \<rho> j =
    (if \<rho> = \<pi> \<and> j = i then Some v else if take (Suc (length \<pi>)) \<rho> = \<pi> @ [i] then None
     else entry_at fmt h root \<rho> j)"
proof (cases "take (Suc (length \<pi>)) \<rho> = \<pi> @ [i]")
  case True
  then have "\<rho> \<noteq> \<pi>" by auto
  with True v show ?thesis by (simp add: entry_at_def follow_write [OF wf \<pi> pg])
next
  case False
  then have f: "follow fmt (h(p \<mapsto> pg(i := v))) 3 root \<rho> = follow fmt h 3 root \<rho>"
    by (simp add: follow_write [OF wf \<pi> pg])
  show ?thesis
  proof (cases "follow fmt h 3 root \<rho> = Some p")
    case True
    then have "\<rho> = \<pi>" using wf \<pi> unfolding pt_wf_def by blast
    then show ?thesis using f \<pi> pg by (simp add: entry_at_def)
  next
    case no: False
    then have "\<rho> \<noteq> \<pi>" using \<pi> by auto
    with no False f show ?thesis by (auto simp: entry_at_def split: option.splits)
  qed
qed

lemma leaf_write0:
  assumes wf: "pt_wf fmt h root" and \<pi>: "follow fmt h 3 root (gpa_path g 0) = Some p" and pg: "h p = Some pg"
  shows "leaf fmt (h(p \<mapsto> pg(ADDR_TO_IDX g 0 := v))) root g' =
    (if same_slot 0 g g' then if fmt_present fmt v then Some (0, v) else None else leaf fmt h root g')"
proof -
  have v: "\<not> is_table fmt (3 - length (gpa_path g 0)) v" by (simp add: is_table_def)
  show ?thesis
    unfolding leaf_def same_slot_def entry_write_leaf [OF wf \<pi> pg v]
    by (auto simp: gpa_path_simps)
qed

lemma leaf_write1:
  assumes wf: "pt_wf fmt h root" and \<pi>: "follow fmt h 3 root (gpa_path g 1) = Some p" and pg: "h p = Some pg"
    and v: "fmt_present fmt v \<Longrightarrow> fmt_huge fmt v"
  shows "leaf fmt (h(p \<mapsto> pg(ADDR_TO_IDX g 1 := v))) root g' =
    (if same_slot 1 g g' then if fmt_present fmt v then Some (1, v) else None else leaf fmt h root g')"
proof -
  have v': "\<not> is_table fmt (3 - length (gpa_path g 1)) v" using v by (auto simp: is_table_def)
  show ?thesis
    unfolding leaf_def same_slot_def entry_write_leaf [OF wf \<pi> pg v']
    using v by (auto simp: gpa_path_simps)
qed

lemma leaf_unreachable:
  assumes "\<forall>is. follow fmt h 3 root is \<noteq> Some q"
  shows "leaf fmt (h(q := x)) root g = leaf fmt h root g"
proof -
  have "entry_at fmt (h(q := x)) root \<rho> j = entry_at fmt h root \<rho> j" for \<rho> j
    using assms by (auto simp: entry_at_def follow_unreachable [OF assms] split: option.splits)
  then show ?thesis by (simp only: leaf_def)
qed

lemma clean_unreachable:
  assumes "\<forall>is. follow fmt h 3 root is \<noteq> Some q" "pt_clean fmt h root"
  shows "pt_clean fmt (h(q := x)) root"
proof -
  have "entry_at fmt (h(q := x)) root \<rho> j = entry_at fmt h root \<rho> j" for \<rho> j
    using assms(1) by (auto simp: entry_at_def follow_unreachable [OF assms(1)] split: option.splits)
  then show ?thesis using assms(2) by (simp only: pt_clean_def)
qed

section \<open>The laws of a format, and the walker on well-formed tables\<close>

text \<open>\<open>page_ok\<close> says which physical addresses the allocator may return for a table page.\<close>

locale pt_laws =
  fixes fmt :: pt_format and page_ok :: "u64 \<Rightarrow> bool"
  assumes zero_absent: "\<not> fmt_present fmt 0"
    and zero_small: "\<not> fmt_huge fmt 0"
    and table_present: "page_ok q \<Longrightarrow> fmt_present fmt (fmt_table fmt q)"
    and table_small: "page_ok q \<Longrightarrow> \<not> fmt_huge fmt (fmt_table fmt q)"
    and table_addr: "page_ok q \<Longrightarrow> fmt_addr fmt (fmt_table fmt q) = q"
begin

lemma zero_not_table: "\<not> is_table fmt l 0"
  by (simp add: is_table_def zero_absent)

text \<open>A root page that has just been allocated.\<close>

lemma follow_zero_page: "h root = Some zero_page \<Longrightarrow> follow fmt h 3 root is = (if is = [] then Some root else None)"
  by (cases "is") (simp_all add: zero_not_table)

lemma fresh_table:
  assumes "h root = Some zero_page"
  shows "pt_wf fmt h root" "pt_clean fmt h root" "leaf fmt h root g = None"
proof -
  note f = follow_zero_page [of h root, OF assms]
  show "pt_wf fmt h root" unfolding pt_wf_def f using assms by (auto split: if_splits)
  show "pt_clean fmt h root"
    unfolding pt_clean_def entry_at_def f using assms by (auto split: if_splits)
  show "leaf fmt h root g = None" unfolding leaf_def entry_at_def f by (simp add: gpa_path_simps)
qed

lemma follow_new_table:
  assumes wf: "pt_wf fmt h root" and \<pi>: "follow fmt h 3 root \<pi> = Some p" and pg: "h p = Some pg"
    and q: "h q = None" "page_ok q" and l: "length \<pi> < 3"
  shows "follow fmt (h(q \<mapsto> zero_page, p \<mapsto> pg(i := fmt_table fmt q))) 3 root \<rho> =
    (if take (Suc (length \<pi>)) \<rho> = \<pi> @ [i] then if \<rho> = \<pi> @ [i] then Some q else None
     else follow fmt h 3 root \<rho>)"
proof -
  let ?h = "h(q \<mapsto> zero_page)"
  let ?v = "fmt_table fmt q"
  have nr: "\<forall>is. follow fmt h 3 root is \<noteq> Some q" by (rule absent_unreachable [OF wf q(1)])
  have wf': "pt_wf fmt ?h root" by (rule wf_unreachable [OF wf nr])
  have f: "follow fmt ?h 3 root \<rho> = follow fmt h 3 root \<rho>" for \<rho> by (rule follow_unreachable [OF nr])
  have \<pi>': "follow fmt ?h 3 root \<pi> = Some p" by (simp only: f \<pi>)
  have "p \<noteq> q" using pg q by auto
  then have pg': "?h p = Some pg" and zq: "(?h(p \<mapsto> pg(i := ?v))) q = Some zero_page" using pg by auto
  have tab: "is_table fmt (3 - length \<pi>) ?v"
    using l q(2) by (simp add: is_table_def table_present table_small)
  have "follow fmt (?h(p \<mapsto> pg(i := ?v))) k q js = (if js = [] then Some q else None)" for k js
    using zq zero_absent by (cases js) (simp_all add: zero_page_def is_table_def)
  moreover have "drop (Suc (length \<pi>)) \<rho> = [] \<longleftrightarrow> \<rho> = \<pi> @ [i]" if "take (Suc (length \<pi>)) \<rho> = \<pi> @ [i]"
    using that by (metis append_Nil2 append_take_drop_id drop_eq_Nil length_append_singleton order_refl)
  ultimately show ?thesis
    unfolding follow_write [OF wf' \<pi>' pg', of i ?v \<rho>] f table_addr [OF q(2)]
    using tab by (cases "take (Suc (length \<pi>)) \<rho> = \<pi> @ [i]") simp_all
qed

lemma wf_new_table:
  assumes wf: "pt_wf fmt h root" and \<pi>: "follow fmt h 3 root \<pi> = Some p" and pg: "h p = Some pg"
    and q: "h q = None" "page_ok q" and l: "length \<pi> < 3" and i: "i < 512"
  shows "pt_wf fmt (h(q \<mapsto> zero_page, p \<mapsto> pg(i := fmt_table fmt q))) root"
proof -
  let ?h = "h(q \<mapsto> zero_page, p \<mapsto> pg(i := fmt_table fmt q))"
  have nr: "follow fmt h 3 root \<rho> \<noteq> Some q" for \<rho> using absent_unreachable [OF wf q(1)] by blast
  have c: "\<rho> = \<pi> @ [i] \<and> r = q \<or> r \<noteq> q \<and> follow fmt h 3 root \<rho> = Some r" if "follow fmt ?h 3 root \<rho> = Some r" for \<rho> r
    using that nr unfolding follow_new_table [OF wf \<pi> pg q l] by (auto split: if_splits)
  show ?thesis unfolding pt_wf_def
  proof (intro conjI allI impI)
    fix \<rho> r assume "follow fmt ?h 3 root \<rho> = Some r"
    from c [OF this] wf show "?h r \<noteq> None" unfolding pt_wf_def by auto
  next
    fix \<rho> \<rho>' r assume "follow fmt ?h 3 root \<rho> = Some r" "follow fmt ?h 3 root \<rho>' = Some r"
    from c [OF this(1)] c [OF this(2)] wf show "\<rho> = \<rho>'" unfolding pt_wf_def by blast
  next
    fix \<rho> r assume "follow fmt ?h 3 root \<rho> = Some r"
    moreover have "set \<pi> \<subseteq> {..<512}" using wf \<pi> unfolding pt_wf_def by blast
    ultimately show "set \<rho> \<subseteq> {..<512}" using c [of \<rho> r] wf i unfolding pt_wf_def by auto
  qed
qed

lemma entry_new_table:
  assumes wf: "pt_wf fmt h root" and \<pi>: "follow fmt h 3 root \<pi> = Some p" and pg: "h p = Some pg"
    and q: "h q = None" "page_ok q" and l: "length \<pi> < 3" and absent: "\<not> fmt_present fmt (pg i)"
  shows "entry_at fmt (h(q \<mapsto> zero_page, p \<mapsto> pg(i := fmt_table fmt q))) root \<rho> j =
    (if \<rho> = \<pi> \<and> j = i then Some (fmt_table fmt q) else if \<rho> = \<pi> @ [i] then Some 0
     else entry_at fmt h root \<rho> j)"
proof -
  let ?h = "h(q \<mapsto> zero_page, p \<mapsto> pg(i := fmt_table fmt q))"
  note f = follow_new_table [OF wf \<pi> pg q l, of i]
  have "p \<noteq> q" using pg q by auto
  have nr: "follow fmt h 3 root \<rho> \<noteq> Some q" for \<rho> using absent_unreachable [OF wf q(1)] by blast
  have through: "follow fmt h 3 root \<rho> = None" if "take (Suc (length \<pi>)) \<rho> = \<pi> @ [i]"
  proof -
    have "\<rho> = \<pi> @ i # drop (Suc (length \<pi>)) \<rho>"
      by (metis that append.assoc append_Cons append_Nil append_take_drop_id)
    then have "follow fmt h 3 root \<rho> = follow fmt h 3 root (\<pi> @ i # drop (Suc (length \<pi>)) \<rho>)" by simp
    also have "\<dots> = None" using \<pi> pg absent by (simp add: follow_append is_table_def)
    finally show ?thesis .
  qed
  show ?thesis
  proof (cases "take (Suc (length \<pi>)) \<rho> = \<pi> @ [i]")
    case True
    then have "\<rho> \<noteq> \<pi>" by auto
    with True through \<open>p \<noteq> q\<close> show ?thesis by (auto simp: entry_at_def f)
  next
    case False
    then have ne: "\<rho> \<noteq> \<pi> @ [i]" by auto
    show ?thesis
    proof (cases "follow fmt h 3 root \<rho> = Some p")
      case True
      then have "\<rho> = \<pi>" using wf \<pi> unfolding pt_wf_def by blast
      then show ?thesis using False \<pi> pg \<open>p \<noteq> q\<close> by (simp add: entry_at_def f)
    next
      case no: False
      then have "\<rho> \<noteq> \<pi>" using \<pi> by auto
      with no False ne nr show ?thesis by (auto simp: entry_at_def f split: option.splits)
    qed
  qed
qed

lemma clean_new_table:
  assumes "pt_wf fmt h root" "follow fmt h 3 root \<pi> = Some p" "h p = Some pg" "h q = None" "page_ok q"
    "length \<pi> < 3" "\<not> fmt_present fmt (pg i)" "pt_clean fmt h root"
  shows "pt_clean fmt (h(q \<mapsto> zero_page, p \<mapsto> pg(i := fmt_table fmt q))) root"
  unfolding pt_clean_def entry_new_table [OF assms(1-7)]
  using assms(6,8) table_present [OF assms(5)] table_small [OF assms(5)] zero_small
  by (auto simp: pt_clean_def)

lemma entry_below_absent:
  assumes "follow fmt h 3 root \<pi> = Some p" "h p = Some pg" "\<not> fmt_present fmt (pg i)"
  shows "entry_at fmt h root (\<pi> @ i # \<rho>) j = None"
  using assms by (simp add: entry_at_def follow_append is_table_def)

lemma leaf_new_table:
  assumes wf: "pt_wf fmt h root" and \<pi>: "follow fmt h 3 root (gpa_path g l) = Some p" and pg: "h p = Some pg"
    and q: "h q = None" "page_ok q" and l: "0 < l" "l < 4" and absent: "\<not> fmt_present fmt (pg (ADDR_TO_IDX g l))"
  shows "leaf fmt (h(q \<mapsto> zero_page, p \<mapsto> pg(ADDR_TO_IDX g l := fmt_table fmt q))) root g' = leaf fmt h root g'"
proof -
  let ?i = "ADDR_TO_IDX g l"
  let ?\<pi> = "gpa_path g l"
  have len: "length ?\<pi> < 3" using l by simp
  note e = entry_new_table [OF wf \<pi> pg q len absent]
  note below = entry_below_absent [OF \<pi> pg absent, of "[]"]
  have at: "entry_at fmt h root ?\<pi> ?i = Some (pg ?i)" using \<pi> pg by (simp add: entry_at_def)
  consider "l = 1" | "l = 2" | "l = 3" using l by linarith
  then show ?thesis
  proof cases
    case 1
    have "gpa_path g' 0 \<noteq> ?\<pi>" "gpa_path g' 1 \<noteq> ?\<pi> @ [?i]"
      "gpa_path g' 0 = ?\<pi> @ [?i] \<longleftrightarrow> gpa_path g' 1 = ?\<pi> \<and> ADDR_TO_IDX g' 1 = ?i"
      using 1 by (auto simp: gpa_path_simps)
    then show ?thesis
      using below [of "ADDR_TO_IDX g' 0"] at absent zero_absent unfolding leaf_def e by auto
  next
    case 2
    have "gpa_path g' 0 \<noteq> ?\<pi>" "gpa_path g' 0 \<noteq> ?\<pi> @ [?i]" "gpa_path g' 1 \<noteq> ?\<pi>"
      using 2 by (auto simp: gpa_path_simps)
    then show ?thesis
      using below [of "ADDR_TO_IDX g' 1"] zero_absent unfolding leaf_def e by (auto split: option.splits)
  next
    case 3
    have "gpa_path g' 0 \<noteq> ?\<pi>" "gpa_path g' 0 \<noteq> ?\<pi> @ [?i]" "gpa_path g' 1 \<noteq> ?\<pi>" "gpa_path g' 1 \<noteq> ?\<pi> @ [?i]"
      using 3 by (auto simp: gpa_path_simps)
    then show ?thesis unfolding leaf_def e by auto
  qed
qed

text \<open>What an allocator may do: it returns pages that are not in use.\<close>

definition galloc_ok :: "(pt_heap \<Rightarrow> u64 option) \<Rightarrow> bool" where
  "galloc_ok galloc \<longleftrightarrow> (\<forall>h q. galloc h = Some q \<longrightarrow> h q = None \<and> page_ok q)"

lemma gpa_path_Suc: "l < 3 \<Longrightarrow> gpa_path g l = gpa_path g (Suc l) @ [ADDR_TO_IDX g (Suc l)]"
proof -
  assume "l < 3"
  then have "[Suc l ..< 4] = Suc l # [Suc (Suc l) ..< 4]" by (simp add: upt_rec)
  then show ?thesis by (simp add: gpa_path_def)
qed

text \<open>A step of the walker keeps the table well formed, all paths and the translation of every
  address.\<close>

definition pt_extends :: "u64 \<Rightarrow> pt_heap \<Rightarrow> pt_heap \<Rightarrow> bool" where
  "pt_extends root h h' \<longleftrightarrow> pt_wf fmt h' root \<and> (\<forall>g. leaf fmt h' root g = leaf fmt h root g)
     \<and> (\<forall>\<rho> q. follow fmt h 3 root \<rho> = Some q \<longrightarrow> follow fmt h' 3 root \<rho> = Some q)
     \<and> (\<forall>q. h q \<noteq> None \<longrightarrow> h' q \<noteq> None) \<and> (pt_clean fmt h root \<longrightarrow> pt_clean fmt h' root)"

lemma pt_extends_refl: "pt_wf fmt h root \<Longrightarrow> pt_extends root h h"
  by (simp add: pt_extends_def)

lemma pt_extends_trans: "pt_extends root h h1 \<Longrightarrow> pt_extends root h1 h2 \<Longrightarrow> pt_extends root h h2"
  by (simp add: pt_extends_def)

text \<open>
  The result of a lookup: \<open>ENOENT\<close> only when it may not create and the address has no translation,
  \<open>ENOMEM\<close> only when the allocator fails; otherwise the slot of the address at the level asked
  for, or a large entry above it.
\<close>

definition lookup_ok :: "u64 \<Rightarrow> bool \<Rightarrow> nat \<Rightarrow> u64 \<Rightarrow> pt_heap \<Rightarrow> lookup \<Rightarrow> bool" where
  "lookup_ok root create level g h res = (case res of
     Wild \<Rightarrow> False
   | Fail r \<Rightarrow> if create then r = - ENOMEM else r = - ENOENT \<and> leaf fmt h root g = None
   | Entry p idx \<Rightarrow> \<exists>lv. (lv = level \<or> lv = 1 \<and> level = 0 \<and>
         (\<exists>e. entry_at fmt h root (gpa_path g 1) (ADDR_TO_IDX g 1) = Some e \<and> fmt_present fmt e \<and> fmt_huge fmt e))
       \<and> idx = ADDR_TO_IDX g lv \<and> follow fmt h 3 root (gpa_path g lv) = Some p)"

lemma leaf_absent:
  assumes "follow fmt h 3 root (gpa_path g l) = Some p" "h p = Some pg" "\<not> fmt_present fmt (pg (ADDR_TO_IDX g l))"
    "0 < l" "l < 4"
  shows "leaf fmt h root g = None"
proof -
  note below = entry_below_absent [OF assms(1-3)]
  consider "l = 1" | "l = 2" | "l = 3" using assms(4,5) by linarith
  then show ?thesis
  proof cases
    case 1
    have "gpa_path g 0 = gpa_path g l @ [ADDR_TO_IDX g l]"
      "entry_at fmt h root (gpa_path g 1) (ADDR_TO_IDX g 1) = Some (pg (ADDR_TO_IDX g l))"
      using 1 assms(1,2) by (simp_all add: gpa_path_simps entry_at_def)
    then show ?thesis using below [of "[]"] assms(3) by (simp add: leaf_def)
  next
    case 2
    have "gpa_path g 1 = gpa_path g l @ [ADDR_TO_IDX g l]"
      "gpa_path g 0 = gpa_path g l @ ADDR_TO_IDX g l # [ADDR_TO_IDX g 1]"
      using 2 by (simp_all add: gpa_path_simps)
    then show ?thesis using below [of "[]"] below [of "[ADDR_TO_IDX g 1]"] by (simp add: leaf_def)
  next
    case 3
    have "gpa_path g 1 = gpa_path g l @ ADDR_TO_IDX g l # [ADDR_TO_IDX g 2]"
      "gpa_path g 0 = gpa_path g l @ ADDR_TO_IDX g l # [ADDR_TO_IDX g 2, ADDR_TO_IDX g 1]"
      using 3 by (simp_all add: gpa_path_simps)
    then show ?thesis
      using below [of "[ADDR_TO_IDX g 2]"] below [of "[ADDR_TO_IDX g 2, ADDR_TO_IDX g 1]"] by (simp add: leaf_def)
  qed
qed

lemma extends_new_table:
  assumes wf: "pt_wf fmt h root" and \<pi>: "follow fmt h 3 root (gpa_path g l) = Some p" and pg: "h p = Some pg"
    and q: "h q = None" "page_ok q" and l: "0 < l" "l < 4" and absent: "\<not> fmt_present fmt (pg (ADDR_TO_IDX g l))"
  shows "pt_extends root h (h(q \<mapsto> zero_page, p \<mapsto> pg(ADDR_TO_IDX g l := fmt_table fmt q)))"
    and "follow fmt (h(q \<mapsto> zero_page, p \<mapsto> pg(ADDR_TO_IDX g l := fmt_table fmt q))) 3 root (gpa_path g (l - 1)) = Some q"
proof -
  have len: "length (gpa_path g l) < 3" using l by simp
  note f = follow_new_table [OF wf \<pi> pg q len, of "ADDR_TO_IDX g l"]
  have through: "follow fmt h 3 root \<rho> = None" if "take (Suc (length (gpa_path g l))) \<rho> = gpa_path g l @ [ADDR_TO_IDX g l]" for \<rho>
  proof -
    let ?r = "drop (Suc (length (gpa_path g l))) \<rho>"
    have "\<rho> = gpa_path g l @ ADDR_TO_IDX g l # ?r"
      by (metis that append.assoc append_Cons append_Nil append_take_drop_id)
    then have "follow fmt h 3 root \<rho> = follow fmt h 3 root (gpa_path g l @ ADDR_TO_IDX g l # ?r)" by simp
    also have "\<dots> = None" using \<pi> pg absent by (simp add: follow_append is_table_def)
    finally show ?thesis .
  qed
  show "pt_extends root h (h(q \<mapsto> zero_page, p \<mapsto> pg(ADDR_TO_IDX g l := fmt_table fmt q)))"
    unfolding pt_extends_def
    using wf_new_table [OF wf \<pi> pg q len ADDR_TO_IDX_less] leaf_new_table [OF wf \<pi> pg q l absent] through
      clean_new_table [OF wf \<pi> pg q len absent]
    by (auto simp: f)
  show "follow fmt (h(q \<mapsto> zero_page, p \<mapsto> pg(ADDR_TO_IDX g l := fmt_table fmt q))) 3 root (gpa_path g (l - 1)) = Some q"
    using gpa_path_Suc [of "l - 1" g] l by (simp add: f)
qed

lemma follow_step:
  assumes "follow fmt h 3 root (gpa_path g (Suc i)) = Some dir" "h dir = Some pg" "i < 3"
    "fmt_present fmt (pg (ADDR_TO_IDX g (Suc i)))" "\<not> (fmt_huge fmt (pg (ADDR_TO_IDX g (Suc i))) \<and> Suc i = 1)"
  shows "follow fmt h 3 root (gpa_path g i) = Some (fmt_addr fmt (pg (ADDR_TO_IDX g (Suc i))))"
proof -
  have "3 - length (gpa_path g (Suc i)) = Suc i" using assms(3) by simp
  moreover have "is_table fmt (Suc i) (pg (ADDR_TO_IDX g (Suc i)))" using assms(4,5) by (simp add: is_table_def)
  ultimately show ?thesis
    unfolding gpa_path_Suc [OF assms(3)] using assms(1,2) by (simp only: follow_append option.case) simp
qed

lemma walk_spec:
  assumes ga: "galloc_ok galloc" and "level \<le> 1"
  shows "\<lbrakk>pt_wf fmt h root; follow fmt h 3 root (gpa_path g i) = Some dir; level \<le> i; i \<le> 3;
      pt_walk fmt galloc g level create i dir h = (res, h')\<rbrakk>
    \<Longrightarrow> pt_extends root h h' \<and> (\<not> create \<longrightarrow> h' = h) \<and> lookup_ok root create level g h' res"
proof (induction i arbitrary: dir h)
  case 0
  then have "res = Entry dir (ADDR_TO_IDX g 0)" "h' = h" "level = 0"
    by (auto simp: pt_walk.simps [of _ _ _ _ _ 0])
  with 0 show ?case by (auto simp: pt_extends_refl lookup_ok_def)
next
  case (Suc i)
  let ?idx = "ADDR_TO_IDX g (Suc i)"
  obtain pg where pg: "h dir = Some pg" using Suc.prems(1,2) unfolding pt_wf_def by blast
  note walk = Suc.prems(5) [unfolded pt_walk.simps [of fmt galloc g level create "Suc i"] pt_ensure_def pg option.case]
  show ?case
  proof (cases "level < Suc i")
    case False
    then have "res = Entry dir (ADDR_TO_IDX g level)" "h' = h" "level = Suc i" using walk Suc.prems(3) by auto
    with Suc.prems show ?thesis by (auto simp: pt_extends_refl lookup_ok_def)
  next
    case deeper: True
    have i: "level \<le> i" "i < 3" "i \<le> 3" using deeper Suc.prems(4) by auto
    show ?thesis
    proof (cases "fmt_present fmt (pg ?idx)")
      case present: True
      show ?thesis
      proof (cases "fmt_huge fmt (pg ?idx) \<and> Suc i = 1")
        case True
        then have r: "res = Entry dir (ADDR_TO_IDX g 1)" "h' = h" "level = 0" using walk deeper present by auto
        have "entry_at fmt h root (gpa_path g 1) (ADDR_TO_IDX g 1) = Some (pg ?idx)"
          using Suc.prems(2) pg True by (simp add: entry_at_def)
        with r True present Suc.prems(1,2) show ?thesis by (auto simp: pt_extends_refl lookup_ok_def)
      next
        case False
        have "pt_walk fmt galloc g level create i (fmt_addr fmt (pg ?idx)) h = (res, h')"
          using walk deeper present False by (auto split: if_splits)
        from Suc.IH [OF Suc.prems(1) follow_step [OF Suc.prems(2) pg i(2) present False] i(1,3) this]
        show ?thesis .
      qed
    next
      case absent: False
      show ?thesis
      proof (cases create)
        case False
        then have "res = Fail (- ENOENT)" "h' = h" using walk deeper absent by auto
        moreover have "leaf fmt h root g = None"
          by (rule leaf_absent [OF Suc.prems(2) pg absent]) (use i in auto)
        ultimately show ?thesis using Suc.prems(1) False by (simp add: pt_extends_refl lookup_ok_def)
      next
        case True
        show ?thesis
        proof (cases "galloc h")
          case None
          then have "res = Fail (- ENOMEM)" "h' = h" using walk deeper absent True by auto
          then show ?thesis using Suc.prems(1) True by (simp add: pt_extends_refl lookup_ok_def)
        next
          case (Some q)
          then have q: "h q = None" "page_ok q" using ga by (auto simp: galloc_ok_def)
          let ?h = "h(q \<mapsto> zero_page, dir \<mapsto> pg(?idx := fmt_table fmt q))"
          have w: "pt_walk fmt galloc g level create i q ?h = (res, h')"
            using walk deeper absent True Some table_small [OF q(2)] table_addr [OF q(2)] by auto
          have ext: "pt_extends root h ?h" "follow fmt ?h 3 root (gpa_path g i) = Some q"
            using extends_new_table [OF Suc.prems(1,2) pg q _ _ absent] i by auto
          then have "pt_wf fmt ?h root" by (simp only: pt_extends_def)
          from Suc.IH [OF this ext(2) i(1,3) w] pt_extends_trans [OF ext(1)] True show ?thesis by blast
        qed
      qed
    qed
  qed
qed

lemma walk_root:
  assumes "galloc_ok galloc" "level \<le> 1" "pt_wf fmt h root"
    "pt_walk fmt galloc g level create 3 root h = (res, h')"
  shows "pt_extends root h h' \<and> (\<not> create \<longrightarrow> h' = h) \<and> lookup_ok root create level g h' res"
  by (rule walk_spec [OF assms(1,2,3) _ _ _ assms(4)]) (use assms(2) in \<open>simp_all add: gpa_path_simps\<close>)

lemma walk_root_nocreate:
  assumes "level \<le> 1" "pt_wf fmt h root"
  shows "\<exists>res. pt_walk fmt galloc g level False 3 root h = (res, h) \<and> lookup_ok root False level g h res"
proof -
  obtain res h' where w: "pt_walk fmt (\<lambda>_. None) g level False 3 root h = (res, h')" by fastforce
  have ens: "pt_ensure fmt galloc False dir idx h1 = pt_ensure fmt (\<lambda>_. None) False dir idx h1" for dir idx h1
    by (simp add: pt_ensure_def split: option.split)
  have "pt_walk fmt galloc g level False i dir h1 = pt_walk fmt (\<lambda>_. None) g level False i dir h1" for i dir h1
  proof (induction i arbitrary: dir h1)
    case (Suc i)
    show ?case unfolding pt_walk.simps [of fmt _ g level False "Suc i"] ens by (simp only: diff_Suc_1 Suc)
  qed (simp add: pt_walk.simps [of _ _ _ _ _ 0])
  moreover have "h' = h \<and> lookup_ok root False level g h' res"
    using walk_root [OF _ assms w] by (auto simp: galloc_ok_def)
  ultimately show ?thesis using w by auto
qed

text \<open>Reading and writing through the slot a lookup returns.\<close>

lemma lookup_read:
  assumes wf: "pt_wf fmt h root" and l: "lookup_ok root create 0 g h (Entry p idx)"
  obtains (small) e where "follow fmt h 3 root (gpa_path g 0) = Some p" "idx = ADDR_TO_IDX g 0"
      "pt_read h p idx = Some e" "leaf fmt h root g = (if fmt_present fmt e then Some (0, e) else None)"
  | (large) e where "follow fmt h 3 root (gpa_path g 1) = Some p" "idx = ADDR_TO_IDX g 1"
      "pt_read h p idx = Some e" "leaf fmt h root g = Some (1, e)" "fmt_present fmt e" "fmt_huge fmt e"
proof -
  from l obtain lv where lv: "lv = 0 \<or> lv = 1 \<and>
      (\<exists>e. entry_at fmt h root (gpa_path g 1) (ADDR_TO_IDX g 1) = Some e \<and> fmt_present fmt e \<and> fmt_huge fmt e)"
    "idx = ADDR_TO_IDX g lv" "follow fmt h 3 root (gpa_path g lv) = Some p"
    by (auto simp: lookup_ok_def)
  obtain pg where pg: "h p = Some pg" using wf lv(3) unfolding pt_wf_def by blast
  show ?thesis
  proof (cases "lv = 0")
    case True
    then show ?thesis
      using lv pg by (intro small [of "pg idx"]) (auto simp: pt_read_def leaf_def entry_at_def)
  next
    case False
    then have lv1: "lv = 1" and e: "fmt_present fmt (pg idx)" "fmt_huge fmt (pg idx)"
      using lv pg by (auto simp: entry_at_def)
    have "follow fmt h 3 root (gpa_path g 0) = None"
      using gpa_path_Suc [of 0 g] lv(2,3) lv1 pg e by (simp add: follow_append is_table_def)
    then have "leaf fmt h root g = Some (1, pg idx)"
      using lv lv1 pg e by (simp add: leaf_def entry_at_def)
    then show ?thesis
      using lv lv1 pg e by (intro large [of "pg idx"]) (auto simp: pt_read_def)
  qed
qed

lemma write0:
  assumes wf: "pt_wf fmt h root" and f: "follow fmt h 3 root (gpa_path g 0) = Some p"
  shows "pt_wf fmt (pt_write p (ADDR_TO_IDX g 0) v h) root"
    and "leaf fmt (pt_write p (ADDR_TO_IDX g 0) v h) root g' =
      (if same_slot 0 g g' then if fmt_present fmt v then Some (0, v) else None else leaf fmt h root g')"
proof -
  obtain pg where pg: "h p = Some pg" using wf f unfolding pt_wf_def by blast
  show "pt_wf fmt (pt_write p (ADDR_TO_IDX g 0) v h) root"
    using wf_write_leaf [OF wf f pg, of v] by (simp add: pt_write_def pg is_table_def)
  show "leaf fmt (pt_write p (ADDR_TO_IDX g 0) v h) root g' =
      (if same_slot 0 g g' then if fmt_present fmt v then Some (0, v) else None else leaf fmt h root g')"
    using leaf_write0 [OF wf f pg] by (simp add: pt_write_def pg)
qed

lemma clean_write:
  assumes "pt_wf fmt h root" "follow fmt h 3 root \<pi> = Some p" "\<not> is_table fmt (3 - length \<pi>) v"
    "pt_clean fmt h root" "fmt_present fmt v \<or> v = 0" "length \<pi> = 3 \<Longrightarrow> \<not> fmt_huge fmt v"
  shows "pt_clean fmt (pt_write p i v h) root"
proof -
  obtain pg where pg: "h p = Some pg" using assms(1,2) unfolding pt_wf_def by blast
  show ?thesis
    using assms(4-6) unfolding pt_clean_def pt_write_def pg option.case entry_write_leaf [OF assms(1,2) pg assms(3)]
    by (auto split: if_splits)
qed

lemma write1:
  assumes wf: "pt_wf fmt h root" and f: "follow fmt h 3 root (gpa_path g 1) = Some p"
    and v: "fmt_present fmt v \<Longrightarrow> fmt_huge fmt v"
  shows "pt_wf fmt (pt_write p (ADDR_TO_IDX g 1) v h) root"
    and "leaf fmt (pt_write p (ADDR_TO_IDX g 1) v h) root g' =
      (if same_slot 1 g g' then if fmt_present fmt v then Some (1, v) else None else leaf fmt h root g')"
proof -
  obtain pg where pg: "h p = Some pg" using wf f unfolding pt_wf_def by blast
  show "pt_wf fmt (pt_write p (ADDR_TO_IDX g 1) v h) root"
    using wf_write_leaf [OF wf f pg, of v] v by (auto simp: pt_write_def pg is_table_def)
  show "leaf fmt (pt_write p (ADDR_TO_IDX g 1) v h) root g' =
      (if same_slot 1 g g' then if fmt_present fmt v then Some (1, v) else None else leaf fmt h root g')"
    using leaf_write1 [OF wf f pg v] by (simp add: pt_write_def pg)
qed

end

section \<open>Slots and pages\<close>

lemma ADDR_TO_IDX_div: "ADDR_TO_IDX g n = unat g div 2 ^ (12 + 9 * n) mod 512"
proof -
  have m: "(511 :: u64) = mask 9" by (simp add: mask_eq_exp_minus_1)
  have "unat (drop_bit (12 + 9 * n) g) = unat g div 2 ^ (12 + 9 * n)"
    using unsigned_less [of g, where 'a = nat]
    by (simp only: unsigned_drop_bit_eq drop_bit_nat_def unsigned_take_bit_eq) (simp add: take_bit_nat_def)
  then show ?thesis unfolding ADDR_TO_IDX_def m and_mask_mod by simp
qed

lemma digits512:
  assumes "a < 512 ^ 4" "b < 512 ^ 4"
  shows "a = (b :: nat) \<longleftrightarrow> a mod 512 = b mod 512 \<and> a div 512 mod 512 = b div 512 mod 512
    \<and> a div 512 div 512 mod 512 = b div 512 div 512 mod 512
    \<and> a div 512 div 512 div 512 mod 512 = b div 512 div 512 div 512 mod 512"
proof -
  have top: "n div 512 div 512 div 512 mod 512 = n div 512 div 512 div 512" if "n < 512 ^ 4" for n :: nat
    using that by (simp add: div_mult2_eq [symmetric] less_mult_imp_div_less)
  have "n = m" if "n mod 512 = m mod 512" "n div 512 = m div 512" for n m :: nat
    using that by (metis div_mult_mod_eq)
  then show ?thesis using top [OF assms(1)] top [OF assms(2)] by metis
qed

lemma same_slot0_iff:
  assumes "unat g < 2 ^ 48" "unat g' < 2 ^ 48"
  shows "same_slot 0 g g' \<longleftrightarrow> unat g div 4096 = unat g' div 4096"
proof -
  have lt: "unat g div 4096 < 512 ^ 4" "unat g' div 4096 < 512 ^ 4"
    using assms by (auto intro: less_mult_imp_div_less)
  have idx: "ADDR_TO_IDX x 0 = unat x div 4096 mod 512" "ADDR_TO_IDX x 1 = unat x div 4096 div 512 mod 512"
    "ADDR_TO_IDX x 2 = unat x div 4096 div 512 div 512 mod 512"
    "ADDR_TO_IDX x 3 = unat x div 4096 div 512 div 512 div 512 mod 512" for x
    by (simp_all add: ADDR_TO_IDX_div div_mult2_eq [symmetric])
  show ?thesis
    unfolding same_slot_def gpa_path_simps idx digits512 [OF lt] list.inject by blast
qed

text \<open>Addresses on the same page share their slots, and so their translation.\<close>

lemma same_slot_page: "unat g div 4096 = unat g' div 4096 \<Longrightarrow> same_slot l g g'"
proof -
  assume "unat g div 4096 = unat g' div 4096"
  then have "ADDR_TO_IDX g n = ADDR_TO_IDX g' n" for n
    by (simp add: ADDR_TO_IDX_div power_add div_mult2_eq)
  then show ?thesis by (simp add: same_slot_def gpa_path_def)
qed

lemma leaf_same_slot: "same_slot 0 g g' \<Longrightarrow> leaf fmt h root g = leaf fmt h root g'"
proof -
  assume "same_slot 0 g g'"
  then have "gpa_path g 0 = gpa_path g' 0" "gpa_path g 1 = gpa_path g' 1"
    "ADDR_TO_IDX g 0 = ADDR_TO_IDX g' 0" "ADDR_TO_IDX g 1 = ADDR_TO_IDX g' 1"
    by (simp_all add: same_slot_def gpa_path_simps)
  then show ?thesis by (simp only: leaf_def)
qed

text \<open>The walk depends on the indices of the levels it visits only.\<close>

lemma pt_walk_same_index:
  "\<lbrakk>level \<le> 1; level \<le> i; \<forall>n. level \<le> n \<and> n \<le> max i 1 \<longrightarrow> ADDR_TO_IDX g n = ADDR_TO_IDX g' n\<rbrakk> \<Longrightarrow>
    pt_walk fmt galloc g level create i dir h = pt_walk fmt galloc g' level create i dir h"
proof (induction i arbitrary: dir h)
  case 0
  then show ?case by (simp add: pt_walk.simps [of _ _ _ _ _ 0])
next
  case (Suc i)
  show ?case
  proof (cases "level < Suc i")
    case True
    have idx: "ADDR_TO_IDX g (Suc i) = ADDR_TO_IDX g' (Suc i)" "ADDR_TO_IDX g 1 = ADDR_TO_IDX g' 1"
      using Suc.prems by auto
    have "pt_walk fmt galloc g level create i d k = pt_walk fmt galloc g' level create i d k" for d k
      using Suc.prems True by (intro Suc.IH) auto
    then show ?thesis using True unfolding pt_walk.simps [of _ _ _ _ _ "Suc i"] idx by (simp only: diff_Suc_1 if_True)
  next
    case False
    then have "ADDR_TO_IDX g level = ADDR_TO_IDX g' level" using Suc.prems by auto
    with False show ?thesis unfolding pt_walk.simps [of _ _ _ _ _ "Suc i"] by (simp only: if_False)
  qed
qed

lemma same_slot1_index: "same_slot 1 g g' \<Longrightarrow> 1 \<le> n \<Longrightarrow> n \<le> 3 \<Longrightarrow> ADDR_TO_IDX g n = ADDR_TO_IDX g' n"
proof -
  assume "same_slot 1 g g'" "1 \<le> n" "n \<le> 3"
  moreover from this(2,3) have "n = 1 \<or> n = 2 \<or> n = 3" by linarith
  ultimately show ?thesis by (auto simp: same_slot_def gpa_path_simps)
qed

lemma same_slot1_block: "unat g div 2097152 = unat g' div 2097152 \<Longrightarrow> same_slot 1 g g'"
proof -
  assume a: "unat g div 2097152 = unat g' div 2097152"
  have "x div 2 ^ (12 + 9 * Suc n) = x div 2097152 div 2 ^ (9 * n)" for x n :: nat
  proof -
    have "(2 :: nat) ^ (12 + 9 * Suc n) = 2097152 * 2 ^ (9 * n)" by (simp add: power_add)
    then show ?thesis by (simp only: div_mult2_eq)
  qed
  with a have "ADDR_TO_IDX g (Suc n) = ADDR_TO_IDX g' (Suc n)" for n by (simp only: ADDR_TO_IDX_div)
  from this [of 0] this [of 1] this [of 2] show ?thesis
    by (simp add: same_slot_def gpa_path_simps numeral_2_eq_2 numeral_3_eq_3)
qed

end
