(* ===== verification/Slim_Host.thy ===== *)
theory Slim_Host
  imports Slim_Pagetable
begin

text \<open>
  What the page table code of both engines sees of host memory management: pages, the answers to a
  request to pin a page or to look up a mapping, the page allocator, reference counts and dirty
  flags.  None of it is code of the module; the definitions of the engines take it as arguments.
\<close>

section \<open>Pages and answers\<close>

text \<open>What the code reads of a \<^verbatim>\<open>struct page\<close> and of the head of the compound page it belongs to.\<close>

record host_page =
  pg_pfn :: u64
  pg_head_pfn :: u64
  pg_trans_compound :: bool
  pg_compound :: bool
  pg_anon :: bool
  pg_mapcount :: int
  pg_head_mapcount :: int
  pg_head_thp_dtor :: bool
  pg_reserved :: bool

text \<open>
  The answers of host memory management to one fault: \<open>gup_fast\<close> and \<open>gup_slow\<close> are the number of
  pages (or error) and the page of the two ways to pin, \<open>h_vma\<close> is the area found by \<^verbatim>\<open>find_vma\<close>
  with its flags and protection, \<open>h_follow\<close> the result of \<^verbatim>\<open>follow_pfn\<close>.
\<close>

record host_answers =
  gup_fast :: "int \<times> host_page"
  gup_slow :: "int \<times> host_page"
  h_vma :: "(u64 \<times> u64) option"
  h_follow :: "int \<times> u64"

text \<open>The context of a remote TLB flush: whether the CPU mask could be allocated, and the current CPU.\<close>

record flush_env =
  fe_cpus_ok :: bool
  fe_me :: int

section \<open>Memory\<close>

text \<open>
  The memory that holds table pages, and the reference counts and dirty flags of host pages by
  page frame number.
\<close>

record nested_mem =
  em_heap :: pt_heap
  em_ref :: "u64 \<Rightarrow> int"
  em_dirty :: "u64 \<Rightarrow> bool"

type_synonym page_alloc = "pt_heap \<Rightarrow> u64 option"

text \<open>A lookup that may not create never calls the allocator.\<close>

abbreviation (input) no_alloc :: page_alloc where "no_alloc \<equiv> (\<lambda>_. None)"

section \<open>Loops over a table\<close>

text \<open>A loop whose body may fail with \<open>None\<close> (a wild read, or a page freed twice).\<close>

fun each_entry :: "(nat \<Rightarrow> 's \<Rightarrow> 's option) \<Rightarrow> nat list \<Rightarrow> 's \<Rightarrow> 's option" where
  "each_entry f [] h = Some h"
| "each_entry f (i # is) h = (case f i h of None \<Rightarrow> None | Some h' \<Rightarrow> each_entry f is h')"

text \<open>\<^verbatim>\<open>free_page\<close> of a page that is not allocated is an error.\<close>

definition free_page :: "u64 \<Rightarrow> pt_heap \<Rightarrow> pt_heap option" where
  "free_page p h = (case h p of None \<Rightarrow> None | Some _ \<Rightarrow> Some (h(p := None)))"

end
