(* ===== verification/Slim_Teardown.thy ===== *)
theory Slim_Teardown
  imports Slim_Host
begin

text \<open>
  Freeing a page table, stated once for both engines: a loop over the entries of a page whose body
  frees what hangs below each entry frees exactly the pages below that page, each of them once.
\<close>

section \<open>What hangs below a page\<close>

definition subtree :: "pt_format \<Rightarrow> pt_heap \<Rightarrow> nat \<Rightarrow> u64 \<Rightarrow> u64 set" where
  "subtree fmt h l p = {q. \<exists>is. follow fmt h l p is = Some q}"

text \<open>A page of level \<open>l\<close> with a tree below it: every page exists, on one path only.\<close>

definition tree :: "pt_format \<Rightarrow> pt_heap \<Rightarrow> nat \<Rightarrow> u64 \<Rightarrow> bool" where
  "tree fmt h l p \<longleftrightarrow>
     (\<forall>is q. follow fmt h l p is = Some q \<longrightarrow> h q \<noteq> None \<and> set is \<subseteq> {..<512})
     \<and> (\<forall>is js q. follow fmt h l p is = Some q \<and> follow fmt h l p js = Some q \<longrightarrow> is = js)"

lemma wf_tree: "pt_wf fmt h root = tree fmt h 3 root"
  unfolding pt_wf_def tree_def by blast

lemma subtree_refl [simp]: "p \<in> subtree fmt h l p"
  by (auto simp: subtree_def intro: exI [of _ "[]"])

lemma follow_cong:
  "(\<And>q. q \<in> subtree fmt h l p \<Longrightarrow> h' q = h q) \<Longrightarrow> follow fmt h' l p is = follow fmt h l p is"
proof (induction "is" arbitrary: l p)
  case (Cons i "is")
  have p: "h' p = h p" by (rule Cons.prems) simp
  show ?case
  proof (cases "h p")
    case (Some pg)
    have "follow fmt h' (l - 1) (fmt_addr fmt (pg i)) is = follow fmt h (l - 1) (fmt_addr fmt (pg i)) is"
      if tb: "is_table fmt l (pg i)"
    proof (rule Cons.IH)
      fix q assume "q \<in> subtree fmt h (l - 1) (fmt_addr fmt (pg i))"
      then obtain js where "follow fmt h l p (i # js) = Some q" using Some tb by (auto simp: subtree_def)
      then have "q \<in> subtree fmt h l p" unfolding subtree_def by blast
      then show "h' q = h q" by (rule Cons.prems)
    qed
    then show ?thesis using p Some by simp
  qed (use p in simp)
qed simp

lemma subtree_cong: "(\<And>q. q \<in> subtree fmt h l p \<Longrightarrow> h' q = h q) \<Longrightarrow> subtree fmt h' l p = subtree fmt h l p"
  using follow_cong [of fmt h l p h'] by (simp add: subtree_def)

lemma tree_cong:
  assumes "\<And>q. q \<in> subtree fmt h l p \<Longrightarrow> h' q = h q" "tree fmt h l p"
  shows "tree fmt h' l p"
proof -
  have "h' q = h q" if "follow fmt h l p is = Some q" for "is" q using assms(1) that by (auto simp: subtree_def)
  moreover have f: "follow fmt h' l p is = follow fmt h l p is" for "is" by (rule follow_cong) (rule assms(1))
  ultimately show ?thesis using assms(2) unfolding tree_def f by auto
qed

text \<open>The pages below \<open>p\<close> are those below its entries, which do not overlap.\<close>

definition below :: "pt_format \<Rightarrow> pt_heap \<Rightarrow> nat \<Rightarrow> pt_page \<Rightarrow> nat \<Rightarrow> u64 set" where
  "below fmt h l pg i = (if is_table fmt l (pg i) then subtree fmt h (l - 1) (fmt_addr fmt (pg i)) else {})"

lemma below_follow:
  assumes "h p = Some pg"
  shows "q \<in> below fmt h l pg i \<longleftrightarrow> (\<exists>is. follow fmt h l p (i # is) = Some q)"
  using assms by (auto simp: below_def subtree_def)

lemma subtree_below:
  assumes "h p = Some pg"
  shows "subtree fmt h l p = insert p (\<Union>i. below fmt h l pg i)"
proof -
  have "(\<exists>is. follow fmt h l p is = Some q) \<longleftrightarrow> q = p \<or> (\<exists>i. q \<in> below fmt h l pg i)" for q
  proof
    assume "\<exists>is. follow fmt h l p is = Some q"
    then obtain js where js: "follow fmt h l p js = Some q" ..
    show "q = p \<or> (\<exists>i. q \<in> below fmt h l pg i)"
    proof (cases js)
      case (Cons i "is")
      then show ?thesis using js below_follow [of h p pg q fmt l i, OF assms] by blast
    qed (use js in simp)
  next
    assume "q = p \<or> (\<exists>i. q \<in> below fmt h l pg i)"
    then show "\<exists>is. follow fmt h l p is = Some q"
      using below_follow [of h p pg q fmt l, OF assms] follow.simps(1) [of fmt h l p] by blast
  qed
  then show ?thesis by (auto simp: subtree_def)
qed

lemma tree_below:
  assumes t: "tree fmt h l p" and pg: "h p = Some pg"
  shows "p \<notin> below fmt h l pg i" "i \<noteq> j \<Longrightarrow> below fmt h l pg i \<inter> below fmt h l pg j = {}"
    "512 \<le> i \<Longrightarrow> below fmt h l pg i = {}" "is_table fmt l (pg i) \<Longrightarrow> tree fmt h (l - 1) (fmt_addr fmt (pg i))"
proof -
  note b = below_follow [of h p pg _ fmt l, OF pg]
  have one: "is = js" if "follow fmt h l p is = Some q" "follow fmt h l p js = Some q" for "is" js q
    using t that unfolding tree_def by blast
  show "p \<notin> below fmt h l pg i" unfolding b using one [of "[]" p] follow.simps(1) by blast
  show "below fmt h l pg i \<inter> below fmt h l pg j = {}" if "i \<noteq> j"
    using one that unfolding disjoint_iff b by blast
  show "below fmt h l pg i = {}" if "512 \<le> i"
    using t that unfolding tree_def set_eq_iff b by fastforce
  assume c: "is_table fmt l (pg i)"
  have f: "follow fmt h (l - 1) (fmt_addr fmt (pg i)) is = follow fmt h l p (i # is)" for "is" using pg c by simp
  show "tree fmt h (l - 1) (fmt_addr fmt (pg i))"
    unfolding tree_def f
  proof (intro conjI allI impI)
    fix "is" q assume "follow fmt h l p (i # is) = Some q"
    then show "h q \<noteq> None" "set is \<subseteq> {..<512}" using t unfolding tree_def by (blast, fastforce)
  next
    fix "is" js q assume "follow fmt h l p (i # is) = Some q \<and> follow fmt h l p (i # js) = Some q"
    then show "is = js" using one [of "i # is" q "i # js"] by simp
  qed
qed

section \<open>Freeing it\<close>

text \<open>\<open>f\<close> frees everything below its argument, a page of level \<open>l\<close>, and keeps the page itself.\<close>

definition frees_below :: "pt_format \<Rightarrow> nat \<Rightarrow> (u64 \<Rightarrow> pt_heap \<Rightarrow> pt_heap option) \<Rightarrow> bool" where
  "frees_below fmt l f \<longleftrightarrow> (\<forall>p h. tree fmt h l p \<longrightarrow>
     (\<exists>pg. f p h = Some (\<lambda>q. if q = p then Some pg else if q \<in> subtree fmt h l p then None else h q)))"

lemma each_entry_append:
  "each_entry f (xs @ ys) h = (case each_entry f xs h of None \<Rightarrow> None | Some h' \<Rightarrow> each_entry f ys h')"
  by (induction xs arbitrary: h) (auto split: option.splits)

text \<open>
  The loop: when the body at index \<open>i\<close> takes away what is below entry \<open>i\<close> and writes to \<open>p\<close> only, in
  entries it has already passed, the loop takes away everything below \<open>p\<close>.
\<close>

lemma free_loop:
  assumes t: "tree fmt h l p" and pg: "h p = Some pg"
    and body: "\<And>i g gi. i < 512 \<Longrightarrow> g p = Some gi \<Longrightarrow> gi i = pg i \<Longrightarrow> (\<And>q. q \<in> below fmt h l pg i \<Longrightarrow> g q = h q) \<Longrightarrow>
      \<exists>gi'. f i g = Some (\<lambda>q. if q = p then Some gi' else if q \<in> below fmt h l pg i then None else g q)
        \<and> (\<forall>j>i. gi' j = gi j)"
  shows "\<exists>pg'. each_entry f [0..<512] h = Some (\<lambda>q. if q = p then Some pg' else if q \<in> subtree fmt h l p then None else h q)"
proof -
  have "\<exists>gk. each_entry f [0..<k] h = Some (\<lambda>q. if q = p then Some gk else if q \<in> (\<Union>i<k. below fmt h l pg i) then None else h q)
      \<and> (\<forall>j\<ge>k. gk j = pg j)" if "k \<le> 512" for k
    using that
  proof (induction k)
    case 0
    then show ?case using pg by (intro exI [of _ pg]) auto
  next
    case (Suc k)
    let ?h = "\<lambda>gk q. if q = p then Some gk else if q \<in> (\<Union>i<k. below fmt h l pg i) then None else h q"
    from Suc obtain gk where k: "each_entry f [0..<k] h = Some (?h gk)" "\<forall>j\<ge>k. gk j = pg j" by auto
    have "?h gk q = h q" if q: "q \<in> below fmt h l pg k" for q
    proof -
      have "q \<noteq> p" using tree_below(1) [OF t pg] q by blast
      moreover have "q \<notin> below fmt h l pg i" if "i < k" for i using tree_below(2) [OF t pg, of i k] that q by blast
      ultimately show ?thesis by auto
    qed
    with body [of k "?h gk" gk] Suc.prems k(2) obtain g' where
      g': "f k (?h gk) = Some (\<lambda>q. if q = p then Some g' else if q \<in> below fmt h l pg k then None else ?h gk q)"
        "\<forall>j>k. g' j = gk j" by auto
    have "(\<lambda>q. if q = p then Some g' else if q \<in> below fmt h l pg k then None else ?h gk q)
        = (\<lambda>q. if q = p then Some g' else if q \<in> (\<Union>i<Suc k. below fmt h l pg i) then None else h q)"
      by (auto simp: fun_eq_iff lessThan_Suc)
    then show ?case using k g' by (intro exI [of _ g']) (auto simp: each_entry_append)
  qed
  from this [of 512] obtain gk where
    k: "each_entry f [0..<512] h = Some (\<lambda>q. if q = p then Some gk else if q \<in> (\<Union>i<512. below fmt h l pg i) then None else h q)"
    by auto
  have "(\<Union>i<512. below fmt h l pg i) = (\<Union>i. below fmt h l pg i)"
  proof (intro subset_antisym subsetI)
    fix q assume "q \<in> (\<Union>i. below fmt h l pg i)"
    then obtain i where i: "q \<in> below fmt h l pg i" by blast
    then have "i < 512" using tree_below(3) [OF t pg, of i] by (cases "i < 512") auto
    with i show "q \<in> (\<Union>i<512. below fmt h l pg i)" by blast
  qed auto
  then have "(\<lambda>q. if q = p then Some gk else if q \<in> (\<Union>i<512. below fmt h l pg i) then None else h q)
      = (\<lambda>q. if q = p then Some gk else if q \<in> subtree fmt h l p then None else h q)"
    using subtree_below [of h p pg fmt l, OF pg] by (auto simp: fun_eq_iff)
  with k show ?thesis by auto
qed

text \<open>A body that frees the table below an entry and then its page, or leaves the entry alone.\<close>

lemma free_child:
  assumes f: "frees_below fmt (l - 1) f" and t: "tree fmt h l p" and pg: "h p = Some pg"
    and c: "is_table fmt l (pg i)" and g: "g p = Some gi" "\<And>q. q \<in> below fmt h l pg i \<Longrightarrow> g q = h q"
  shows "\<exists>ph. f (fmt_addr fmt (pg i)) g = Some ph \<and> ph p = Some gi
    \<and> free_page (fmt_addr fmt (pg i)) (ph(p \<mapsto> v))
      = Some (\<lambda>q. if q = p then Some v else if q \<in> below fmt h l pg i then None else g q)"
proof -
  let ?c = "fmt_addr fmt (pg i)"
  have b: "below fmt h l pg i = subtree fmt h (l - 1) ?c" using c by (simp add: below_def)
  have s: "subtree fmt g (l - 1) ?c = subtree fmt h (l - 1) ?c" by (rule subtree_cong) (use g(2) b in simp)
  have tc: "tree fmt g (l - 1) ?c" by (rule tree_cong [OF _ tree_below(4) [OF t pg c]]) (use g(2) b in simp)
  from f tc have "\<exists>cg. f ?c g = Some (\<lambda>q. if q = ?c then Some cg else if q \<in> subtree fmt g (l - 1) ?c then None else g q)"
    unfolding frees_below_def by blast
  then obtain cg where
    cg: "f ?c g = Some (\<lambda>q. if q = ?c then Some cg else if q \<in> subtree fmt h (l - 1) ?c then None else g q)"
    unfolding s ..
  have np: "p \<noteq> ?c" "p \<notin> subtree fmt h (l - 1) ?c" using tree_below(1) [OF t pg, of i] subtree_refl [of ?c] unfolding b by auto
  show ?thesis
    by (rule exI, rule conjI, rule cg) (use np g(1) b in \<open>auto simp: free_page_def fun_eq_iff\<close>)
qed

text \<open>
  One level of the recursion.  At an entry that leads to no table the body may write to \<open>p\<close>; at one
  that does it runs \<open>c\<close> on the table, may write to \<open>p\<close>, and frees the table.
\<close>

lemma free_level:
  assumes c: "frees_below fmt (l - 1) c" and t: "tree fmt h l p"
    and none: "\<And>i g gi. g p = Some gi \<Longrightarrow> \<not> is_table fmt l (gi i) \<Longrightarrow>
      \<exists>gi'. f i g = Some (g(p \<mapsto> gi')) \<and> (\<forall>j>i. gi' j = gi j)"
    and table: "\<And>i g gi ph. g p = Some gi \<Longrightarrow> is_table fmt l (gi i) \<Longrightarrow> c (fmt_addr fmt (gi i)) g = Some ph \<Longrightarrow> ph p = Some gi \<Longrightarrow>
      \<exists>gi'. f i g = free_page (fmt_addr fmt (gi i)) (ph(p \<mapsto> gi')) \<and> (\<forall>j>i. gi' j = gi j)"
  shows "\<exists>pg'. each_entry f [0..<512] h = Some (\<lambda>q. if q = p then Some pg' else if q \<in> subtree fmt h l p then None else h q)"
proof -
  have "h p \<noteq> None" using t unfolding tree_def using follow.simps(1) by blast
  then obtain pg where pg: "h p = Some pg" by blast
  show ?thesis
  proof (rule free_loop [OF t pg])
    fix i :: nat and g gi assume g: "g p = Some gi" "gi i = pg i" "\<And>q. q \<in> below fmt h l pg i \<Longrightarrow> g q = h q"
    show "\<exists>gi'. f i g = Some (\<lambda>q. if q = p then Some gi' else if q \<in> below fmt h l pg i then None else g q)
        \<and> (\<forall>j>i. gi' j = gi j)"
    proof (cases "is_table fmt l (pg i)")
      case False
      then have "\<not> is_table fmt l (gi i)" using g(2) by simp
      from none [of g gi i, OF g(1) this] obtain gi' where "f i g = Some (g(p \<mapsto> gi'))" "\<forall>j>i. gi' j = gi j" by blast
      then show ?thesis using False by (intro exI [of _ gi']) (auto simp: below_def fun_eq_iff)
    next
      case True
      from free_child [OF c t pg True g(1,3)] obtain ph where ph: "c (fmt_addr fmt (pg i)) g = Some ph" "ph p = Some gi"
        by blast
      from table [of g gi i ph, unfolded g(2), OF g(1) True ph] obtain gi'
        where "f i g = free_page (fmt_addr fmt (pg i)) (ph(p \<mapsto> gi'))" "\<forall>j>i. gi' j = gi j" by blast
      then show ?thesis using free_child [OF c t pg True g(1,3), of gi'] ph by auto
    qed
  qed
qed

lemma pt_write_eq: "h p = Some pg \<Longrightarrow> pt_write p i v h = h(p \<mapsto> pg(i := v))"
  by (simp add: pt_write_def)

text \<open>At the lowest level there is nothing to free.\<close>

lemma frees_below_0: "frees_below fmt 0 (\<lambda>p h. Some h)"
proof -
  have "q = p" if q: "q \<in> subtree fmt h 0 p" for h p q
  proof -
    obtain "is" where f: "follow fmt h 0 p is = Some q" using q by (auto simp: subtree_def)
    then have "is = []" using follow_length [OF f] by simp
    then show ?thesis using f by simp
  qed
  then have same: "(\<lambda>q. if q = p then Some pg else if q \<in> subtree fmt h 0 p then None else h q) = h" if "h p = Some pg" for h p pg
    using that by (auto simp: fun_eq_iff)
  show ?thesis
    unfolding frees_below_def
  proof (intro allI impI)
    fix p h assume "tree fmt h 0 p"
    then have "h p \<noteq> None" unfolding tree_def using follow.simps(1) by blast
    then obtain pg where "h p = Some pg" by blast
    from same [of h p pg, OF this] show "\<exists>pg. Some h = Some (\<lambda>q. if q = p then Some pg else if q \<in> subtree fmt h 0 p then None else h q)"
      by (intro exI [of _ pg]) simp
  qed
qed

text \<open>The page itself goes last.\<close>

lemma free_root:
  assumes "\<exists>pg. r = Some (\<lambda>q. if q = p then Some pg else if q \<in> subtree fmt h l p then None else h q)"
  shows "(case r of None \<Rightarrow> None | Some h1 \<Rightarrow> free_page p h1) = Some (\<lambda>q. if q \<in> subtree fmt h l p then None else h q)"
  using assms by (auto simp: free_page_def fun_eq_iff)

lemma keep_entry: "g p = Some gi \<Longrightarrow> \<exists>gi'. g = g(p \<mapsto> gi') \<and> (\<forall>j>i. gi' j = gi j)"
  and keep_entry_free: "g p = Some gi \<Longrightarrow> \<exists>gi'. free_page q g = free_page q (g(p \<mapsto> gi')) \<and> (\<forall>j>i. gi' j = gi j)"
  by (intro exI [of _ gi], simp add: fun_upd_idem)+

end
