(* ===== verification/Slim_Range.thy ===== *)
theory Slim_Range
  imports Slim_Host Slim_Mm
begin

text \<open>
  What both page table engines do to a nested table, stated once for any entry format that obeys
  \<open>pt_laws\<close>: installing one entry, clearing one entry, dropping a directory entry with the table
  below it, and the two loops that take a range of host addresses out of the table.  The loops are
  the locale \<open>clearing_loops\<close>; each engine shows that a round of its own loop is a round here.
\<close>

section \<open>Blocks of 2 MiB\<close>

definition align_down :: "u64 \<Rightarrow> u64 \<Rightarrow> u64" where
  "align_down x a = x AND NOT (a - 1)"

definition align_up :: "u64 \<Rightarrow> u64 \<Rightarrow> u64" where
  "align_up x a = (x + a - 1) AND NOT (a - 1)"

lemma unat_align_down: "unat (align_down s 0x200000) = 2097152 * (unat s div 2097152)"
  using and_not_mask_unat [of s 21] by (simp add: align_down_def hpage_mask minus_mod_eq_mult_div)

lemma unat_align_up:
  assumes "unat x \<le> 2 ^ 63"
  shows "unat (align_up x 0x200000) = 2097152 * ((unat x + 2097151) div 2097152)"
proof -
  have "unat (x + 2097151) = unat x + 2097151" using unat_add_no_wrap [of x 2097151] assms by simp
  then show ?thesis
    using and_not_mask_unat [of "x + 2097151" 21]
    by (simp add: align_up_def hpage_mask add.commute minus_mod_eq_mult_div)
qed

lemma align_down_less: "align_down s 0x200000 < s \<longleftrightarrow> \<not> 2097152 dvd unat s"
  by (simp add: word_less_nat_alt unat_align_down dvd_eq_mod_eq_0)
    (metis div_mult_mod_eq less_add_same_cancel1 mult.commute neq0_conv)

lemma align_up_aligned:
  assumes "2097152 dvd unat s" "unat s \<le> 2 ^ 63"
  shows "align_up s 0x200000 = s"
proof -
  obtain q where q: "unat s = 2097152 * q" using assms(1) by (auto elim: dvdE)
  have "unat (align_up s 0x200000) = unat s" unfolding unat_align_up [OF assms(2)] by (simp add: q)
  then show ?thesis by (simp add: word_unat_eq_iff)
qed

text \<open>The test of the first loop for a block that is covered in part never sees the end of the range.\<close>

lemma partial_test:
  assumes "s < e" "unat e \<le> 2 ^ 63"
  shows "s > align_down s 0x200000 \<or> e < align_up s 0x200000 \<longleftrightarrow> \<not> 2097152 dvd unat s"
proof (cases "2097152 dvd unat s")
  case True
  have "align_up s 0x200000 = s"
    by (rule align_up_aligned [OF True]) (use assms in \<open>simp add: word_less_nat_alt\<close>)
  then show ?thesis using True assms(1) by (auto simp: align_down_less)
qed (simp add: align_down_less)

lemma next_page:
  assumes "s < (e :: u64)" "unat e \<le> 2 ^ 63"
  shows "unat (s + 4096) = unat s + 4096"
  using unat_add_no_wrap [of s 4096] assms by (simp add: word_less_nat_alt)

lemma next_block:
  assumes "s < e" "unat e \<le> 2 ^ 63"
  shows "unat (align_down s 0x200000 + 0x200000) = 2097152 * (unat s div 2097152) + 2097152"
proof -
  have "2097152 * (unat s div 2097152) \<le> unat s" by simp
  then show ?thesis
    using unat_add_no_wrap [of "align_down s 0x200000" "0x200000"] assms
    by (simp add: word_less_nat_alt unat_align_down)
qed

lemma page_between: "4096 dvd s \<Longrightarrow> 4096 dvd k \<Longrightarrow> s \<le> k \<Longrightarrow> k < s + 4096 \<Longrightarrow> k = (s :: nat)"
  by (elim dvdE) auto

lemma page_start_aligned: "4096 dvd unat x \<Longrightarrow> x AND NOT 4095 = (x :: u64)"
  by (simp only: word_unat_eq_iff unat_page_start dvd_imp_mod_0 diff_zero)

lemma page_round_up:
  assumes "4096 dvd unat x" "unat x \<le> 2 ^ 63"
  shows "(x + 4096 - 1) AND NOT 4095 = (x :: u64)"
proof -
  have e: "x + 4096 - 1 = x + 4095" by simp
  have "unat (x + 4095) = unat x + 4095" using unat_add_no_wrap [of x 4095] assms(2) by simp
  moreover have "(unat x + 4095) mod 4096 = 4095" using assms(1) by (auto elim!: dvdE)
  ultimately have "unat ((x + 4095) AND NOT 4095) = unat x"
    by (simp only: unat_page_start diff_add_inverse2)
  then show ?thesis unfolding e by (simp only: word_unat_eq_iff)
qed

text \<open>The page of an address.\<close>

lemma page_of_address:
  assumes "4096 dvd s" "s \<le> unat (k :: u64)"
  shows "s \<le> unat (k AND NOT 4095)" "unat (k AND NOT 4095) \<le> unat k" "4096 dvd unat (k AND NOT 4095)"
    "unat (k AND NOT 4095) div 2097152 = unat k div 2097152"
proof -
  have u: "unat (k AND NOT 4095) = 4096 * (unat k div 4096)" by (simp only: unat_page_start minus_mod_eq_mult_div)
  have "s div 4096 \<le> unat k div 4096" using assms(2) by (rule div_le_mono)
  then show "s \<le> unat (k AND NOT 4095)" unfolding u using assms(1) by auto
  show "unat (k AND NOT 4095) \<le> unat k" "4096 dvd unat (k AND NOT 4095)" unfolding u by simp_all
  have "x div 2097152 = x div 4096 div 512" for x :: nat by (simp add: div_mult2_eq [symmetric])
  then show "unat (k AND NOT 4095) div 2097152 = unat k div 2097152" unfolding u by simp
qed

lemma same_page_leaf: "leaf fmt h root (g AND NOT 4095) = leaf fmt h root g"
proof (rule leaf_same_slot, rule same_slot_page)
  have "unat (g AND NOT 4095) = 4096 * (unat g div 4096)" by (simp only: unat_page_start minus_mod_eq_mult_div)
  then show "unat (g AND NOT 4095) div 4096 = unat g div 4096" by simp
qed

lemma unat_inval: "unat (- 1 :: u64) = 2 ^ 64 - 1"
  by (simp add: unsigned_minus_1_eq_mask mask_eq_exp_minus_1)

lemma page_not_inval: "(g AND NOT 4095 :: u64) \<noteq> ADDR_INVAL"
proof
  assume "g AND NOT 4095 = ADDR_INVAL"
  then have "unat (g AND NOT 4095) = unat (- 1 :: u64)" by (simp only:)
  moreover have "unat (g AND NOT 4095) = 4096 * (unat g div 4096)" by (simp only: unat_page_start minus_mod_eq_mult_div)
  ultimately have "4096 dvd (2 ^ 64 - 1 :: nat)" unfolding unat_inval by (metis dvd_triv_left)
  then show False by simp
qed

section \<open>Page addresses and statistics\<close>

definition page_aligned :: "u64 \<Rightarrow> bool" where
  "page_aligned q \<longleftrightarrow> q AND 4095 = 0"

lemma aligned_or_flags:
  assumes "q AND 4095 = (0 :: u64)" "f AND 4095 = f"
  shows "(q OR f) AND NOT 4095 = q" "(q OR f) AND 4095 = f"
proof -
  have "f AND NOT 4095 = 0" 
    by (subst assms(2) [symmetric]) (simp only: and.assoc bit.conj_cancel_right bit.conj_zero_right)
  moreover have "q AND NOT 4095 = q" using and_plus_and_not [of q 4095] assms(1) by simp
  ultimately show "(q OR f) AND NOT 4095 = q" by (simp only: bit.conj_disj_distrib2 or.right_neutral)
  show "(q OR f) AND 4095 = f" by (simp only: bit.conj_disj_distrib2 assms or.left_neutral)
qed

lemma and_sub_mask: "f AND 4095 = f \<Longrightarrow> (x :: u64) AND 4095 = y \<Longrightarrow> x AND f = y AND f"
proof -
  assume f: "f AND 4095 = f" and x: "x AND 4095 = y"
  have "x AND f = x AND (4095 AND f)" by (simp only: and.commute [of 4095 f] f)
  then show ?thesis by (simp only: and.assoc [symmetric] x)
qed

text \<open>A change to the page statistics of an instance only.\<close>

definition stat_only :: "'v vm_instance \<Rightarrow> 'v vm_instance \<Rightarrow> bool" where
  "stat_only i i' \<longleftrightarrow> (\<exists>a b. i' = i\<lparr>ept_4k_pages := a, ept_2m_pages := b\<rparr>)"

lemma stat_only_refl [simp]: "stat_only i i"
  unfolding stat_only_def by (rule exI [of _ "ept_4k_pages i"], rule exI [of _ "ept_2m_pages i"]) simp

lemma stat_only_root: "stat_only i i' \<Longrightarrow> ept_root i' = ept_root i"
  by (auto simp: stat_only_def)

lemma stat_only_trans: "stat_only i i1 \<Longrightarrow> stat_only i1 i2 \<Longrightarrow> stat_only i i2"
  by (auto simp: stat_only_def) (rule exI, rule exI, rule refl)

lemma stat_only_hva: "stat_only i i' \<Longrightarrow> hva_to_gpa i' = hva_to_gpa i"
  by (auto simp: stat_only_def hva_to_gpa_def regions_def fun_eq_iff)

lemma stat_only_counters: "stat_only i (i\<lparr>ept_4k_pages := a\<rparr>)" "stat_only i (i\<lparr>ept_2m_pages := a\<rparr>)"
proof -
  have "i\<lparr>ept_4k_pages := a\<rparr> = i\<lparr>ept_4k_pages := a, ept_2m_pages := ept_2m_pages i\<rparr>"
    "i\<lparr>ept_2m_pages := a\<rparr> = i\<lparr>ept_4k_pages := ept_4k_pages i, ept_2m_pages := a\<rparr>" by simp_all
  then show "stat_only i (i\<lparr>ept_4k_pages := a\<rparr>)" "stat_only i (i\<lparr>ept_2m_pages := a\<rparr>)"
    unfolding stat_only_def by blast+
qed

section \<open>Installing an entry\<close>

text \<open>
  The walk and the write of a fault.  \<open>None\<close> in the result: no entry was written, for want of
  memory or because a large entry is in the way; otherwise the entry that was there.
\<close>

definition pt_commit :: "pt_format \<Rightarrow> page_alloc \<Rightarrow> u64 \<Rightarrow> u64 \<Rightarrow> nat \<Rightarrow> u64 \<Rightarrow> pt_heap
    \<Rightarrow> (u64 option \<times> pt_heap) option" where
  "pt_commit fmt galloc root gpa level v h =
     (case pt_walk fmt galloc gpa level True 3 root h of
        (Wild, _) \<Rightarrow> None
      | (Fail _, h1) \<Rightarrow> Some (None, h1)
      | (Entry p idx, h1) \<Rightarrow>
          (case pt_read h1 p idx of
             None \<Rightarrow> None
           | Some old \<Rightarrow>
               if fmt_present fmt old \<and> fmt_huge fmt old \<and> level \<noteq> 1 then Some (None, h1)
               else Some (Some old, pt_write p idx v h1)))"

text \<open>What one fault may do to the translation.\<close>

definition maps_only :: "pt_format \<Rightarrow> u64 \<Rightarrow> (nat \<Rightarrow> u64 \<Rightarrow> bool) \<Rightarrow> u64 \<Rightarrow> pt_heap \<Rightarrow> pt_heap \<Rightarrow> bool" where
  "maps_only fmt root ok gpa h h' \<longleftrightarrow> (\<forall>g. leaf fmt h' root g = leaf fmt h root g
     \<or> (\<exists>lv e. ok lv e \<and> same_slot lv gpa g \<and> leaf fmt h' root g = Some (lv, e)))"

lemma maps_only_refl: "(\<And>g. leaf fmt h' root g = leaf fmt h root g) \<Longrightarrow> maps_only fmt root ok gpa h h'"
  by (simp add: maps_only_def)

lemma maps_only_mono:
  "maps_only fmt root ok gpa h h' \<Longrightarrow> (\<And>lv e. ok lv e \<Longrightarrow> ok' lv e) \<Longrightarrow> maps_only fmt root ok' gpa h h'"
  unfolding maps_only_def by blast

context pt_laws
begin

lemma install_small:
  assumes ext: "pt_extends root h h1" and lk: "lookup_ok root True 0 gpa h1 (Entry p idx)"
    and v: "fmt_present fmt v" "\<not> fmt_huge fmt v"
  obtains old where "pt_read h1 p idx = Some old"
    "fmt_present fmt old \<and> fmt_huge fmt old \<and> pt_clean fmt h root \<longrightarrow> leaf fmt h root gpa = Some (1, old)"
    "\<not> (fmt_present fmt old \<and> fmt_huge fmt old) \<longrightarrow>
       pt_wf fmt (pt_write p idx v h1) root
       \<and> (pt_clean fmt h root \<longrightarrow> pt_clean fmt (pt_write p idx v h1) root)
       \<and> (\<forall>g. leaf fmt (pt_write p idx v h1) root g =
            (if same_slot 0 gpa g then Some (0, v) else leaf fmt h root g))"
proof -
  have wf: "pt_wf fmt h1 root" and lf: "\<And>g. leaf fmt h1 root g = leaf fmt h root g"
    and cl: "pt_clean fmt h root \<longrightarrow> pt_clean fmt h1 root"
    using ext by (auto simp: pt_extends_def)
  from wf lk show ?thesis
  proof (cases rule: lookup_read)
    case (small e)
    have "leaf fmt h root gpa = Some (1, e)" if "pt_clean fmt h root" "fmt_huge fmt e"
    proof -
      have "entry_at fmt h1 root (gpa_path gpa 0) idx = Some e"
        using small(1,3) by (simp add: entry_at_def pt_read_def)
      then show ?thesis using that cl unfolding pt_clean_def by fastforce
    qed
    moreover have "pt_clean fmt (pt_write p idx v h1) root" if "pt_clean fmt h root"
      by (rule clean_write [OF wf small(1)]) (use v cl that in \<open>simp_all add: is_table_def\<close>)
    ultimately show ?thesis
      using small write0 [OF wf small(1), of v] v by (intro that [of e]) (auto simp: lf)
  next
    case (large e)
    then show ?thesis by (intro that [of e]) (auto simp: lf)
  qed
qed

lemma install_large:
  assumes ext: "pt_extends root h h1" and lk: "lookup_ok root True 1 gpa h1 (Entry p idx)"
    and v: "fmt_present fmt v" "fmt_huge fmt v"
  obtains old where "pt_read h1 p idx = Some old" "pt_wf fmt (pt_write p idx v h1) root"
    "pt_clean fmt h root \<longrightarrow> pt_clean fmt (pt_write p idx v h1) root"
    "\<forall>g. leaf fmt (pt_write p idx v h1) root g =
            (if same_slot 1 gpa g then Some (1, v) else leaf fmt h root g)"
proof -
  have wf: "pt_wf fmt h1 root" and lf: "\<And>g. leaf fmt h1 root g = leaf fmt h root g"
    and cl: "pt_clean fmt h root \<longrightarrow> pt_clean fmt h1 root"
    using ext by (auto simp: pt_extends_def)
  have f: "follow fmt h1 3 root (gpa_path gpa 1) = Some p" "idx = ADDR_TO_IDX gpa 1"
    using lk by (auto simp: lookup_ok_def)
  then obtain pg where pg: "h1 p = Some pg" using wf unfolding pt_wf_def by blast
  have "pt_clean fmt (pt_write p idx v h1) root" if "pt_clean fmt h root"
    by (rule clean_write [OF wf f(1)]) (use v cl that in \<open>simp_all add: is_table_def\<close>)
  with write1 [OF wf f(1), of v] v f(2) pg show ?thesis
    by (intro that [of "pg idx"]) (auto simp: lf pt_read_def)
qed

text \<open>
  Committing an entry of the right size never goes astray: either the table only gained page table
  pages, or the slot of the address now holds the entry and no other translation has changed.
\<close>

lemma commit_cases:
  assumes ga: "galloc_ok galloc" and wf: "pt_wf fmt h root"
    and lv: "level = 0 \<and> \<not> fmt_huge fmt v \<or> level = 1 \<and> fmt_huge fmt v" and pr: "fmt_present fmt v"
  obtains (kept) h1 where "pt_commit fmt galloc root gpa level v h = Some (None, h1)" "pt_extends root h h1"
      "(\<exists>r. fst (pt_walk fmt galloc gpa level True 3 root h) = Fail r)
       \<or> (pt_clean fmt h root \<longrightarrow> (\<exists>e. leaf fmt h root gpa = Some (1, e)))"
  | (installed) old h1 where "pt_commit fmt galloc root gpa level v h = Some (Some old, h1)"
      "pt_wf fmt h1 root" "pt_clean fmt h root \<longrightarrow> pt_clean fmt h1 root"
      "\<forall>g. leaf fmt h1 root g = (if same_slot level gpa g then Some (level, v) else leaf fmt h root g)"
proof -
  obtain res h1 where l: "pt_walk fmt galloc gpa level True 3 root h = (res, h1)" by fastforce
  then have ext: "pt_extends root h h1" and lk: "lookup_ok root True level gpa h1 res"
    using walk_root [OF ga _ wf, of level gpa True res h1] lv by auto
  show ?thesis
  proof (cases res)
    case Wild
    then show ?thesis using lk by (simp add: lookup_ok_def)
  next
    case (Fail r)
    then show ?thesis using l ext by (intro kept [of h1]) (auto simp: pt_commit_def)
  next
    case (Entry p idx)
    from lv show ?thesis
    proof
      assume lv0: "level = 0 \<and> \<not> fmt_huge fmt v"
      then have "lookup_ok root True 0 gpa h1 (Entry p idx)" "\<not> fmt_huge fmt v" using lk Entry by simp_all
      from install_small [OF ext this(1) pr this(2)] obtain old where
        old: "pt_read h1 p idx = Some old"
          "fmt_present fmt old \<and> fmt_huge fmt old \<and> pt_clean fmt h root \<longrightarrow> leaf fmt h root gpa = Some (1, old)"
          "\<not> (fmt_present fmt old \<and> fmt_huge fmt old) \<longrightarrow>
             pt_wf fmt (pt_write p idx v h1) root
             \<and> (pt_clean fmt h root \<longrightarrow> pt_clean fmt (pt_write p idx v h1) root)
             \<and> (\<forall>g. leaf fmt (pt_write p idx v h1) root g =
                  (if same_slot 0 gpa g then Some (0, v) else leaf fmt h root g))" .
      show ?thesis
      proof (cases "fmt_present fmt old \<and> fmt_huge fmt old")
        case True
        then show ?thesis using l Entry old(1,2) lv0 ext by (intro kept [of h1]) (auto simp: pt_commit_def)
      next
        case False
        then show ?thesis
          using l Entry old(1,3) lv0 by (intro installed [of old "pt_write p idx v h1"]) (auto simp: pt_commit_def)
      qed
    next
      assume lv1: "level = 1 \<and> fmt_huge fmt v"
      then have "lookup_ok root True 1 gpa h1 (Entry p idx)" "fmt_huge fmt v" using lk Entry by simp_all
      from install_large [OF ext this(1) pr this(2)] obtain old where
        old: "pt_read h1 p idx = Some old" "pt_wf fmt (pt_write p idx v h1) root"
          "pt_clean fmt h root \<longrightarrow> pt_clean fmt (pt_write p idx v h1) root"
          "\<forall>g. leaf fmt (pt_write p idx v h1) root g = (if same_slot 1 gpa g then Some (1, v) else leaf fmt h root g)" .
      then show ?thesis
        using l Entry lv1 by (intro installed [of old "pt_write p idx v h1"]) (auto simp: pt_commit_def)
    qed
  qed
qed

end

section \<open>Removing translations\<close>

definition clear_slot :: "u64 \<Rightarrow> nat \<Rightarrow> u64 \<Rightarrow> pt_heap \<Rightarrow> pt_heap" where
  "clear_slot p idx e h = (if e = 0 then h else pt_write p idx 0 h)"

text \<open>\<open>keep\<close>: the entry has no table below it to give back; \<open>fa\<close>: the address of that table.\<close>

definition drop_dir :: "(u64 \<Rightarrow> bool) \<Rightarrow> (u64 \<Rightarrow> u64) \<Rightarrow> u64 \<Rightarrow> nat \<Rightarrow> u64 \<Rightarrow> pt_heap \<Rightarrow> pt_heap" where
  "drop_dir keep fa p idx e h =
     (if e = 0 then h else if keep e then pt_write p idx 0 h else (pt_write p idx 0 h)(fa e := None))"

lemma leaf_large_slot:
  assumes "leaf fmt h root g = Some (1, e)" "same_slot 1 g g'"
  shows "leaf fmt h root g' = Some (1, e)"
proof -
  have p: "gpa_path g' 0 = gpa_path g 0" "gpa_path g' 1 = gpa_path g 1" "ADDR_TO_IDX g' 1 = ADDR_TO_IDX g 1"
    using assms(2) by (simp_all add: same_slot_def gpa_path_simps)
  have "entry_at fmt h root (gpa_path g 0) (ADDR_TO_IDX g 0) = None"
    using assms(1) by (auto simp: leaf_def split: option.splits if_splits)
  then have "entry_at fmt h root (gpa_path g 0) j = None" for j
    by (auto simp: entry_at_def split: option.splits)
  with assms(1) p show ?thesis by (auto simp: leaf_def)
qed

text \<open>A step that only removes translations and keeps the table in order.\<close>

definition removes :: "pt_format \<Rightarrow> u64 \<Rightarrow> pt_heap \<Rightarrow> pt_heap \<Rightarrow> bool" where
  "removes fmt root h h' \<longleftrightarrow> pt_wf fmt h' root \<and> pt_clean fmt h' root
     \<and> (\<forall>g. leaf fmt h' root g = None \<or> leaf fmt h' root g = leaf fmt h root g)"

lemma removes_refl: "pt_wf fmt h root \<Longrightarrow> pt_clean fmt h root \<Longrightarrow> removes fmt root h h"
  by (simp add: removes_def)

lemma removes_trans: "removes fmt root h h1 \<Longrightarrow> removes fmt root h1 h2 \<Longrightarrow> removes fmt root h h2"
  unfolding removes_def by metis

lemma removesD:
  assumes "removes fmt root h h'"
  shows "pt_wf fmt h' root" "pt_clean fmt h' root"
    "leaf fmt h root g = None \<Longrightarrow> leaf fmt h' root g = None"
    "leaf fmt h' root g = Some x \<Longrightarrow> leaf fmt h root g = Some x"
  using assms unfolding removes_def by (blast, blast, metis, metis option.distinct(1))

context pt_laws
begin

lemma removes_write:
  assumes wf: "pt_wf fmt h root" and cl: "pt_clean fmt h root"
    and f: "follow fmt h 3 root (gpa_path g lv) = Some p" and lv: "lv = 0 \<or> lv = 1"
  shows "removes fmt root h (pt_write p (ADDR_TO_IDX g lv) 0 h)"
    "same_slot lv g g' \<Longrightarrow> leaf fmt (pt_write p (ADDR_TO_IDX g lv) 0 h) root g' = None"
proof -
  note z = zero_absent zero_small
  have c: "pt_clean fmt (pt_write p (ADDR_TO_IDX g lv) 0 h) root"
    by (rule clean_write [OF wf f _ cl]) (use lv z in \<open>auto simp: is_table_def\<close>)
  show "removes fmt root h (pt_write p (ADDR_TO_IDX g lv) 0 h)"
    using lv c write0 [OF wf, of g p 0] write1 [OF wf, of g p 0] f z
    by (elim disjE) (simp_all add: removes_def)
  show "same_slot lv g g' \<Longrightarrow> leaf fmt (pt_write p (ADDR_TO_IDX g lv) 0 h) root g' = None"
    using lv write0(2) [OF wf, of g p 0 g'] write1(2) [OF wf, of g p 0 g'] f z by (elim disjE) simp_all
qed

text \<open>What a walk to the lowest level finds, and what clearing the entry it finds does.\<close>

lemma walk_page_cases:
  assumes wf: "pt_wf fmt h root" and cl: "pt_clean fmt h root"
  obtains (unmapped) r where "fst (pt_walk fmt no_alloc g 0 False 3 root h) = Fail r" "leaf fmt h root g = None"
  | (page) p idx e where "fst (pt_walk fmt no_alloc g 0 False 3 root h) = Entry p idx" "pt_read h p idx = Some e"
      "\<not> fmt_huge fmt e" "fmt_present fmt e \<or> e = 0" "leaf fmt h root g = (if fmt_present fmt e then Some (0, e) else None)"
      "removes fmt root h (clear_slot p idx e h)" "leaf fmt (clear_slot p idx e h) root g = None"
  | (block) p idx e where "fst (pt_walk fmt no_alloc g 0 False 3 root h) = Entry p idx" "pt_read h p idx = Some e"
      "fmt_huge fmt e" "leaf fmt h root g = Some (1, e)" "removes fmt root h (clear_slot p idx e h)"
      "\<And>g'. same_slot 1 g g' \<Longrightarrow> leaf fmt (clear_slot p idx e h) root g' = None"
proof -
  obtain res where r: "pt_walk fmt no_alloc g 0 False 3 root h = (res, h)" "lookup_ok root False 0 g h res"
    using walk_root_nocreate [OF _ wf, of 0] by auto
  show ?thesis
  proof (cases res)
    case Wild
    then show ?thesis using r(2) by (simp add: lookup_ok_def)
  next
    case (Fail x)
    then show ?thesis using r by (intro unmapped [of x]) (auto simp: lookup_ok_def)
  next
    case (Entry p idx)
    have l: "fst (pt_walk fmt no_alloc g 0 False 3 root h) = Entry p idx" using r Entry by simp
    from wf r(2) [unfolded Entry] show ?thesis
    proof (cases rule: lookup_read)
      case (small e)
      have "entry_at fmt h root (gpa_path g 0) idx = Some e"
        using small(1,3) by (simp add: entry_at_def pt_read_def)
      then have e: "fmt_present fmt e \<or> e = 0" "\<not> fmt_huge fmt e"
        using cl unfolding pt_clean_def by (auto dest!: spec)
      show ?thesis
      proof (rule page [OF l small(3) e(2,1) small(4)])
        show "removes fmt root h (clear_slot p idx e h)"
          using removes_write(1) [OF wf cl small(1)] small(2) removes_refl [OF wf cl] by (simp add: clear_slot_def)
        show "leaf fmt (clear_slot p idx e h) root g = None"
          using removes_write(2) [OF wf cl small(1)] small(2,4) zero_absent by (auto simp: clear_slot_def)
      qed
    next
      case (large e)
      have e: "e \<noteq> 0" using large(5) zero_absent by auto
      note w = removes_write [OF wf cl large(1)]
      show ?thesis
        by (rule block [OF l large(3,6,4)]) (use w e large(2) in \<open>simp_all add: clear_slot_def\<close>)
    qed
  qed
qed

text \<open>
  Clearing a directory entry drops the table below it, which nothing else reaches: the address given
  back is that table's, or no address of the table at all.
\<close>

lemma drop_dir_removes:
  assumes wf: "pt_wf fmt h root" and cl: "pt_clean fmt h root"
    and f: "follow fmt h 3 root (gpa_path g 1) = Some p" and e: "pt_read h p (ADDR_TO_IDX g 1) = Some e"
    and keep: "fmt_huge fmt e \<Longrightarrow> keep e"
    and fa: "\<not> keep e \<Longrightarrow> fa e = fmt_addr fmt e \<or> (\<forall>h js. follow fmt h 3 root js \<noteq> Some (fa e))"
  shows "removes fmt root h (drop_dir keep fa p (ADDR_TO_IDX g 1) e h)"
    "same_slot 1 g g' \<Longrightarrow> leaf fmt (drop_dir keep fa p (ADDR_TO_IDX g 1) e h) root g' = None"
proof -
  let ?i = "ADDR_TO_IDX g 1"
  let ?h = "pt_write p ?i 0 h"
  obtain pg where pg: "h p = Some pg" "pg ?i = e" using e by (auto simp: pt_read_def)
  have "entry_at fmt h root (gpa_path g 1) ?i = Some e" using f pg by (simp add: entry_at_def)
  then have pe: "fmt_present fmt e \<or> e = 0" using cl unfolding pt_clean_def by (auto dest!: spec)
  note w = removes_write [OF wf cl f]
  have h: "?h = h(p \<mapsto> pg(?i := 0))" by (simp add: pt_write_def pg)
  have nr: "\<forall>js. follow fmt ?h 3 root js \<noteq> Some (fa e)" if "fmt_present fmt e" "\<not> keep e"
  proof (intro allI notI)
    fix js assume j: "follow fmt ?h 3 root js = Some (fa e)"
    then have a: "fa e = fmt_addr fmt e" using fa [OF that(2)] by blast
    have old: "follow fmt h 3 root (gpa_path g 1 @ [?i]) = Some (fmt_addr fmt e)"
      using f pg that keep by (auto simp: follow_append is_table_def)
    have "take (Suc (length (gpa_path g 1))) js \<noteq> gpa_path g 1 @ [?i]" "follow fmt h 3 root js = Some (fmt_addr fmt e)"
      using j unfolding a h follow_write [OF wf f pg(1)] by (auto simp: zero_not_table split: if_splits)
    moreover from this(2) old have "js = gpa_path g 1 @ [?i]" using wf unfolding pt_wf_def by blast
    ultimately show False by simp
  qed
  show "removes fmt root h (drop_dir keep fa p ?i e h)"
  proof (cases "e = 0 \<or> keep e")
    case True
    then show ?thesis using w(1) removes_refl [OF wf cl] by (auto simp: drop_dir_def)
  next
    case False
    then have n: "\<forall>js. follow fmt ?h 3 root js \<noteq> Some (fa e)" using nr pe by blast
    have "removes fmt root ?h (?h(fa e := None))"
      using removesD(1,2) [OF w(1)] wf_unreachable [OF _ n] clean_unreachable [OF n] leaf_unreachable [OF n]
      by (auto simp: removes_def)
    then show ?thesis using False removes_trans [OF w(1)] by (auto simp: drop_dir_def)
  qed
  show "leaf fmt (drop_dir keep fa p ?i e h) root g' = None" if s: "same_slot 1 g g'"
  proof (cases "e = 0")
    case True
    have "leaf fmt h root g' = None"
      by (rule leaf_absent [of _ _ _ 1 p pg]) (use f pg True s zero_absent in \<open>auto simp: same_slot_def\<close>)
    then show ?thesis using True by (simp add: drop_dir_def)
  next
    case False
    then show ?thesis using w(2) s nr pe leaf_unreachable [of fmt ?h root "fa e" None g'] by (auto simp: drop_dir_def)
  qed
qed

lemma walk_dir_cases:
  assumes wf: "pt_wf fmt h root" and cl: "pt_clean fmt h root"
    and keep: "\<And>e. fmt_huge fmt e \<Longrightarrow> keep e"
    and fa: "\<And>e. \<not> keep e \<Longrightarrow> fa e = fmt_addr fmt e \<or> (\<forall>h js. follow fmt h 3 root js \<noteq> Some (fa e))"
  obtains (unmapped) r where "fst (pt_walk fmt no_alloc g 1 False 3 root h) = Fail r"
      "\<And>g'. same_slot 1 g g' \<Longrightarrow> leaf fmt h root g' = None"
  | (dir) p idx e where "fst (pt_walk fmt no_alloc g 1 False 3 root h) = Entry p idx" "pt_read h p idx = Some e"
      "removes fmt root h (drop_dir keep fa p idx e h)"
      "\<And>g'. same_slot 1 g g' \<Longrightarrow> leaf fmt (drop_dir keep fa p idx e h) root g' = None"
proof -
  obtain res where r: "pt_walk fmt no_alloc g 1 False 3 root h = (res, h)" "lookup_ok root False 1 g h res"
    using walk_root_nocreate [OF _ wf, of 1] by auto
  show ?thesis
  proof (cases res)
    case Wild
    then show ?thesis using r(2) by (simp add: lookup_ok_def)
  next
    case (Fail x)
    have "leaf fmt h root g' = None" if "same_slot 1 g g'" for g'
    proof -
      have "pt_walk fmt no_alloc g' 1 False 3 root h = pt_walk fmt no_alloc g 1 False 3 root h"
        by (rule pt_walk_same_index) (use same_slot1_index [OF that] in \<open>auto intro: sym\<close>)
      then have "lookup_ok root False 1 g' h (Fail x)"
        using r(1) Fail walk_root_nocreate [OF _ wf, of 1 no_alloc g'] by auto
      then show ?thesis by (auto simp: lookup_ok_def)
    qed
    then show ?thesis using r(1) Fail by (intro unmapped [of x]) auto
  next
    case (Entry p idx)
    then have f: "follow fmt h 3 root (gpa_path g 1) = Some p" "idx = ADDR_TO_IDX g 1"
      using r(2) by (auto simp: lookup_ok_def)
    then obtain pg where pg: "h p = Some pg" using wf unfolding pt_wf_def by blast
    then have e: "pt_read h p (ADDR_TO_IDX g 1) = Some (pg idx)" using f(2) by (simp add: pt_read_def)
    show ?thesis
      by (rule dir [of p idx "pg idx"]) (use r(1) Entry e f drop_dir_removes [of h root g p "pg idx" keep fa, OF wf cl f(1) e keep fa] in auto)
  qed
qed

end

section \<open>The two loops over a range\<close>

text \<open>
  \<open>T\<close> takes a host address to a guest address.  Large entries cover whole, aligned blocks of host
  addresses: all addresses of the block are in the guest and share the entry.
\<close>

definition large_aligned :: "pt_format \<Rightarrow> u64 \<Rightarrow> (u64 \<Rightarrow> u64) \<Rightarrow> pt_heap \<Rightarrow> bool" where
  "large_aligned fmt root T h \<longleftrightarrow> (\<forall>k e. T k \<noteq> ADDR_INVAL \<and> leaf fmt h root (T k) = Some (1, e) \<longrightarrow>
       (\<forall>k'. unat k' div 2097152 = unat k div 2097152 \<longrightarrow> T k' \<noteq> ADDR_INVAL \<and> same_slot 1 (T k) (T k')))"

lemma large_aligned_removes:
  assumes a: "large_aligned fmt root T h" and r: "removes fmt root h h'"
  shows "large_aligned fmt root T h'"
proof -
  have "leaf fmt h root g = Some (1, e)" if "leaf fmt h' root g = Some (1, e)" for g e
    by (rule removesD(4) [OF r that])
  with a show ?thesis unfolding large_aligned_def by blast
qed

text \<open>What the first loop leaves of a range: nothing, except large entries of blocks that begin in it.\<close>

definition cleared_but_blocks :: "pt_format \<Rightarrow> u64 \<Rightarrow> (u64 \<Rightarrow> u64) \<Rightarrow> nat \<Rightarrow> nat \<Rightarrow> pt_heap \<Rightarrow> bool" where
  "cleared_but_blocks fmt root T s e h \<longleftrightarrow> (\<forall>k. s \<le> unat k \<and> unat k < e \<and> 4096 dvd unat k \<and> T k \<noteq> ADDR_INVAL \<longrightarrow>
     leaf fmt h root (T k) = None
     \<or> (\<exists>x. leaf fmt h root (T k) = Some (1, x)) \<and> s \<le> 2097152 * (unat k div 2097152))"

lemma cleared_mono:
  assumes c: "cleared_but_blocks fmt root T n e h'" and n: "s \<le> n" and r: "removes fmt root h1 h'"
    and new: "\<And>k. s \<le> unat k \<Longrightarrow> unat k < n \<Longrightarrow> unat k < e \<Longrightarrow> 4096 dvd unat k \<Longrightarrow> T k \<noteq> ADDR_INVAL \<Longrightarrow>
      leaf fmt h1 root (T k) = None
      \<or> (\<exists>x. leaf fmt h1 root (T k) = Some (1, x)) \<and> s \<le> 2097152 * (unat k div 2097152)"
  shows "cleared_but_blocks fmt root T s e h'"
  unfolding cleared_but_blocks_def
proof (intro allI impI)
  fix k assume k: "s \<le> unat k \<and> unat k < e \<and> 4096 dvd unat k \<and> T k \<noteq> ADDR_INVAL"
  let ?l = "\<lambda>h. leaf fmt h root (T k)"
  show "?l h' = None \<or> (\<exists>x. ?l h' = Some (1, x)) \<and> s \<le> 2097152 * (unat k div 2097152)"
  proof (cases "n \<le> unat k")
    case True
    then show ?thesis using c k n unfolding cleared_but_blocks_def by (meson order_trans)
  next
    case False
    then have "?l h1 = None \<or> (\<exists>x. ?l h1 = Some (1, x)) \<and> s \<le> 2097152 * (unat k div 2097152)"
      using new [of k] k by auto
    moreover have "?l h' = None \<or> ?l h' = ?l h1" using r unfolding removes_def by blast
    ultimately show ?thesis by metis
  qed
qed

text \<open>Clearing goes on from there: what is gone stays gone.\<close>

definition cleared_dirs :: "pt_format \<Rightarrow> u64 \<Rightarrow> (u64 \<Rightarrow> u64) \<Rightarrow> nat \<Rightarrow> nat \<Rightarrow> pt_heap \<Rightarrow> bool" where
  "cleared_dirs fmt root T s e h \<longleftrightarrow> (\<forall>k g. s \<le> unat k \<and> unat k < e \<and> 2097152 dvd unat k \<and> T k \<noteq> ADDR_INVAL
     \<and> same_slot 1 (T k) g \<longrightarrow> leaf fmt h root g = None)"

lemma cleared_dirsD:
  "\<lbrakk>cleared_dirs fmt root T s e h; s \<le> unat k; unat k < e; 2097152 dvd unat k; T k \<noteq> ADDR_INVAL; same_slot 1 (T k) g\<rbrakk>
    \<Longrightarrow> leaf fmt h root g = None"
  unfolding cleared_dirs_def by blast

lemma cleared_dirs_mono:
  assumes c: "cleared_dirs fmt root T (unat (s :: u64) + 2097152) e h'" and s: "2097152 dvd unat s" and r: "removes fmt root h1 h'"
    and new: "\<And>g. T s \<noteq> ADDR_INVAL \<Longrightarrow> same_slot 1 (T s) g \<Longrightarrow> leaf fmt h1 root g = None"
  shows "cleared_dirs fmt root T (unat s) e h'"
  unfolding cleared_dirs_def
proof (intro allI impI, elim conjE)
  fix k g assume k: "unat s \<le> unat k" "unat k < e" "2097152 dvd unat k" "T k \<noteq> ADDR_INVAL" "same_slot 1 (T k) g"
  show "leaf fmt h' root g = None"
  proof (cases "unat s + 2097152 \<le> unat k")
    case False
    with k(1,3) s have "k = s" by (auto simp: word_unat_eq_iff elim!: dvdE)
    then show ?thesis using new k(4,5) removesD(3) [OF r] by blast
  qed (use c k in \<open>auto simp: cleared_dirs_def\<close>)
qed

text \<open>One round of each loop, on the table alone.\<close>

definition look :: "pt_format \<Rightarrow> u64 \<Rightarrow> (u64 \<Rightarrow> u64) \<Rightarrow> u64 \<Rightarrow> nat \<Rightarrow> pt_heap \<Rightarrow> lookup" where
  "look fmt root T s level h =
     (if T s = ADDR_INVAL then Fail (- EINVAL) else fst (pt_walk fmt no_alloc (T s) level False 3 root h))"

definition page_round :: "pt_format \<Rightarrow> u64 \<Rightarrow> (u64 \<Rightarrow> u64) \<Rightarrow> u64 \<Rightarrow> u64 \<Rightarrow> pt_heap \<Rightarrow> (u64 \<times> pt_heap) option" where
  "page_round fmt root T s e h =
     (case look fmt root T s 0 h of
        Wild \<Rightarrow> None
      | Fail _ \<Rightarrow> Some (s + 4096, h)
      | Entry p idx \<Rightarrow>
          (case pt_read h p idx of
             None \<Rightarrow> None
           | Some v \<Rightarrow>
               if fmt_huge fmt v
               then Some (align_down s 0x200000 + 0x200000,
                      if s > align_down s 0x200000 \<or> e < align_up s 0x200000 then clear_slot p idx v h else h)
               else Some (s + 4096, clear_slot p idx v h)))"

definition dir_round :: "pt_format \<Rightarrow> u64 \<Rightarrow> (u64 \<Rightarrow> u64) \<Rightarrow> (u64 \<Rightarrow> bool) \<Rightarrow> (u64 \<Rightarrow> u64) \<Rightarrow> u64 \<Rightarrow> pt_heap \<Rightarrow> pt_heap option" where
  "dir_round fmt root T keep fa s h =
     (case look fmt root T s 1 h of
        Wild \<Rightarrow> None
      | Fail _ \<Rightarrow> Some h
      | Entry p idx \<Rightarrow>
          (case pt_read h p idx of None \<Rightarrow> None | Some v \<Rightarrow> Some (drop_dir keep fa p idx v h)))"

text \<open>
  The contract of the loops of an engine.  \<open>hp\<close> is the table in the engine's state, \<open>inv\<close> what the
  loops keep of the rest, \<open>dead\<close> a state in which the engine gives up because the table is being
  taken away.  Between two rounds others may remove translations.
\<close>

locale clearing_loops = pt_laws fmt page_ok
  for fmt :: pt_format and page_ok :: "u64 \<Rightarrow> bool" +
  fixes root :: u64 and T :: "u64 \<Rightarrow> u64" and keep :: "u64 \<Rightarrow> bool" and fa :: "u64 \<Rightarrow> u64"
    and hp :: "'x \<Rightarrow> pt_heap" and inv :: "'x \<Rightarrow> bool" and dead :: "'x \<Rightarrow> bool"
    and pages :: "u64 \<Rightarrow> u64 \<Rightarrow> 'x \<Rightarrow> 'y option" and dirs :: "u64 \<Rightarrow> u64 \<Rightarrow> 'y \<Rightarrow> 'y option"
    and out :: "'x \<Rightarrow> 'y" and hq :: "'y \<Rightarrow> pt_heap" and invq :: "'y \<Rightarrow> bool" and deadq :: "'y \<Rightarrow> bool"
  assumes keep_huge: "fmt_huge fmt e \<Longrightarrow> keep e"
    and free_addr: "\<not> keep e \<Longrightarrow> fa e = fmt_addr fmt e \<or> (\<forall>h js. follow fmt h 3 root js \<noteq> Some (fa e))"
    and out_hp: "hq (out x) = hp x" and out_inv: "inv x \<Longrightarrow> invq (out x)" and out_dead: "dead x \<Longrightarrow> deadq (out x)"
    and pages_done: "\<not> s < e \<Longrightarrow> pages s e x = Some (out x)"
    and pages_round: "s < e \<Longrightarrow> inv x \<Longrightarrow> page_round fmt root T s e (hp x) = Some (s1, h1) \<Longrightarrow>
      pt_wf fmt h1 root \<Longrightarrow> pt_clean fmt h1 root \<Longrightarrow>
      \<exists>x1. pages s e x = pages s1 e x1 \<and> inv x1 \<and> (hp x1 = h1 \<or> removes fmt root h1 (hp x1))
         \<or> pages s e x = Some (out x1) \<and> dead x1"
    and dirs_done: "\<not> s < e \<Longrightarrow> dirs s e y = Some y"
    and dirs_round: "s < e \<Longrightarrow> invq y \<Longrightarrow> dir_round fmt root T keep fa s (hq y) = Some h1 \<Longrightarrow>
      \<exists>y1. dirs s e y = dirs (s + 0x200000) e y1 \<and> invq y1 \<and> hq y1 = h1"
begin

lemma pages_spec:
  assumes "unat e \<le> 2 ^ 63" "4096 dvd unat e"
  shows "\<lbrakk>inv x; pt_wf fmt (hp x) root; pt_clean fmt (hp x) root; large_aligned fmt root T (hp x); 4096 dvd unat s\<rbrakk> \<Longrightarrow>
    \<exists>x'. pages s e x = Some (out x') \<and> (dead x' \<or> inv x' \<and> removes fmt root (hp x) (hp x')
      \<and> cleared_but_blocks fmt root T (unat s) (unat e) (hp x'))"
proof (induction "unat e - unat s" arbitrary: s x rule: less_induct)
  case less
  note wf = less.prems(2) and cl = less.prems(3) and la = less.prems(4) and s = less.prems(5)
  show ?case
  proof (cases "s < e")
    case False
    then show ?thesis
      using pages_done less.prems(1) removes_refl [OF wf cl]
      by (auto simp: cleared_but_blocks_def word_less_nat_alt intro!: exI [of _ x])
  next
    case se: True
    \<comment> \<open>one more round after a step to \<open>n\<close> that leaves the table \<open>h1\<close>\<close>
    have round: ?thesis if step: "page_round fmt root T s e (hp x) = Some (n, h1)"
      and h1: "removes fmt root (hp x) h1" and n: "unat s < unat n" "4096 dvd unat n"
      and new: "\<And>k. unat s \<le> unat k \<Longrightarrow> unat k < unat n \<Longrightarrow> unat k < unat e \<Longrightarrow> 4096 dvd unat k \<Longrightarrow> T k \<noteq> ADDR_INVAL \<Longrightarrow>
        leaf fmt h1 root (T k) = None
        \<or> (\<exists>x. leaf fmt h1 root (T k) = Some (1, x)) \<and> unat s \<le> 2097152 * (unat k div 2097152)"
      for n h1
    proof -
      from pages_round [OF se less.prems(1) step removesD(1,2) [OF h1]] obtain x1
        where x1: "pages s e x = pages n e x1 \<and> inv x1 \<and> (hp x1 = h1 \<or> removes fmt root h1 (hp x1))
          \<or> pages s e x = Some (out x1) \<and> dead x1" by blast
      show ?thesis
      proof (cases "pages s e x = Some (out x1) \<and> dead x1")
        case False
        with x1 have st: "pages s e x = pages n e x1" "inv x1" and e1: "removes fmt root h1 (hp x1)"
          using removes_refl [OF removesD(1,2) [OF h1]] by auto
        have r1: "removes fmt root (hp x) (hp x1)" by (rule removes_trans [OF h1 e1])
        have "unat e - unat n < unat e - unat s" using n(1) se by (simp add: word_less_nat_alt)
        from less.hyps [OF this st(2) removesD(1,2) [OF r1] large_aligned_removes [OF la r1] n(2)] obtain x'
          where ih: "pages n e x1 = Some (out x')" "dead x' \<or> inv x' \<and> removes fmt root (hp x1) (hp x')
            \<and> cleared_but_blocks fmt root T (unat n) (unat e) (hp x')" by blast
        have "cleared_but_blocks fmt root T (unat s) (unat e) (hp x')"
          if "cleared_but_blocks fmt root T (unat n) (unat e) (hp x')" "removes fmt root (hp x1) (hp x')"
          by (rule cleared_mono [OF that(1) _ removes_trans [OF e1 that(2)] new]) (use n(1) in auto)
        then show ?thesis using st(1) ih removes_trans [OF r1] by auto
      qed auto
    qed
    note np = next_page [OF se assms(1)] and nb = next_block [OF se assms(1)]
    have one: "k = s" if "unat s \<le> unat k" "unat k < unat (s + 4096)" "4096 dvd unat k" for k
      using page_between [OF s that(3,1)] that(2) np by (simp add: word_unat_eq_iff)
    have pg: "unat s < unat (s + 4096)" "4096 dvd unat (s + 4096)" using np s by simp_all
    show ?thesis
    proof (cases "T s = ADDR_INVAL")
      case True
      have "page_round fmt root T s e (hp x) = Some (s + 4096, hp x)" by (simp add: page_round_def look_def True)
      then show ?thesis by (rule round [OF _ removes_refl [OF wf cl] pg]) (use True one in blast)
    next
      case valid: False
      from wf cl show ?thesis
      proof (cases rule: walk_page_cases [where g = "T s"])
        case (unmapped r)
        have "page_round fmt root T s e (hp x) = Some (s + 4096, hp x)"
          using valid unmapped(1) by (simp add: page_round_def look_def)
        then show ?thesis by (rule round [OF _ removes_refl [OF wf cl] pg]) (use unmapped(2) one in blast)
      next
        case (page p idx v)
        have "page_round fmt root T s e (hp x) = Some (s + 4096, clear_slot p idx v (hp x))"
          using valid page(1-3) by (simp add: page_round_def look_def)
        then show ?thesis by (rule round [OF _ page(6) pg]) (use page(7) one in blast)
      next
        case (block p idx v)
        let ?n = "align_down s 0x200000 + 0x200000"
        have n: "unat s < unat ?n" "4096 dvd unat ?n"
          unfolding nb using div_mult_mod_eq [of "unat s" 2097152] by (simp_all add: dvd_mult2)
        have same: "unat k div 2097152 = unat s div 2097152" if "unat s \<le> unat k" "unat k < unat ?n" for k :: u64
          using that div_le_mono [of "unat s" "unat k" 2097152] unfolding nb
          by (simp add: less_Suc_eq_le div_less_iff_less_mult [symmetric] le_antisym)
        have slot: "T k \<noteq> ADDR_INVAL \<and> same_slot 1 (T s) (T k)" if "unat s \<le> unat k" "unat k < unat ?n" for k
          using la valid block(4) same [OF that] unfolding large_aligned_def by blast
        have st: "page_round fmt root T s e (hp x) =
            Some (?n, if \<not> 2097152 dvd unat s then clear_slot p idx v (hp x) else hp x)"
          unfolding page_round_def look_def if_not_P [OF valid] block(1) lookup.case block(2) option.case
            if_P [OF block(3)] partial_test [OF se assms(1)] ..
        show ?thesis
        proof (cases "2097152 dvd unat s")
          case True
          show ?thesis
          proof (rule round [OF _ removes_refl [OF wf cl] n])
            fix k :: u64 assume k: "unat s \<le> unat k" "unat k < unat ?n"
            have "unat s \<le> 2097152 * (unat k div 2097152)" using same [OF k] True by simp
            then show "leaf fmt (hp x) root (T k) = None
              \<or> (\<exists>x'. leaf fmt (hp x) root (T k) = Some (1, x')) \<and> unat s \<le> 2097152 * (unat k div 2097152)"
              using leaf_large_slot [OF block(4)] slot [OF k] by blast
          qed (use st True in simp)
        next
          case False
          show ?thesis
            by (rule round [OF _ block(5) n]) (use st False block(6) slot in auto)
        qed
      qed
    qed
  qed
qed

lemma dirs_spec:
  assumes "unat e \<le> 2 ^ 63"
  shows "\<lbrakk>invq y; pt_wf fmt (hq y) root; pt_clean fmt (hq y) root; 2097152 dvd unat s\<rbrakk> \<Longrightarrow>
    \<exists>y'. dirs s e y = Some y' \<and> invq y' \<and> removes fmt root (hq y) (hq y') \<and> cleared_dirs fmt root T (unat s) (unat e) (hq y')"
proof (induction "unat e - unat s" arbitrary: s y rule: less_induct)
  case less
  note wf = less.prems(2) and cl = less.prems(3) and s = less.prems(4)
  show ?case
  proof (cases "s < e")
    case False
    then show ?thesis
      using dirs_done less.prems(1) removes_refl [OF wf cl] by (auto simp: cleared_dirs_def word_less_nat_alt)
  next
    case se: True
    have np: "unat (s + 0x200000) = unat s + 2097152"
      using unat_add_no_wrap [of s "0x200000"] se assms(1) by (simp add: word_less_nat_alt)
    have round: ?thesis if step: "dir_round fmt root T keep fa s (hq y) = Some h1" and h1: "removes fmt root (hq y) h1"
      and new: "\<And>g. T s \<noteq> ADDR_INVAL \<Longrightarrow> same_slot 1 (T s) g \<Longrightarrow> leaf fmt h1 root g = None" for h1
    proof -
      from dirs_round [OF se less.prems(1) step] obtain y1
        where y1: "dirs s e y = dirs (s + 0x200000) e y1" "invq y1" "hq y1 = h1" by blast
      have "unat e - unat (s + 0x200000) < unat e - unat s" using np se by (simp add: word_less_nat_alt)
      from less.hyps [OF this y1(2)] obtain y' where
        ih: "dirs (s + 0x200000) e y1 = Some y'" "invq y'" "removes fmt root h1 (hq y')"
          "cleared_dirs fmt root T (unat s + 2097152) (unat e) (hq y')"
        using removesD(1,2) [OF h1] np s y1(3) by auto
      have "cleared_dirs fmt root T (unat s) (unat e) (hq y')" by (rule cleared_dirs_mono [OF ih(4) s ih(3) new])
      then show ?thesis using y1(1) ih removes_trans [OF h1 ih(3)] by auto
    qed
    show ?thesis
    proof (cases "T s = ADDR_INVAL")
      case True
      show ?thesis
        by (rule round [OF _ removes_refl [OF wf cl]]) (use True in \<open>auto simp: dir_round_def look_def\<close>)
    next
      case valid: False
      show ?thesis
      proof (rule walk_dir_cases [of "hq y" root keep fa "T s", OF wf cl], goal_cases)
        case (1 e)
        then show ?case by (rule keep_huge)
      next
        case (2 e)
        then show ?case by (rule free_addr)
      next
        case (3 r)
        note unmapped = this
        have "dir_round fmt root T keep fa s (hq y) = Some (hq y)"
          using valid unmapped(1) by (simp add: dir_round_def look_def)
        then show ?thesis by (rule round [OF _ removes_refl [OF wf cl]]) (use unmapped(2) in blast)
      next
        case (4 p idx v)
        note dir = this
        have "dir_round fmt root T keep fa s (hq y) = Some (drop_dir keep fa p idx v (hq y))"
          using valid dir(1,2) by (simp add: dir_round_def look_def)
        then show ?thesis by (rule round [OF _ dir(3)]) (use dir(4) in blast)
      qed
    qed
  qed
qed

text \<open>
  Both loops in a row, over a range of pages: afterwards no page of the range is translated, except
  by a large entry whose block begins in the range and ends beyond it.
\<close>

lemma range_spec:
  assumes x: "inv x" and wf: "pt_wf fmt (hp x) root" and cl: "pt_clean fmt (hp x) root"
    and la: "large_aligned fmt root T (hp x)"
    and al: "4096 dvd unat start" "4096 dvd unat fin" and fin: "unat start \<le> 2 ^ 63" "unat fin \<le> 2 ^ 63"
  shows "\<exists>y. pages start fin x = Some y \<and> (deadq y \<or>
    (\<exists>y'. dirs (align_up start 0x200000) (align_down fin 0x200000) y = Some y'
      \<and> invq y' \<and> removes fmt root (hp x) (hq y')
      \<and> (\<forall>k. unat start \<le> unat k \<and> unat k < unat fin \<and> 4096 dvd unat k \<and> T k \<noteq> ADDR_INVAL \<longrightarrow>
           leaf fmt (hq y') root (T k) = None
           \<or> (\<exists>v. leaf fmt (hp x) root (T k) = Some (1, v))
             \<and> unat start \<le> 2097152 * (unat k div 2097152) \<and> unat fin < 2097152 * (unat k div 2097152) + 2097152)))"
proof -
  obtain x1 where t: "pages start fin x = Some (out x1)" "dead x1 \<or> inv x1 \<and> removes fmt root (hp x) (hp x1)
      \<and> cleared_but_blocks fmt root T (unat start) (unat fin) (hp x1)"
    using pages_spec [OF fin(2) al(2) x wf cl la al(1)] by blast
  show ?thesis
  proof (cases "dead x1")
    case True
    then show ?thesis using t(1) out_dead by blast
  next
    case False
    then have p: "invq (out x1)" "removes fmt root (hp x) (hp x1)"
        "cleared_but_blocks fmt root T (unat start) (unat fin) (hp x1)"
      using t(2) out_inv by blast+
    let ?s = "align_up start 0x200000" and ?e = "align_down fin 0x200000"
    have "unat ?e \<le> unat fin" by (simp add: unat_align_down)
    then have e: "unat ?e \<le> 2 ^ 63" "2097152 dvd unat ?s" using fin by (simp, simp add: unat_align_up)
    obtain y2 where d: "dirs ?s ?e (out x1) = Some y2" "invq y2" "removes fmt root (hp x1) (hq y2)"
        "cleared_dirs fmt root T (unat ?s) (unat ?e) (hq y2)"
      using dirs_spec [OF e(1) p(1), of ?s] removesD(1,2) [OF p(2)] e(2) by (auto simp: out_hp)
    have "leaf fmt (hq y2) root (T k) = None \<or> (\<exists>v. leaf fmt (hp x) root (T k) = Some (1, v))
        \<and> unat start \<le> 2097152 * (unat k div 2097152) \<and> unat fin < 2097152 * (unat k div 2097152) + 2097152"
      if k: "unat start \<le> unat k" "unat k < unat fin" "4096 dvd unat k" "T k \<noteq> ADDR_INVAL" for k
    proof -
      let ?B = "2097152 * (unat k div 2097152)" and ?l = "\<lambda>h. leaf fmt h root (T k)"
      have "?l (hp x1) = None \<or> (\<exists>v. ?l (hp x1) = Some (1, v)) \<and> unat start \<le> ?B"
        using spec [OF p(3) [unfolded cleared_but_blocks_def], of k] k by simp
      then consider "?l (hp x1) = None" | v where "?l (hp x1) = Some (1, v)" "unat start \<le> ?B" by auto
      then show ?thesis
      proof cases
        case 1
        then show ?thesis using removesD(3) [OF d(3)] by blast
      next
        case (2 v)
        have old: "?l (hp x) = Some (1, v)" by (rule removesD(4) [OF p(2) 2(1)])
        show ?thesis
        proof (cases "unat fin < ?B + 2097152")
          case False
          let ?b = "align_down k 0x200000"
          have b: "unat ?b = ?B" by (rule unat_align_down)
          have "(unat start + 2097151) div 2097152 \<le> (?B + 2097151) div 2097152" using 2(2) by (intro div_le_mono) simp
          then have "unat ?s \<le> ?B" unfolding unat_align_up [OF fin(1)] by simp
          moreover have "(?B + 2097152) div 2097152 \<le> unat fin div 2097152" using False by (intro div_le_mono) simp
          then have "?B < unat ?e" unfolding unat_align_down by simp
          moreover have "T ?b \<noteq> ADDR_INVAL \<and> same_slot 1 (T k) (T ?b)"
          proof -
            have "unat ?b div 2097152 = unat k div 2097152" using b by simp
            with la old k(4) show ?thesis unfolding large_aligned_def by blast
          qed
          ultimately have "?l (hq y2) = None"
            using cleared_dirsD [OF d(4), of ?b "T k"] b by (simp add: same_slot_def)
          then show ?thesis ..
        qed (use old 2(2) in blast)
      qed
    qed
    then show ?thesis using t(1) d removes_trans [OF p(2) d(3)] by blast
  qed
qed

end

section \<open>Regions of whole blocks\<close>

text \<open>Regions made of whole 2 MiB blocks on both sides make every large entry aligned.\<close>

lemma dvd_interval_block:
  assumes "(2097152 :: nat) dvd a" "2097152 dvd n" "x div 2097152 = y div 2097152"
  shows "x \<in> {a ..< a + n} \<longleftrightarrow> y \<in> {a ..< a + n}"
proof -
  obtain k where k: "a = 2097152 * k" using assms by (auto elim: dvdE)
  obtain l where l: "a + n = 2097152 * l" using assms(1,2) by (meson dvdE dvd_add)
  have "2097152 * k \<le> z \<longleftrightarrow> k \<le> z div 2097152" "z < 2097152 * l \<longleftrightarrow> z div 2097152 < l" for z
    by (simp_all add: less_eq_div_iff_mult_less_eq div_less_iff_less_mult mult.commute)
  with assms(3) show ?thesis by (simp only: atLeastLessThan_iff l) (simp only: k)
qed

lemma shift_block:
  assumes "(2097152 :: nat) dvd a" "2097152 dvd b" "b \<le> x" "b \<le> y" "x div 2097152 = y div 2097152"
  shows "(a + (x - b)) div 2097152 = (a + (y - b)) div 2097152"
proof -
  obtain p q where a: "a = 2097152 * p" and b: "b = 2097152 * q" using assms(1,2) by (auto elim!: dvdE)
  have "(a + (z - b)) div 2097152 = p + (z div 2097152 - q)" if bz: "b \<le> z" for z
  proof -
    obtain w where "z = b + w" using le_Suc_ex [OF bz] by blast
    then show ?thesis by (simp add: a b)
  qed
  then show ?thesis using assms(3-5) by simp
qed

lemma large_aligned_regions:
  assumes ok: "\<forall>r \<in> set (regions i). region_ok r \<and> hva_ok r \<and> 2097152 dvd unat (region_hva r)
    \<and> 2097152 dvd unat (region_gpa r) \<and> 2097152 dvd unat (region_size r)"
  shows "large_aligned fmt root (hva_to_gpa i) h"
  unfolding large_aligned_def
proof (intro allI impI)
  fix k k' :: u64 and e assume k: "hva_to_gpa i k \<noteq> ADDR_INVAL \<and> leaf fmt h root (hva_to_gpa i k) = Some (1, e)"
    and b: "unat k' div 2097152 = unat k div 2097152"
  have h: "\<forall>r \<in> set (regions i). hva_ok r" using ok by simp
  then obtain r where r: "find (\<lambda>r. unat k \<in> hva_range r) (regions i) = Some r"
    "hva_to_gpa i k = region_gpa r + (k - region_hva r)"
    using k by (auto simp: hva_to_gpa_def hva_to_gpa_loop_find split: option.splits)
  then have mem: "r \<in> set (regions i)" "unat k \<in> hva_range r" by (auto dest: find_SomeD)
  have rk: "2097152 dvd unat (region_hva r)" "2097152 dvd unat (region_gpa r)" "2097152 dvd unat (region_size r)"
    "unat (region_gpa r) + unat (region_size r) < 2 ^ 64" using ok mem(1) by (auto simp: region_ok_def)
  have same: "unat k' \<in> hva_range s \<longleftrightarrow> unat k \<in> hva_range s" if "s \<in> set (regions i)" for s
    unfolding hva_range_def by (rule dvd_interval_block [OF _ _ b]) (use ok that in auto)
  have "find (\<lambda>r. unat k' \<in> hva_range r) (regions i) = Some r"
    by (subst r(1) [symmetric], rule find_cong [OF refl]) (use same in blast)
  then have g': "hva_to_gpa i k' = region_gpa r + (k' - region_hva r)"
    by (simp add: hva_to_gpa_def hva_to_gpa_loop_find h)
  have in': "unat k' \<in> hva_range r" using same [OF mem(1)] mem(2) by simp
  note u = unat_shift [OF rk(4), of k "region_hva r"] unat_shift [OF rk(4), of k' "region_hva r"]
  have "unat (hva_to_gpa i k) div 2097152 = unat (hva_to_gpa i k') div 2097152"
    using u mem(2) in' shift_block [OF rk(2,1) _ _ b [symmetric]] by (simp add: r(2) g' hva_range_def)
  moreover have "hva_to_gpa i k' \<noteq> ADDR_INVAL"
  proof -
    have "unat (hva_to_gpa i k') < unat (region_gpa r) + unat (region_size r)"
      using u(2) in' by (auto simp: g' hva_range_def)
    then show ?thesis using rk(4) unat_inval by auto
  qed
  ultimately show "hva_to_gpa i k' \<noteq> ADDR_INVAL \<and> same_slot 1 (hva_to_gpa i k) (hva_to_gpa i k')"
    by (intro conjI same_slot1_block)
qed

text \<open>From the pages of a range to its addresses.\<close>

lemma pages_to_addresses:
  assumes rg: "\<forall>r \<in> set (regions i). region_ok r \<and> hva_ok r \<and> 4096 dvd unat (region_hva r)"
    and al: "4096 dvd unat (start :: u64)"
    and gone: "\<forall>k. unat start \<le> unat k \<and> unat k < n \<and> 4096 dvd unat k \<and> hva_to_gpa i k \<noteq> ADDR_INVAL \<longrightarrow>
       leaf fmt h' root (hva_to_gpa i k) = None
       \<or> (\<exists>x. leaf fmt h root (hva_to_gpa i k) = Some (1, x)) \<and> B (unat k div 2097152)"
    and k: "unat start \<le> unat k" "unat k < n" "hva_to_gpa i k \<noteq> ADDR_INVAL"
  shows "leaf fmt h' root (hva_to_gpa i k) = None
    \<or> (\<exists>x. leaf fmt h root (hva_to_gpa i k) = Some (1, x)) \<and> B (unat k div 2097152)"
proof -
  let ?p = "k AND NOT 4095"
  note pg = page_of_address [OF al k(1)] hva_to_gpa_page [OF rg k(3)]
  have "unat ?p < n" using pg(2) k(2) by simp
  then show ?thesis
    using spec [OF gone, of ?p] pg(1,3) page_not_inval unfolding pg(4,5) same_page_leaf by simp
qed

section \<open>A host to try things on\<close>

text \<open>A page allocator with seven pages, memory with an empty table at 0x1000, and a host that pins one page.\<close>

definition example_alloc :: page_alloc where
  "example_alloc h = find (\<lambda>q. h q = None) [0x1000, 0x2000, 0x3000, 0x4000, 0x5000, 0x6000, 0x7000]"

definition mem_example :: nested_mem where
  "mem_example = \<lparr>em_heap = [0x1000 \<mapsto> zero_page], em_ref = (\<lambda>_. 1), em_dirty = (\<lambda>_. False)\<rparr>"

definition page_example :: host_page where
  "page_example = \<lparr>pg_pfn = 0x1234, pg_head_pfn = 0x1234, pg_trans_compound = False, pg_compound = False,
     pg_anon = True, pg_mapcount = 0, pg_head_mapcount = 0, pg_head_thp_dtor = False, pg_reserved = False\<rparr>"

definition host_example :: "u64 \<Rightarrow> host_answers" where
  "host_example hva = \<lparr>gup_fast = (1, page_example), gup_slow = (1, page_example), h_vma = None, h_follow = (0, 0)\<rparr>"

lemma example_alloc_ok: "example_alloc h = Some q \<Longrightarrow> h q = None \<and> page_aligned q"
proof -
  assume "example_alloc h = Some q"
  then have "q \<in> set [0x1000, 0x2000, 0x3000, 0x4000, 0x5000, 0x6000, 0x7000] \<and> h q = None"
    unfolding example_alloc_def by (rule find_SomeD)
  then show ?thesis by (auto simp: page_aligned_def)
qed

end
