(* ===== verification/Slim_Vmx_State.thy ===== *)
theory Slim_Vmx_State
  imports Slim_Engine
begin

text \<open>
  The state of a VMX vcpu (\<^verbatim>\<open>vmx.h\<close>) and its VMCS (\<^verbatim>\<open>vmcs.h\<close>, \<^verbatim>\<open>vmcs.c\<close>).  A VMCS is a function from
  field encodings to values; the encodings are those of the architecture.  The module only ever
  accesses the VMCS of the vcpu it has loaded on the current CPU, so the accessors take the vcpu;
  that the right VMCS is loaded is the subject of \<open>Slim_Vmcs\<close>.
\<close>

section \<open>VMCS fields\<close>

type_synonym vmcs_field = nat
type_synonym vmcs = "vmcs_field \<Rightarrow> u64"

abbreviation (input) VIRTUAL_PROCESSOR_ID :: vmcs_field where "VIRTUAL_PROCESSOR_ID \<equiv> 0x0"
abbreviation (input) GUEST_ES_SELECTOR :: vmcs_field where "GUEST_ES_SELECTOR \<equiv> 0x800"
abbreviation (input) GUEST_CS_SELECTOR :: vmcs_field where "GUEST_CS_SELECTOR \<equiv> 0x802"
abbreviation (input) GUEST_SS_SELECTOR :: vmcs_field where "GUEST_SS_SELECTOR \<equiv> 0x804"
abbreviation (input) GUEST_DS_SELECTOR :: vmcs_field where "GUEST_DS_SELECTOR \<equiv> 0x806"
abbreviation (input) GUEST_FS_SELECTOR :: vmcs_field where "GUEST_FS_SELECTOR \<equiv> 0x808"
abbreviation (input) GUEST_GS_SELECTOR :: vmcs_field where "GUEST_GS_SELECTOR \<equiv> 0x80a"
abbreviation (input) GUEST_LDTR_SELECTOR :: vmcs_field where "GUEST_LDTR_SELECTOR \<equiv> 0x80c"
abbreviation (input) GUEST_TR_SELECTOR :: vmcs_field where "GUEST_TR_SELECTOR \<equiv> 0x80e"
abbreviation (input) HOST_ES_SELECTOR :: vmcs_field where "HOST_ES_SELECTOR \<equiv> 0xc00"
abbreviation (input) HOST_CS_SELECTOR :: vmcs_field where "HOST_CS_SELECTOR \<equiv> 0xc02"
abbreviation (input) HOST_SS_SELECTOR :: vmcs_field where "HOST_SS_SELECTOR \<equiv> 0xc04"
abbreviation (input) HOST_DS_SELECTOR :: vmcs_field where "HOST_DS_SELECTOR \<equiv> 0xc06"
abbreviation (input) HOST_FS_SELECTOR :: vmcs_field where "HOST_FS_SELECTOR \<equiv> 0xc08"
abbreviation (input) HOST_GS_SELECTOR :: vmcs_field where "HOST_GS_SELECTOR \<equiv> 0xc0a"
abbreviation (input) HOST_TR_SELECTOR :: vmcs_field where "HOST_TR_SELECTOR \<equiv> 0xc0c"
abbreviation (input) MSR_BITMAP :: vmcs_field where "MSR_BITMAP \<equiv> 0x2004"
abbreviation (input) VM_EXIT_MSR_LOAD_ADDR :: vmcs_field where "VM_EXIT_MSR_LOAD_ADDR \<equiv> 0x2008"
abbreviation (input) VM_ENTRY_MSR_LOAD_ADDR :: vmcs_field where "VM_ENTRY_MSR_LOAD_ADDR \<equiv> 0x200a"
abbreviation (input) TSC_OFFSET :: vmcs_field where "TSC_OFFSET \<equiv> 0x2010"
abbreviation (input) EPT_POINTER :: vmcs_field where "EPT_POINTER \<equiv> 0x201a"
abbreviation (input) GUEST_PHYSICAL_ADDRESS :: vmcs_field where "GUEST_PHYSICAL_ADDRESS \<equiv> 0x2400"
abbreviation (input) VMCS_LINK_POINTER :: vmcs_field where "VMCS_LINK_POINTER \<equiv> 0x2800"
abbreviation (input) GUEST_IA32_DEBUGCTL :: vmcs_field where "GUEST_IA32_DEBUGCTL \<equiv> 0x2802"
abbreviation (input) GUEST_IA32_EFER :: vmcs_field where "GUEST_IA32_EFER \<equiv> 0x2806"
abbreviation (input) HOST_IA32_PAT :: vmcs_field where "HOST_IA32_PAT \<equiv> 0x2c00"
abbreviation (input) PIN_BASED_VM_EXEC_CONTROL :: vmcs_field where "PIN_BASED_VM_EXEC_CONTROL \<equiv> 0x4000"
abbreviation (input) CPU_BASED_VM_EXEC_CONTROL :: vmcs_field where "CPU_BASED_VM_EXEC_CONTROL \<equiv> 0x4002"
abbreviation (input) EXCEPTION_BITMAP :: vmcs_field where "EXCEPTION_BITMAP \<equiv> 0x4004"
abbreviation (input) PAGE_FAULT_ERROR_CODE_MASK :: vmcs_field where "PAGE_FAULT_ERROR_CODE_MASK \<equiv> 0x4006"
abbreviation (input) PAGE_FAULT_ERROR_CODE_MATCH :: vmcs_field where "PAGE_FAULT_ERROR_CODE_MATCH \<equiv> 0x4008"
abbreviation (input) CR3_TARGET_COUNT :: vmcs_field where "CR3_TARGET_COUNT \<equiv> 0x400a"
abbreviation (input) VM_EXIT_CONTROLS :: vmcs_field where "VM_EXIT_CONTROLS \<equiv> 0x400c"
abbreviation (input) VM_EXIT_MSR_LOAD_COUNT :: vmcs_field where "VM_EXIT_MSR_LOAD_COUNT \<equiv> 0x4010"
abbreviation (input) VM_ENTRY_CONTROLS :: vmcs_field where "VM_ENTRY_CONTROLS \<equiv> 0x4012"
abbreviation (input) VM_ENTRY_MSR_LOAD_COUNT :: vmcs_field where "VM_ENTRY_MSR_LOAD_COUNT \<equiv> 0x4014"
abbreviation (input) VM_ENTRY_INTR_INFO_FIELD :: vmcs_field where "VM_ENTRY_INTR_INFO_FIELD \<equiv> 0x4016"
abbreviation (input) VM_ENTRY_EXCEPTION_ERROR_CODE :: vmcs_field where "VM_ENTRY_EXCEPTION_ERROR_CODE \<equiv> 0x4018"
abbreviation (input) VM_ENTRY_INSTRUCTION_LEN :: vmcs_field where "VM_ENTRY_INSTRUCTION_LEN \<equiv> 0x401a"
abbreviation (input) SECONDARY_VM_EXEC_CONTROL :: vmcs_field where "SECONDARY_VM_EXEC_CONTROL \<equiv> 0x401e"
abbreviation (input) PLE_GAP :: vmcs_field where "PLE_GAP \<equiv> 0x4020"
abbreviation (input) PLE_WINDOW :: vmcs_field where "PLE_WINDOW \<equiv> 0x4022"
abbreviation (input) VM_INSTRUCTION_ERROR :: vmcs_field where "VM_INSTRUCTION_ERROR \<equiv> 0x4400"
abbreviation (input) VM_EXIT_REASON :: vmcs_field where "VM_EXIT_REASON \<equiv> 0x4402"
abbreviation (input) VM_EXIT_INTR_INFO :: vmcs_field where "VM_EXIT_INTR_INFO \<equiv> 0x4404"
abbreviation (input) VM_EXIT_INTR_ERROR_CODE :: vmcs_field where "VM_EXIT_INTR_ERROR_CODE \<equiv> 0x4406"
abbreviation (input) IDT_VECTORING_INFO_FIELD :: vmcs_field where "IDT_VECTORING_INFO_FIELD \<equiv> 0x4408"
abbreviation (input) VM_EXIT_INSTRUCTION_LEN :: vmcs_field where "VM_EXIT_INSTRUCTION_LEN \<equiv> 0x440c"
abbreviation (input) GUEST_ES_LIMIT :: vmcs_field where "GUEST_ES_LIMIT \<equiv> 0x4800"
abbreviation (input) GUEST_CS_LIMIT :: vmcs_field where "GUEST_CS_LIMIT \<equiv> 0x4802"
abbreviation (input) GUEST_SS_LIMIT :: vmcs_field where "GUEST_SS_LIMIT \<equiv> 0x4804"
abbreviation (input) GUEST_DS_LIMIT :: vmcs_field where "GUEST_DS_LIMIT \<equiv> 0x4806"
abbreviation (input) GUEST_FS_LIMIT :: vmcs_field where "GUEST_FS_LIMIT \<equiv> 0x4808"
abbreviation (input) GUEST_GS_LIMIT :: vmcs_field where "GUEST_GS_LIMIT \<equiv> 0x480a"
abbreviation (input) GUEST_LDTR_LIMIT :: vmcs_field where "GUEST_LDTR_LIMIT \<equiv> 0x480c"
abbreviation (input) GUEST_TR_LIMIT :: vmcs_field where "GUEST_TR_LIMIT \<equiv> 0x480e"
abbreviation (input) GUEST_GDTR_LIMIT :: vmcs_field where "GUEST_GDTR_LIMIT \<equiv> 0x4810"
abbreviation (input) GUEST_IDTR_LIMIT :: vmcs_field where "GUEST_IDTR_LIMIT \<equiv> 0x4812"
abbreviation (input) GUEST_ES_AR_BYTES :: vmcs_field where "GUEST_ES_AR_BYTES \<equiv> 0x4814"
abbreviation (input) GUEST_CS_AR_BYTES :: vmcs_field where "GUEST_CS_AR_BYTES \<equiv> 0x4816"
abbreviation (input) GUEST_SS_AR_BYTES :: vmcs_field where "GUEST_SS_AR_BYTES \<equiv> 0x4818"
abbreviation (input) GUEST_DS_AR_BYTES :: vmcs_field where "GUEST_DS_AR_BYTES \<equiv> 0x481a"
abbreviation (input) GUEST_FS_AR_BYTES :: vmcs_field where "GUEST_FS_AR_BYTES \<equiv> 0x481c"
abbreviation (input) GUEST_GS_AR_BYTES :: vmcs_field where "GUEST_GS_AR_BYTES \<equiv> 0x481e"
abbreviation (input) GUEST_LDTR_AR_BYTES :: vmcs_field where "GUEST_LDTR_AR_BYTES \<equiv> 0x4820"
abbreviation (input) GUEST_TR_AR_BYTES :: vmcs_field where "GUEST_TR_AR_BYTES \<equiv> 0x4822"
abbreviation (input) GUEST_INTERRUPTIBILITY_INFO :: vmcs_field where "GUEST_INTERRUPTIBILITY_INFO \<equiv> 0x4824"
abbreviation (input) GUEST_ACTIVITY_STATE :: vmcs_field where "GUEST_ACTIVITY_STATE \<equiv> 0x4826"
abbreviation (input) GUEST_SYSENTER_CS :: vmcs_field where "GUEST_SYSENTER_CS \<equiv> 0x482a"
abbreviation (input) HOST_IA32_SYSENTER_CS :: vmcs_field where "HOST_IA32_SYSENTER_CS \<equiv> 0x4c00"
abbreviation (input) CR0_GUEST_HOST_MASK :: vmcs_field where "CR0_GUEST_HOST_MASK \<equiv> 0x6000"
abbreviation (input) CR4_GUEST_HOST_MASK :: vmcs_field where "CR4_GUEST_HOST_MASK \<equiv> 0x6002"
abbreviation (input) CR0_READ_SHADOW :: vmcs_field where "CR0_READ_SHADOW \<equiv> 0x6004"
abbreviation (input) CR4_READ_SHADOW :: vmcs_field where "CR4_READ_SHADOW \<equiv> 0x6006"
abbreviation (input) CR3_TARGET_VALUE0 :: vmcs_field where "CR3_TARGET_VALUE0 \<equiv> 0x6008"
abbreviation (input) EXIT_QUALIFICATION :: vmcs_field where "EXIT_QUALIFICATION \<equiv> 0x6400"
abbreviation (input) GUEST_LINEAR_ADDRESS :: vmcs_field where "GUEST_LINEAR_ADDRESS \<equiv> 0x640a"
abbreviation (input) GUEST_CR0 :: vmcs_field where "GUEST_CR0 \<equiv> 0x6800"
abbreviation (input) GUEST_CR3 :: vmcs_field where "GUEST_CR3 \<equiv> 0x6802"
abbreviation (input) GUEST_CR4 :: vmcs_field where "GUEST_CR4 \<equiv> 0x6804"
abbreviation (input) GUEST_ES_BASE :: vmcs_field where "GUEST_ES_BASE \<equiv> 0x6806"
abbreviation (input) GUEST_CS_BASE :: vmcs_field where "GUEST_CS_BASE \<equiv> 0x6808"
abbreviation (input) GUEST_SS_BASE :: vmcs_field where "GUEST_SS_BASE \<equiv> 0x680a"
abbreviation (input) GUEST_DS_BASE :: vmcs_field where "GUEST_DS_BASE \<equiv> 0x680c"
abbreviation (input) GUEST_FS_BASE :: vmcs_field where "GUEST_FS_BASE \<equiv> 0x680e"
abbreviation (input) GUEST_GS_BASE :: vmcs_field where "GUEST_GS_BASE \<equiv> 0x6810"
abbreviation (input) GUEST_LDTR_BASE :: vmcs_field where "GUEST_LDTR_BASE \<equiv> 0x6812"
abbreviation (input) GUEST_TR_BASE :: vmcs_field where "GUEST_TR_BASE \<equiv> 0x6814"
abbreviation (input) GUEST_GDTR_BASE :: vmcs_field where "GUEST_GDTR_BASE \<equiv> 0x6816"
abbreviation (input) GUEST_IDTR_BASE :: vmcs_field where "GUEST_IDTR_BASE \<equiv> 0x6818"
abbreviation (input) GUEST_DR7 :: vmcs_field where "GUEST_DR7 \<equiv> 0x681a"
abbreviation (input) GUEST_RSP :: vmcs_field where "GUEST_RSP \<equiv> 0x681c"
abbreviation (input) GUEST_RIP :: vmcs_field where "GUEST_RIP \<equiv> 0x681e"
abbreviation (input) GUEST_RFLAGS :: vmcs_field where "GUEST_RFLAGS \<equiv> 0x6820"
abbreviation (input) GUEST_PENDING_DBG_EXCEPTIONS :: vmcs_field where "GUEST_PENDING_DBG_EXCEPTIONS \<equiv> 0x6822"
abbreviation (input) GUEST_SYSENTER_ESP :: vmcs_field where "GUEST_SYSENTER_ESP \<equiv> 0x6824"
abbreviation (input) GUEST_SYSENTER_EIP :: vmcs_field where "GUEST_SYSENTER_EIP \<equiv> 0x6826"
abbreviation (input) HOST_CR0 :: vmcs_field where "HOST_CR0 \<equiv> 0x6c00"
abbreviation (input) HOST_CR3 :: vmcs_field where "HOST_CR3 \<equiv> 0x6c02"
abbreviation (input) HOST_CR4 :: vmcs_field where "HOST_CR4 \<equiv> 0x6c04"
abbreviation (input) HOST_FS_BASE :: vmcs_field where "HOST_FS_BASE \<equiv> 0x6c06"
abbreviation (input) HOST_GS_BASE :: vmcs_field where "HOST_GS_BASE \<equiv> 0x6c08"
abbreviation (input) HOST_TR_BASE :: vmcs_field where "HOST_TR_BASE \<equiv> 0x6c0a"
abbreviation (input) HOST_GDTR_BASE :: vmcs_field where "HOST_GDTR_BASE \<equiv> 0x6c0c"
abbreviation (input) HOST_IDTR_BASE :: vmcs_field where "HOST_IDTR_BASE \<equiv> 0x6c0e"
abbreviation (input) HOST_IA32_SYSENTER_ESP :: vmcs_field where "HOST_IA32_SYSENTER_ESP \<equiv> 0x6c10"
abbreviation (input) HOST_IA32_SYSENTER_EIP :: vmcs_field where "HOST_IA32_SYSENTER_EIP \<equiv> 0x6c12"
abbreviation (input) HOST_RIP :: vmcs_field where "HOST_RIP \<equiv> 0x6c16"

section \<open>The vcpu\<close>

record vmx_host_state =
  hs_cr3 :: u64
  hs_cr4 :: u64
  hs_fs_sel :: u16
  hs_gs_sel :: u16
  hs_ldt_sel :: u16
  hs_gs_ldt_reload_needed :: bool
  hs_fs_reload_needed :: bool

record vmx_msr_index =
  mi_sys_call_mask :: int
  mi_kernel_gs_base :: int
  mi_feature_enable :: int
  mi_lstar :: int
  mi_efer :: int
  mi_star :: int

text \<open>\<open>self\<close> is the address of the structure and \<open>vmcs_page\<close> the page its VMCS lives in; \<open>vmcs\<close> is the content.
  The two MSR arrays have an address and a content likewise.\<close>

record vmx_vcpu =
  self :: kptr
  vmcs_page :: kptr
  cpu :: int
  vpid :: nat
  launched :: bool
  requests :: bitmap
  guest_msrs_loaded :: bool
  guest_xcr0_loaded :: bool
  scheded :: bool
  debug_mode :: bool
  vmode :: vcpu_mode
  fail :: bool
  exit_reason :: u64
  regs :: reg_file
  cr2 :: u64
  status :: int
  xcr0 :: u64
  vflags :: u64
  shutdown :: bool
  save_nmsrs :: nat
  nmsrs :: nat
  host_state :: vmx_host_state
  autoload_guest :: msr_entry
  autoload_host :: msr_entry
  vmcs :: vmcs
  host_msrs :: "msr_entry list"
  guest_msrs :: "msr_entry list"
  host_msrs_at :: kptr
  guest_msrs_at :: kptr
  msr_index :: vmx_msr_index
  vcpu_no :: nat
  sigset :: u64
  sigset_active :: bool
  bounce_pending :: bool
  nmi_pending :: bool
  vmexit_num :: int
  vmcall_total :: int

text \<open>A zeroed vcpu, as the allocator returns it.\<close>

definition vmx_vcpu_zero :: vmx_vcpu where
  "vmx_vcpu_zero = \<lparr>self = 0, vmcs_page = 0, cpu = 0, vpid = 0, launched = False, requests = (\<lambda>_. False), guest_msrs_loaded = False,
     guest_xcr0_loaded = False, scheded = False, debug_mode = False, vmode = OUTSIDE_ROOT_MODE, fail = False,
     exit_reason = 0, regs = (\<lambda>_. 0), cr2 = 0, status = 0, xcr0 = 0, vflags = 0, shutdown = False,
     save_nmsrs = 0, nmsrs = 0,
     host_state = \<lparr>hs_cr3 = 0, hs_cr4 = 0, hs_fs_sel = 0, hs_gs_sel = 0, hs_ldt_sel = 0,
       hs_gs_ldt_reload_needed = False, hs_fs_reload_needed = False\<rparr>,
     autoload_guest = \<lparr>msr_idx = 0, msr_reserved = 0, msr_data = 0\<rparr>,
     autoload_host = \<lparr>msr_idx = 0, msr_reserved = 0, msr_data = 0\<rparr>,
     vmcs = (\<lambda>_. 0), host_msrs = [], guest_msrs = [], host_msrs_at = 0, guest_msrs_at = 0,
     msr_index = \<lparr>mi_sys_call_mask = 0, mi_kernel_gs_base = 0, mi_feature_enable = 0, mi_lstar = 0, mi_efer = 0, mi_star = 0\<rparr>,
     vcpu_no = 0, sigset = 0, sigset_active = False, bounce_pending = False, nmi_pending = False,
     vmexit_num = 0, vmcall_total = 0\<rparr>"

definition vmcs_readl :: "vmx_vcpu \<Rightarrow> vmcs_field \<Rightarrow> u64" where
  "vmcs_readl vcpu field = vmcs vcpu field"

definition vmcs_read16 :: "vmx_vcpu \<Rightarrow> vmcs_field \<Rightarrow> u16" where
  "vmcs_read16 vcpu field = ucast (vmcs_readl vcpu field)"

definition vmcs_read32 :: "vmx_vcpu \<Rightarrow> vmcs_field \<Rightarrow> u32" where
  "vmcs_read32 vcpu field = ucast (vmcs_readl vcpu field)"

definition vmcs_writel :: "vmcs_field \<Rightarrow> u64 \<Rightarrow> vmx_vcpu \<Rightarrow> vmx_vcpu" where
  "vmcs_writel field value vcpu = vcpu\<lparr>vmcs := (vmcs vcpu)(field := value)\<rparr>"

definition vmcs_write16 :: "vmcs_field \<Rightarrow> u16 \<Rightarrow> vmx_vcpu \<Rightarrow> vmx_vcpu" where
  "vmcs_write16 field value = vmcs_writel field (ucast value)"

definition vmcs_write32 :: "vmcs_field \<Rightarrow> u32 \<Rightarrow> vmx_vcpu \<Rightarrow> vmx_vcpu" where
  "vmcs_write32 field value = vmcs_writel field (ucast value)"

definition vmcs_write64 :: "vmcs_field \<Rightarrow> u64 \<Rightarrow> vmx_vcpu \<Rightarrow> vmx_vcpu" where
  "vmcs_write64 field value = vmcs_writel field value"

lemmas vmcs_access = vmcs_readl_def vmcs_read16_def vmcs_read32_def vmcs_writel_def vmcs_write16_def
  vmcs_write32_def vmcs_write64_def

section \<open>Requests and modes\<close>

definition vmx_check_request :: "nat \<Rightarrow> vmx_vcpu \<Rightarrow> bool \<times> vmx_vcpu" where
  "vmx_check_request req vcpu =
     (if requests vcpu req then (True, vcpu\<lparr>requests := bitmap_clear req (requests vcpu)\<rparr>)
      else (False, vcpu))"

definition vmx_make_request :: "nat \<Rightarrow> vmx_vcpu \<Rightarrow> vmx_vcpu" where
  "vmx_make_request req vcpu = vcpu\<lparr>requests := bitmap_set req (requests vcpu)\<rparr>"

text \<open>\<^verbatim>\<open>cmpxchg\<close> of the mode: the old mode, and the vcpu afterwards.\<close>

definition vmx_vcpu_exiting_guest_mode :: "vmx_vcpu \<Rightarrow> vcpu_mode \<times> vmx_vcpu" where
  "vmx_vcpu_exiting_guest_mode vcpu =
     (vmode vcpu, if vmode vcpu = IN_GUEST_MODE then vcpu\<lparr>vmode := EXITING_GUEST_MODE\<rparr> else vcpu)"

abbreviation (input) X86_EFLAGS_IF :: u64 where "X86_EFLAGS_IF \<equiv> 0x200"
abbreviation (input) GUEST_INTR_STATE_STI :: u32 where "GUEST_INTR_STATE_STI \<equiv> 1"
abbreviation (input) GUEST_INTR_STATE_MOV_SS :: u32 where "GUEST_INTR_STATE_MOV_SS \<equiv> 2"

definition vmx_interrupt_allowed :: "vmx_vcpu \<Rightarrow> bool" where
  "vmx_interrupt_allowed vcpu \<longleftrightarrow> vmcs_readl vcpu GUEST_RFLAGS AND X86_EFLAGS_IF \<noteq> 0
     \<and> vmcs_read32 vcpu GUEST_INTERRUPTIBILITY_INFO
         AND (GUEST_INTR_STATE_STI OR GUEST_INTR_STATE_MOV_SS) = 0"

definition vmx_set_vcpu_mode :: "vmx_vcpu \<Rightarrow> vcpu_mode \<Rightarrow> vmx_vcpu" where
  "vmx_set_vcpu_mode vcpu m = vcpu\<lparr>vmode := m\<rparr>"

definition vmx_check_vcpu_mode :: "vmx_vcpu \<Rightarrow> vcpu_mode \<Rightarrow> bool" where
  "vmx_check_vcpu_mode vcpu m \<longleftrightarrow> vmode vcpu = m"

end
