(* ===== verification/Slim_Ept.thy ===== *)
theory Slim_Ept
  imports Slim_Host Slim_Mm Slim_Vmx_State
begin

text \<open>
  \<^verbatim>\<open>ept.c\<close>: the extended page table of an instance, kept in step with the address space of the
  sandbox process by mmu notifier callbacks.  The state is the instance, the memory that holds the
  table pages, and the reference counts and dirty flags of host pages.  Host memory management is
  outside the repository and enters as arguments: the page allocator, the result of
  \<^verbatim>\<open>get_user_pages\<close>, the virtual memory area an address lies in, and what \<^verbatim>\<open>struct page\<close> says of a
  page.  A function that would read a table page that does not exist returns \<open>None\<close>.
\<close>

type_synonym vmx_inst = "vmx_vcpu vm_instance"

section \<open>Entries\<close>

abbreviation (input) EPT_LEVELS :: nat where "EPT_LEVELS \<equiv> 4"
abbreviation (input) SLIMVM_HPAGE_2M_SIZE :: u64 where "SLIMVM_HPAGE_2M_SIZE \<equiv> 0x200000"
abbreviation (input) VMX_EPT_FAULT_WRITE :: u64 where "VMX_EPT_FAULT_WRITE \<equiv> 2"

abbreviation (input) EPTE_READ :: u64 where "EPTE_READ \<equiv> 0x01"
abbreviation (input) EPTE_WRITE :: u64 where "EPTE_WRITE \<equiv> 0x02"
abbreviation (input) EPTE_EXEC :: u64 where "EPTE_EXEC \<equiv> 0x04"
abbreviation (input) EPTE_IPAT :: u64 where "EPTE_IPAT \<equiv> 0x40"
abbreviation (input) EPTE_SZ :: u64 where "EPTE_SZ \<equiv> 0x80"
abbreviation (input) EPTE_A :: u64 where "EPTE_A \<equiv> 0x100"
abbreviation (input) EPTE_D :: u64 where "EPTE_D \<equiv> 0x200"
abbreviation (input) EPTE_PFNMAP :: u64 where "EPTE_PFNMAP \<equiv> 0x800"
abbreviation (input) EPTE_NONE :: u64 where "EPTE_NONE \<equiv> 0"
abbreviation (input) EPTE_FULL :: u64 where "EPTE_FULL \<equiv> 7"
abbreviation (input) EPTE_TYPE_UC :: u64 where "EPTE_TYPE_UC \<equiv> 0"
abbreviation (input) EPTE_TYPE_WC :: u64 where "EPTE_TYPE_WC \<equiv> 1"
abbreviation (input) EPTE_TYPE_WB :: u64 where "EPTE_TYPE_WB \<equiv> 6"
abbreviation (input) EPTE_FLAGS :: u64 where "EPTE_FLAGS \<equiv> 4095"
abbreviation (input) EPTE_PAGE_TABLE :: nat where "EPTE_PAGE_TABLE \<equiv> 0"
abbreviation (input) EPTE_PAGE_DIRECTORY :: nat where "EPTE_PAGE_DIRECTORY \<equiv> 1"

definition EPTE_TYPE :: "u64 \<Rightarrow> u64" where
  "EPTE_TYPE n = push_bit 3 (n AND 7)"

definition ept_align_down :: "u64 \<Rightarrow> u64 \<Rightarrow> u64" where
  "ept_align_down x a = x AND NOT (a - 1)"

definition ept_align_up :: "u64 \<Rightarrow> u64 \<Rightarrow> u64" where
  "ept_align_up x a = (x + a - 1) AND NOT (a - 1)"

text \<open>Cache modes (\<^verbatim>\<open>enum page_cache_mode\<close>): write back is 0, write combining 1, uncached minus 2,
  uncached 3.  The table is indexed by the PAT, PCD and PWT bits of a protection value.\<close>

definition pte2cachemode_tbl :: "nat list" where
  "pte2cachemode_tbl = [0, 2, 2, 3, 0, 2, 2, 3]"

definition pte2cm_idx :: "u64 \<Rightarrow> nat" where
  "pte2cm_idx cb = unat ((drop_bit 5 cb AND 4) OR (drop_bit 3 cb AND 2) OR (drop_bit 3 cb AND 1))"

definition pgprot2cachemode :: "u64 \<Rightarrow> nat" where
  "pgprot2cachemode pgprot =
     (let masked = pgprot AND 0x98 in
      if masked = 0 then 0 else pte2cachemode_tbl ! pte2cm_idx masked)"

definition epte_addr :: "u64 \<Rightarrow> u64" where
  "epte_addr epte = epte AND NOT 4095"

definition epte_flags :: "u64 \<Rightarrow> u64" where
  "epte_flags epte = epte AND EPTE_FLAGS"

definition epte_present :: "u64 \<Rightarrow> bool" where
  "epte_present epte \<longleftrightarrow> epte AND EPTE_FULL \<noteq> 0"

definition is_epte_huge :: "u64 \<Rightarrow> bool" where
  "is_epte_huge epte \<longleftrightarrow> epte AND EPTE_SZ \<noteq> 0"

text \<open>\<open>ad\<close> is \<^verbatim>\<open>cpu_has_vmx_ept_ad_bits()\<close>.\<close>

definition ept_flags :: "bool \<Rightarrow> bool \<Rightarrow> bool \<Rightarrow> u64 \<Rightarrow> u64" where
  "ept_flags ad write pfnmap mtype =
     (let flags = EPTE_READ OR EPTE_EXEC OR EPTE_IPAT OR EPTE_TYPE mtype;
          flags = (if write then flags OR EPTE_WRITE else flags);
          flags = (if pfnmap then flags OR EPTE_PFNMAP else flags);
          flags = (if ad then (let f = flags OR EPTE_A in if write then f OR EPTE_D else f) else flags)
      in flags AND EPTE_FLAGS)"

definition ept_fmt :: pt_format where
  "ept_fmt = \<lparr>fmt_present = epte_present, fmt_huge = is_epte_huge, fmt_addr = epte_addr,
     fmt_table = (\<lambda>page. epte_addr page OR EPTE_FULL)\<rparr>"

section \<open>Remote TLB flushes\<close>

text \<open>
  The result is whether any CPU was called, the set of CPUs sent an interrupt (every online CPU when
  the mask could not be allocated: \<open>None\<close>), and the instance.
\<close>

definition flush_one :: "flush_env \<Rightarrow> nat \<Rightarrow> nat \<Rightarrow> vmx_inst \<times> int set \<Rightarrow> vmx_inst \<times> int set" where
  "flush_one fe req n st =
     (case st of (instp, cpus) \<Rightarrow>
       (case vcpus instp n of
          None \<Rightarrow> (instp, cpus)
        | Some vcpu \<Rightarrow>
            (let vcpu1 = vmx_make_request req vcpu; c = cpu vcpu1 in
             if fe_cpus_ok fe \<and> c \<noteq> - 1 \<and> c \<noteq> fe_me fe then
               (let (old, vcpu2) = vmx_vcpu_exiting_guest_mode vcpu1;
                    instp1 = instp\<lparr>vcpus := (vcpus instp)(n \<mapsto> vcpu2)\<rparr> in
                if old \<noteq> OUTSIDE_GUEST_MODE
                then (instp1\<lparr>ept_invl_ipi := ept_invl_ipi instp1 + 1\<rparr>, insert c cpus)
                else (instp1, cpus))
             else (instp\<lparr>vcpus := (vcpus instp)(n \<mapsto> vcpu1)\<rparr>, cpus))))"

definition ept_flush_remote_tlbs :: "flush_env \<Rightarrow> vmx_inst \<Rightarrow> nat \<Rightarrow> bool \<times> int set option \<times> vmx_inst" where
  "ept_flush_remote_tlbs fe instp req =
     (let (instp', cpus) =
        fold (flush_one fe req) (set_bits_of (vcpu_bitmap instp) VM_MAX_VCPUS) (instp, {}) in
      if \<not> fe_cpus_ok fe then (True, None, instp')
      else if cpus \<noteq> {} then (True, Some cpus, instp')
      else (False, Some {}, instp'))"

section \<open>Lookup\<close>

definition ept_lookup_gpa :: "page_alloc \<Rightarrow> vmx_inst \<Rightarrow> u64 \<Rightarrow> nat \<Rightarrow> bool \<Rightarrow> pt_heap \<Rightarrow> lookup \<times> pt_heap" where
  "ept_lookup_gpa galloc instp gpa level create h =
     pt_walk ept_fmt galloc gpa level create (EPT_LEVELS - 1) (ept_root instp) h"

definition ept_lookup_hva :: "page_alloc \<Rightarrow> vmx_inst \<Rightarrow> u64 \<Rightarrow> nat \<Rightarrow> bool \<Rightarrow> pt_heap \<Rightarrow> lookup \<times> pt_heap" where
  "ept_lookup_hva galloc instp hva level create h =
     (let gpa = hva_to_gpa instp hva in
      if gpa = ADDR_INVAL then (Fail (- EINVAL), h)
      else ept_lookup_gpa galloc instp gpa level create h)"

section \<open>Clearing entries\<close>

definition ept_clear_epte :: "u64 \<Rightarrow> nat \<Rightarrow> u64 \<Rightarrow> pt_heap \<Rightarrow> int \<times> pt_heap" where
  "ept_clear_epte p idx epte h = (if epte = EPTE_NONE then (0, h) else (1, pt_write p idx EPTE_NONE h))"

text \<open>\<^verbatim>\<open>put_page\<close> on a page table page drops its only reference and frees it.\<close>

definition ept_clear_dir :: "u64 \<Rightarrow> nat \<Rightarrow> u64 \<Rightarrow> pt_heap \<Rightarrow> int \<times> pt_heap" where
  "ept_clear_dir p idx epte_value h =
     (if epte_value = EPTE_NONE then (0, h)
      else if epte_value AND EPTE_PFNMAP \<noteq> 0 then (0, pt_write p idx EPTE_NONE h)
      else
        (let h1 = pt_write p idx EPTE_NONE h in
         (1, if \<not> is_epte_huge epte_value
             then h1(push_bit PAGE_SHIFT (drop_bit PAGE_SHIFT epte_value) := None) else h1)))"

definition ept_trace_mm_stat_map :: "vmx_inst \<Rightarrow> u64 \<Rightarrow> vmx_inst" where
  "ept_trace_mm_stat_map instp epte =
     (if epte = 0 \<or> epte AND EPTE_PFNMAP \<noteq> 0 then instp
      else if is_epte_huge epte then instp\<lparr>ept_2m_pages := ept_2m_pages instp + 1\<rparr>
      else instp\<lparr>ept_4k_pages := ept_4k_pages instp + 1\<rparr>)"

definition ept_trace_mm_stat_unmap :: "vmx_inst \<Rightarrow> u64 \<Rightarrow> vmx_inst" where
  "ept_trace_mm_stat_unmap instp epte =
     (if epte = 0 \<or> epte AND EPTE_PFNMAP \<noteq> 0 then instp
      else if is_epte_huge epte then instp\<lparr>ept_2m_pages := ept_2m_pages instp - 1\<rparr>
      else instp\<lparr>ept_4k_pages := ept_4k_pages instp - 1\<rparr>)"

section \<open>Host pages\<close>

definition is_trans_compoundmap :: "host_page \<Rightarrow> bool" where
  "is_trans_compoundmap page =
     (if \<not> pg_trans_compound page then False
      else if pg_anon page then pg_mapcount page < 0
      else pg_mapcount page = pg_head_mapcount page)"

definition is_trans_hugepage :: "host_page \<Rightarrow> bool" where
  "is_trans_hugepage page = (if \<not> pg_compound page then False else pg_head_thp_dtor page)"

definition slimvm_is_transparent_hugepage :: "host_page \<Rightarrow> bool" where
  "slimvm_is_transparent_hugepage page = (if \<not> is_trans_compoundmap page then False else is_trans_hugepage page)"

definition ept_pin_user_page :: "bool \<Rightarrow> host_answers \<Rightarrow> int \<times> host_page" where
  "ept_pin_user_page write ha =
     (if write \<and> fst (gup_fast ha) = 1 then gup_fast ha else gup_slow ha)"

text \<open>Return value, page frame number and memory type.\<close>

definition ept_follow_pfn :: "host_answers \<Rightarrow> int \<times> u64 \<times> u64" where
  "ept_follow_pfn ha =
     (case h_vma ha of
        None \<Rightarrow> (- EFAULT, 0, EPTE_TYPE_WB)
      | Some (vm_flags, vm_page_prot) \<Rightarrow>
          if vm_flags AND (0x4000 OR 0x400) = 0 then (- EFAULT, 0, EPTE_TYPE_WB)
          else
            (let ty = pgprot2cachemode vm_page_prot;
                 mtype = (if ty = 0 then EPTE_TYPE_WB else if ty = 1 then EPTE_TYPE_WC else EPTE_TYPE_UC)
             in (fst (h_follow ha), snd (h_follow ha), mtype)))"

definition release_epte_page :: "host_page \<Rightarrow> bool \<Rightarrow> bool \<Rightarrow> nested_mem \<Rightarrow> nested_mem" where
  "release_epte_page page pfnmap write m =
     (if pfnmap then m
      else
        (let m1 = (if write \<and> \<not> pg_reserved page
                   then m\<lparr>em_dirty := (em_dirty m)(pg_pfn page := True)\<rparr> else m)
         in m1\<lparr>em_ref := (em_ref m1)(pg_pfn page := em_ref m1 (pg_pfn page) - 1)\<rparr>))"

section \<open>Faults\<close>

definition mmu_notifier_retry :: "vmx_inst \<Rightarrow> u64 \<Rightarrow> bool" where
  "mmu_notifier_retry instp seq \<longleftrightarrow> mmu_notifier_count instp \<noteq> 0 \<or> mmu_notifier_seq instp \<noteq> seq"

definition check_hugepage_consistency :: "vmx_inst \<Rightarrow> u64 \<Rightarrow> bool" where
  "check_hugepage_consistency instp gpa =
     (let s = gpa_to_hva instp (gpa AND NOT (SLIMVM_HPAGE_2M_SIZE - 1));
          e = gpa_to_hva instp ((gpa + SLIMVM_HPAGE_2M_SIZE) AND NOT (SLIMVM_HPAGE_2M_SIZE - 1))
      in if s = ADDR_INVAL \<or> e = ADDR_INVAL then False else e - s = SLIMVM_HPAGE_2M_SIZE)"

text \<open>\<open>None\<close> is a wild read.\<close>

definition mapping_level :: "vmx_inst \<Rightarrow> u64 \<Rightarrow> pt_heap \<Rightarrow> nat option" where
  "mapping_level instp gpa h =
     (if \<not> check_hugepage_consistency instp gpa then Some EPTE_PAGE_TABLE
      else case fst (ept_lookup_gpa no_alloc instp gpa EPTE_PAGE_DIRECTORY False h) of
        Wild \<Rightarrow> None
      | Fail _ \<Rightarrow> Some EPTE_PAGE_DIRECTORY
      | Entry p idx \<Rightarrow>
          (case pt_read h p idx of
             None \<Rightarrow> None
           | Some e \<Rightarrow> if epte_present e \<and> \<not> is_epte_huge e then Some EPTE_PAGE_TABLE
                       else Some EPTE_PAGE_DIRECTORY))"

text \<open>
  \<open>ept_set_epte\<close> has two parts.  Before it takes the lock it samples the notifier sequence number
  and pins the page; the part under the lock commits if no invalidation has intervened.
\<close>

datatype ept_begin = Begin_return int | Begin_pinned u64 host_page | Begin_pfnmap u64 u64 u64

definition ept_set_epte_begin :: "vmx_inst \<Rightarrow> bool \<Rightarrow> host_answers \<Rightarrow> nested_mem \<Rightarrow> ept_begin \<times> nested_mem" where
  "ept_set_epte_begin instp make_write ha m =
     (let seq = mmu_notifier_seq instp; (ret, page) = ept_pin_user_page make_write ha in
      if ret = 1
      then (Begin_pinned seq page, m\<lparr>em_ref := (em_ref m)(pg_pfn page := em_ref m (pg_pfn page) + 1)\<rparr>)
      else if ret = - ENOMEM then (Begin_return ret, m)
      else if ret = - ERESTARTSYS \<or> ret = - EBUSY then (Begin_return 0, m)
      else
        (let (ret', pfn, mtype) = ept_follow_pfn ha in
         if ret' \<noteq> 0 then (Begin_return ret', m) else (Begin_pfnmap seq pfn mtype, m)))"

text \<open>The two ways out of the locked part.\<close>

definition ept_unlock :: "host_page option \<Rightarrow> bool \<Rightarrow> nested_mem \<Rightarrow> nested_mem" where
  "ept_unlock page write m = (case page of None \<Rightarrow> m | Some pg \<Rightarrow> release_epte_page pg False write m)"

text \<open>From the lookup of the entry to the end.\<close>

definition ept_set_epte_commit :: "page_alloc \<Rightarrow> bool \<Rightarrow> u64 \<Rightarrow> nat \<Rightarrow> u64 \<Rightarrow> host_page option \<Rightarrow> vmx_inst \<Rightarrow> nested_mem
    \<Rightarrow> (int \<times> vmx_inst \<times> nested_mem) option" where
  "ept_set_epte_commit galloc make_write gpa level addr page instp m =
     (let (res, h1) = ept_lookup_gpa galloc instp gpa level True (em_heap m); m1 = m\<lparr>em_heap := h1\<rparr>
      in case res of
           Wild \<Rightarrow> None
         | Fail _ \<Rightarrow> Some (0, instp, ept_unlock page False m1)
         | Entry p idx \<Rightarrow>
             (case pt_read h1 p idx of
                None \<Rightarrow> None
              | Some old \<Rightarrow>
                  if epte_present old \<and> is_epte_huge old \<and> level \<noteq> EPTE_PAGE_DIRECTORY
                  then Some (0, instp, ept_unlock page False m1)
                  else Some (0, if epte_present old then instp else ept_trace_mm_stat_map instp addr,
                         ept_unlock page make_write (m1\<lparr>em_heap := pt_write p idx addr h1\<rparr>))))"

definition ept_set_epte_locked :: "bool \<Rightarrow> page_alloc \<Rightarrow> bool \<Rightarrow> u64 \<Rightarrow> u64 \<Rightarrow> u64 \<Rightarrow> u64 \<Rightarrow> host_page option
    \<Rightarrow> vmx_inst \<Rightarrow> nested_mem \<Rightarrow> (int \<times> vmx_inst \<times> nested_mem) option" where
  "ept_set_epte_locked ad galloc make_write gpa seq pfn mtype page instp m =
     (let flags = ept_flags ad make_write (page = None) mtype;
          thp = (case page of None \<Rightarrow> False | Some pg \<Rightarrow> slimvm_is_transparent_hugepage pg) in
      if mmu_notifier_retry instp seq then Some (0, instp, ept_unlock page False m)
      else case (if thp then mapping_level instp gpa (em_heap m) else Some EPTE_PAGE_TABLE) of
        None \<Rightarrow> None
      | Some lvl \<Rightarrow>
          if thp \<and> lvl = EPTE_PAGE_DIRECTORY
          then ept_set_epte_commit galloc make_write gpa EPTE_PAGE_DIRECTORY
                 (push_bit PAGE_SHIFT (pg_head_pfn (the page)) OR (flags OR EPTE_SZ)) page instp m
          else ept_set_epte_commit galloc make_write gpa EPTE_PAGE_TABLE
                 (push_bit PAGE_SHIFT pfn OR flags) page instp m)"

definition ept_set_epte :: "bool \<Rightarrow> page_alloc \<Rightarrow> host_answers \<Rightarrow> vmx_inst \<Rightarrow> bool \<Rightarrow> u64 \<Rightarrow> nested_mem
    \<Rightarrow> (int \<times> vmx_inst \<times> nested_mem) option" where
  "ept_set_epte ad galloc ha instp make_write gpa m =
     (case ept_set_epte_begin instp make_write ha m of
        (Begin_return r, m1) \<Rightarrow> Some (r, instp, m1)
      | (Begin_pinned seq page, m1) \<Rightarrow>
          ept_set_epte_locked ad galloc make_write gpa seq (pg_pfn page) EPTE_TYPE_WB (Some page) instp m1
      | (Begin_pfnmap seq pfn mtype, m1) \<Rightarrow>
          ept_set_epte_locked ad galloc make_write gpa seq pfn mtype None instp m1)"

definition vmx_do_ept_misconfig :: "vmx_inst \<Rightarrow> u64 \<Rightarrow> pt_heap \<Rightarrow> lookup" where
  "vmx_do_ept_misconfig instp gpa h = fst (ept_lookup_gpa no_alloc instp gpa EPTE_PAGE_TABLE False h)"

definition vmx_do_ept_violation :: "bool \<Rightarrow> page_alloc \<Rightarrow> (u64 \<Rightarrow> host_answers) \<Rightarrow> vmx_inst \<Rightarrow> u64 \<Rightarrow> u64
    \<Rightarrow> nested_mem \<Rightarrow> (int \<times> vmx_inst \<times> nested_mem) option" where
  "vmx_do_ept_violation ad galloc host instp gpa fault_flags m =
     (let hva = gpa_to_hva instp gpa in
      if hva = ADDR_INVAL then Some (- EINVAL, instp, m)
      else ept_set_epte ad galloc (host hva) instp (fault_flags AND VMX_EPT_FAULT_WRITE \<noteq> 0) gpa m)"

section \<open>Tearing the table down\<close>

definition vmx_free_ept_pte_range :: "u64 \<Rightarrow> pt_heap \<Rightarrow> pt_heap option" where
  "vmx_free_ept_pte_range pte =
     each_entry (\<lambda>i h. case pt_read h pte i of
         None \<Rightarrow> None
       | Some e \<Rightarrow> if \<not> epte_present e then Some h else Some (pt_write pte i EPTE_NONE h)) [0..<512]"

definition vmx_free_ept_pmd_range :: "u64 \<Rightarrow> pt_heap \<Rightarrow> pt_heap option" where
  "vmx_free_ept_pmd_range pmd =
     each_entry (\<lambda>i h. case pt_read h pmd i of
         None \<Rightarrow> None
       | Some e \<Rightarrow>
           if \<not> epte_present e then Some h
           else if is_epte_huge e then Some (pt_write pmd i EPTE_NONE h)
           else (case vmx_free_ept_pte_range (epte_addr e) h of
                   None \<Rightarrow> None
                 | Some h1 \<Rightarrow> free_page (epte_addr e) (pt_write pmd i EPTE_NONE h1))) [0..<512]"

definition vmx_free_ept_pud_range :: "u64 \<Rightarrow> pt_heap \<Rightarrow> pt_heap option" where
  "vmx_free_ept_pud_range pud =
     each_entry (\<lambda>i h. case pt_read h pud i of
         None \<Rightarrow> None
       | Some e \<Rightarrow>
           if \<not> epte_present e then Some h
           else (case vmx_free_ept_pmd_range (epte_addr e) h of
                   None \<Rightarrow> None
                 | Some h1 \<Rightarrow> free_page (epte_addr e) (pt_write pud i EPTE_NONE h1))) [0..<512]"

definition vmx_free_ept :: "u64 \<Rightarrow> pt_heap \<Rightarrow> pt_heap option" where
  "vmx_free_ept root h =
     (case each_entry (\<lambda>i h. case pt_read h root i of
         None \<Rightarrow> None
       | Some e \<Rightarrow>
           if \<not> epte_present e then Some h
           else (case vmx_free_ept_pud_range (epte_addr e) h of
                   None \<Rightarrow> None
                 | Some h1 \<Rightarrow> free_page (epte_addr e) h1)) [0..<512] h of
        None \<Rightarrow> None
      | Some h1 \<Rightarrow> free_page root h1)"

section \<open>Notifier callbacks\<close>

definition ept_invalidate_page :: "flush_env \<Rightarrow> vmx_inst \<Rightarrow> u64 \<Rightarrow> pt_heap \<Rightarrow> (int \<times> vmx_inst \<times> pt_heap) option" where
  "ept_invalidate_page fe instp addr h =
     (case fst (ept_lookup_hva no_alloc instp addr EPTE_PAGE_TABLE False h) of
        Wild \<Rightarrow> None
      | Fail _ \<Rightarrow> Some (0, instp, h)
      | Entry p idx \<Rightarrow>
          (case pt_read h p idx of
             None \<Rightarrow> None
           | Some epte \<Rightarrow>
               (let instp1 = instp\<lparr>mmu_notifier_seq := mmu_notifier_seq instp + 1\<rparr>;
                    instp2 = ept_trace_mm_stat_unmap instp1 epte;
                    (ret, h1) = ept_clear_epte p idx epte h
                in if ret \<noteq> 0
                   then Some (ret, snd (snd (ept_flush_remote_tlbs fe instp2 SLIMVM_REQ_TLB_FLUSH)), h1)
                   else Some (ret, instp2, h1))))"

definition ept_check_page_mapped :: "vmx_inst \<Rightarrow> u64 \<Rightarrow> pt_heap \<Rightarrow> int option" where
  "ept_check_page_mapped instp addr h =
     (case fst (ept_lookup_hva no_alloc instp addr EPTE_PAGE_TABLE False h) of
        Wild \<Rightarrow> None | Fail _ \<Rightarrow> Some 0 | Entry _ _ \<Rightarrow> Some 1)"

text \<open>\<^verbatim>\<open>flush & accessed\<close> is the bitwise operator on the numbers \<open>flush\<close> (0 or 1) and \<open>accessed\<close>.\<close>

definition ept_check_page_accessed :: "flush_env \<Rightarrow> vmx_inst \<Rightarrow> u64 \<Rightarrow> bool \<Rightarrow> pt_heap
    \<Rightarrow> (int \<times> vmx_inst \<times> pt_heap) option" where
  "ept_check_page_accessed fe instp addr flush h =
     (case fst (ept_lookup_hva no_alloc instp addr EPTE_PAGE_TABLE False h) of
        Wild \<Rightarrow> None
      | Fail _ \<Rightarrow> Some (0, instp, h)
      | Entry p idx \<Rightarrow>
          (case pt_read h p idx of
             None \<Rightarrow> None
           | Some epte \<Rightarrow>
               (let accessed = epte AND EPTE_A; both = (of_bool flush AND accessed \<noteq> 0);
                    h1 = (if both then pt_write p idx (epte AND NOT EPTE_A) h else h);
                    instp1 = (if both then snd (snd (ept_flush_remote_tlbs fe instp SLIMVM_REQ_TLB_FLUSH)) else instp)
                in Some (c_int accessed, instp1, h1))))"

partial_function (option) ept_clear_page_table_loop :: "u64 \<Rightarrow> u64 \<Rightarrow> vmx_inst \<Rightarrow> pt_heap
    \<Rightarrow> (vmx_inst \<times> pt_heap) option" where
  "ept_clear_page_table_loop s e instp h =
     (if s < e then
        (case fst (ept_lookup_hva no_alloc instp s EPTE_PAGE_TABLE False h) of
           Wild \<Rightarrow> None
         | Fail _ \<Rightarrow> ept_clear_page_table_loop (s + PAGE_SIZE) e instp h
         | Entry p idx \<Rightarrow>
             (case pt_read h p idx of
                None \<Rightarrow> None
              | Some epte \<Rightarrow>
                  if is_epte_huge epte then
                    if s > ept_align_down s SLIMVM_HPAGE_2M_SIZE \<or> e < ept_align_up s SLIMVM_HPAGE_2M_SIZE
                    then ept_clear_page_table_loop (ept_align_down s SLIMVM_HPAGE_2M_SIZE + SLIMVM_HPAGE_2M_SIZE) e
                           (ept_trace_mm_stat_unmap instp epte) (snd (ept_clear_epte p idx epte h))
                    else ept_clear_page_table_loop (ept_align_down s SLIMVM_HPAGE_2M_SIZE + SLIMVM_HPAGE_2M_SIZE) e instp h
                  else ept_clear_page_table_loop (s + PAGE_SIZE) e
                         (ept_trace_mm_stat_unmap instp epte) (snd (ept_clear_epte p idx epte h))))
      else Some (instp, h))"

definition ept_clear_page_table :: "vmx_inst \<Rightarrow> u64 \<Rightarrow> u64 \<Rightarrow> pt_heap \<Rightarrow> (vmx_inst \<times> pt_heap) option" where
  "ept_clear_page_table instp start fin h =
     ept_clear_page_table_loop (epte_addr start) (epte_addr (fin + PAGE_SIZE - 1)) instp h"

partial_function (option) ept_clear_page_directory_loop :: "u64 \<Rightarrow> u64 \<Rightarrow> vmx_inst \<Rightarrow> pt_heap
    \<Rightarrow> (vmx_inst \<times> pt_heap) option" where
  "ept_clear_page_directory_loop s e instp h =
     (if s < e then
        (case fst (ept_lookup_hva no_alloc instp s EPTE_PAGE_DIRECTORY False h) of
           Wild \<Rightarrow> None
         | Fail _ \<Rightarrow> ept_clear_page_directory_loop (s + SLIMVM_HPAGE_2M_SIZE) e instp h
         | Entry p idx \<Rightarrow>
             (case pt_read h p idx of
                None \<Rightarrow> None
              | Some epte \<Rightarrow>
                  ept_clear_page_directory_loop (s + SLIMVM_HPAGE_2M_SIZE) e
                    (if is_epte_huge epte then ept_trace_mm_stat_unmap instp epte else instp)
                    (snd (ept_clear_dir p idx epte h))))
      else Some (instp, h))"

definition ept_clear_page_directory :: "vmx_inst \<Rightarrow> u64 \<Rightarrow> u64 \<Rightarrow> pt_heap \<Rightarrow> (vmx_inst \<times> pt_heap) option" where
  "ept_clear_page_directory instp start fin h =
     ept_clear_page_directory_loop (ept_align_up start SLIMVM_HPAGE_2M_SIZE)
       (ept_align_down fin SLIMVM_HPAGE_2M_SIZE) instp h"

definition ept_mmu_notifier_invalidate_range_start :: "flush_env \<Rightarrow> vmx_inst \<Rightarrow> u64 \<Rightarrow> u64 \<Rightarrow> pt_heap
    \<Rightarrow> (vmx_inst \<times> pt_heap) option" where
  "ept_mmu_notifier_invalidate_range_start fe instp start fin h =
     (case ept_clear_page_table (instp\<lparr>mmu_notifier_count := mmu_notifier_count instp + 1\<rparr>) start fin h of
        None \<Rightarrow> None
      | Some (instp1, h1) \<Rightarrow>
          (case ept_clear_page_directory instp1 start fin h1 of
             None \<Rightarrow> None
           | Some (instp2, h2) \<Rightarrow>
               (let instp3 = instp2\<lparr>ept_invl_count := ept_invl_count instp2 + 1,
                      ept_invl_range := ept_invl_range instp2 + (fin - start)\<rparr>
                in Some (snd (snd (ept_flush_remote_tlbs fe instp3 SLIMVM_REQ_TLB_FLUSH)), h2))))"

definition ept_mmu_notifier_invalidate_range_end :: "vmx_inst \<Rightarrow> vmx_inst" where
  "ept_mmu_notifier_invalidate_range_end instp =
     instp\<lparr>mmu_notifier_seq := mmu_notifier_seq instp + 1, mmu_notifier_count := mmu_notifier_count instp - 1\<rparr>"

definition ept_mmu_notifier_change_pte :: "flush_env \<Rightarrow> vmx_inst \<Rightarrow> u64 \<Rightarrow> pt_heap \<Rightarrow> (vmx_inst \<times> pt_heap) option" where
  "ept_mmu_notifier_change_pte fe instp address h = map_option snd (ept_invalidate_page fe instp address h)"

text \<open>The loop \<^verbatim>\<open>for (; start < end; start += PAGE_SIZE) ret |= ...\<close> over one of two bodies.\<close>

partial_function (option) young_loop :: "(vmx_inst \<Rightarrow> u64 \<Rightarrow> pt_heap \<Rightarrow> (int \<times> vmx_inst \<times> pt_heap) option)
    \<Rightarrow> u64 \<Rightarrow> u64 \<Rightarrow> int \<Rightarrow> vmx_inst \<Rightarrow> pt_heap \<Rightarrow> (int \<times> vmx_inst \<times> pt_heap) option" where
  "young_loop body start fin ret instp h =
     (if start < fin then
        (case body instp start h of
           None \<Rightarrow> None
         | Some (r, instp1, h1) \<Rightarrow> young_loop body (start + PAGE_SIZE) fin (ret OR r) instp1 h1)
      else Some (ret, instp, h))"

definition ept_mmu_notifier_clear_flush_young :: "bool \<Rightarrow> flush_env \<Rightarrow> vmx_inst \<Rightarrow> u64 \<Rightarrow> u64 \<Rightarrow> pt_heap
    \<Rightarrow> (int \<times> vmx_inst \<times> pt_heap) option" where
  "ept_mmu_notifier_clear_flush_young ad fe instp start fin h =
     (if ad then young_loop (ept_invalidate_page fe) start fin 0 instp h
      else young_loop (\<lambda>instp a. ept_check_page_accessed fe instp a True) start fin 0 instp h)"

definition ept_mmu_notifier_test_young :: "bool \<Rightarrow> flush_env \<Rightarrow> vmx_inst \<Rightarrow> u64 \<Rightarrow> pt_heap \<Rightarrow> int option" where
  "ept_mmu_notifier_test_young ad fe instp address h =
     (if ad then ept_check_page_mapped instp address h
      else map_option fst (ept_check_page_accessed fe instp address False h))"

definition ept_mmu_notifier_release :: "vmx_inst \<Rightarrow> vmx_inst" where
  "ept_mmu_notifier_release instp = instp"

definition ept_mmu_notifier_clear_young :: "vmx_inst \<Rightarrow> u64 \<Rightarrow> u64 \<Rightarrow> int" where
  "ept_mmu_notifier_clear_young instp start fin = 0"

section \<open>Set-up and destruction\<close>

text \<open>\<open>r\<close> is the result of \<^verbatim>\<open>mmu_notifier_register\<close>.\<close>

definition ept_register_mmu_notifier :: "int \<Rightarrow> vmx_inst \<Rightarrow> int \<times> vmx_inst" where
  "ept_register_mmu_notifier r instp =
     (r, instp\<lparr>notifier_ops := True,
          notifier_regs := (if r = 0 then notifier_regs instp + 1 else notifier_regs instp)\<rparr>)"

abbreviation (input) SLIMVM_VMX_EPT_DEFAULT :: u64 where "SLIMVM_VMX_EPT_DEFAULT \<equiv> 0x1e"

definition construct_eptp :: "bool \<Rightarrow> u64 \<Rightarrow> u64" where
  "construct_eptp ad root_hpa =
     (let eptp = (if ad then SLIMVM_VMX_EPT_DEFAULT OR 0x40 else SLIMVM_VMX_EPT_DEFAULT)
      in eptp OR (root_hpa AND NOT 4095))"

definition instance_alloc_eptp :: "bool \<Rightarrow> page_alloc \<Rightarrow> vmx_inst \<Rightarrow> pt_heap \<Rightarrow> int \<times> vmx_inst \<times> pt_heap" where
  "instance_alloc_eptp ad galloc instp h =
     (case galloc h of
        None \<Rightarrow> (- ENOMEM, instp, h)
      | Some page \<Rightarrow> (0, instp\<lparr>ept_root := page, eptp := construct_eptp ad page\<rparr>, h(page \<mapsto> zero_page)))"

definition instance_init_ept :: "int \<Rightarrow> vmx_inst \<Rightarrow> int \<times> vmx_inst" where
  "instance_init_ept r instp = ept_register_mmu_notifier r instp"

definition instance_destroy_ept :: "vmx_inst \<Rightarrow> pt_heap \<Rightarrow> (vmx_inst \<times> pt_heap) option" where
  "instance_destroy_ept instp h =
     (case (if ept_root instp \<noteq> 0 then vmx_free_ept (ept_root instp) h else Some h) of
        None \<Rightarrow> None
      | Some h1 \<Rightarrow>
          Some (if notifier_ops instp then instp\<lparr>notifier_regs := notifier_regs instp - 1\<rparr> else instp, h1))"

end
