(* ===== verification/Slim_Ept_Fault.thy ===== *)
theory Slim_Ept_Fault
  imports Slim_Range Slim_Ept Slim_Instance
begin

text \<open>
  The EPT format obeys the laws of \<open>pt_laws\<close>, and with them: a fault never reads outside the table,
  keeps the table well formed, changes the translation of the faulting page only, and gives back
  every page reference it takes.
\<close>

section \<open>The EPT format\<close>

lemma epte_table:
  assumes "page_aligned q"
  shows "epte_addr (epte_addr q OR EPTE_FULL) = q" "epte_present (epte_addr q OR EPTE_FULL)"
    "\<not> is_epte_huge (epte_addr q OR EPTE_FULL)"
proof -
  have q: "q AND 4095 = 0" using assms by (simp add: page_aligned_def)
  then have a: "epte_addr q = q" using and_plus_and_not [of q 4095] by (simp add: epte_addr_def)
  have "(7 :: u64) AND 4095 = 7" by simp
  note f = aligned_or_flags [OF q this]
  show "epte_addr (epte_addr q OR EPTE_FULL) = q" by (simp only: a) (simp only: epte_addr_def f)
  have "(q OR 7) AND 7 = 7" "(q OR 7) AND 128 = 0"
    using and_sub_mask [OF _ f(2), of 7] and_sub_mask [OF _ f(2), of 128] by simp_all
  then show "epte_present (epte_addr q OR EPTE_FULL)" "\<not> is_epte_huge (epte_addr q OR EPTE_FULL)"
    by (simp_all add: a epte_present_def is_epte_huge_def)
qed

interpretation ept: pt_laws ept_fmt page_aligned
  by unfold_locales (simp_all add: ept_fmt_def epte_table, simp_all add: epte_present_def is_epte_huge_def)

lemma ept_fmt_simps [simp]:
  "fmt_present ept_fmt = epte_present" "fmt_huge ept_fmt = is_epte_huge" "fmt_addr ept_fmt = epte_addr"
  by (simp_all add: ept_fmt_def)

text \<open>Entries through their bits.\<close>

lemma is_epte_huge_bit: "is_epte_huge e \<longleftrightarrow> bit e 7"
  using and_exp_eq_0_iff_not_bit [of e 7] by (simp add: is_epte_huge_def)

lemma epte_presentI: "bit e 0 \<Longrightarrow> epte_present e"
proof -
  assume "bit e 0"
  then have "bit (e AND 7) 0" by (simp add: bit_and_iff)
  then show ?thesis by (auto simp: epte_present_def)
qed

lemma ept_flags_bits:
  "bit (ept_flags ad write pfnmap mtype) 0" "\<not> bit (ept_flags ad write pfnmap mtype) 7"
  "bit (ept_flags ad write pfnmap mtype) 1 = write"
  by (simp_all add: ept_flags_def Let_def EPTE_TYPE_def bit_or_iff bit_and_iff bit_push_bit_iff)

lemma pfn_low_bits: "n < 12 \<Longrightarrow> \<not> bit (push_bit 12 pfn :: u64) n"
  by (simp add: bit_push_bit_iff)

text \<open>The entry a fault installs: always present, and large exactly when it is meant to be.\<close>

lemma fault_entry:
  "epte_present (push_bit 12 pfn OR ept_flags ad write pfnmap mtype)"
  "\<not> is_epte_huge (push_bit 12 pfn OR ept_flags ad write pfnmap mtype)"
  "epte_present (push_bit 12 pfn OR (ept_flags ad write pfnmap mtype OR EPTE_SZ))"
  "is_epte_huge (push_bit 12 pfn OR (ept_flags ad write pfnmap mtype OR EPTE_SZ))"
proof -
  show "epte_present (push_bit 12 pfn OR ept_flags ad write pfnmap mtype)"
    "epte_present (push_bit 12 pfn OR (ept_flags ad write pfnmap mtype OR EPTE_SZ))"
    by (rule epte_presentI, simp add: bit_or_iff ept_flags_bits)+
  show "\<not> is_epte_huge (push_bit 12 pfn OR ept_flags ad write pfnmap mtype)"
    using ept_flags_bits(2) pfn_low_bits [of 7] by (simp add: is_epte_huge_bit bit_or_iff)
  have "bit (0x80 :: u64) 7" by simp
  then show "is_epte_huge (push_bit 12 pfn OR (ept_flags ad write pfnmap mtype OR EPTE_SZ))"
    by (simp only: is_epte_huge_bit bit_or_iff) simp
qed

section \<open>Faults\<close>

text \<open>The entries a fault may install at level \<open>lv\<close>, given what it pinned or found.\<close>

definition fault_leaf :: "bool \<Rightarrow> bool \<Rightarrow> u64 \<Rightarrow> u64 \<Rightarrow> host_page option \<Rightarrow> nat \<Rightarrow> u64 \<Rightarrow> bool" where
  "fault_leaf ad write pfn mtype page lv e \<longleftrightarrow>
     lv = 0 \<and> e = push_bit PAGE_SHIFT pfn OR ept_flags ad write (page = None) mtype
     \<or> lv = 1 \<and> (\<exists>pg. page = Some pg \<and> slimvm_is_transparent_hugepage pg
          \<and> e = push_bit PAGE_SHIFT (pg_head_pfn pg) OR (ept_flags ad write False mtype OR EPTE_SZ))"

lemma fault_leaf_present: "fault_leaf ad write pfn mtype page lv e \<Longrightarrow> epte_present e"
  using fault_entry(1,3) by (auto simp: fault_leaf_def)

lemma ept_unlock_heap [simp]: "em_heap (ept_unlock page w m) = em_heap m"
  by (simp add: ept_unlock_def release_epte_page_def Let_def split: option.splits)

lemma ept_unlock_ref:
  "em_ref (ept_unlock page w m) = (case page of None \<Rightarrow> em_ref m
     | Some pg \<Rightarrow> (em_ref m)(pg_pfn pg := em_ref m (pg_pfn pg) - 1))"
  by (simp add: ept_unlock_def release_epte_page_def Let_def split: option.splits)

lemma trace_map_frame [simp]:
  "ept_root (ept_trace_mm_stat_map i e) = ept_root i" "inst_core (ept_trace_mm_stat_map i e) = inst_core i"
  "vcpus (ept_trace_mm_stat_map i e) = vcpus i" "mem_region_num (ept_trace_mm_stat_map i e) = mem_region_num i"
  "memp (ept_trace_mm_stat_map i e) = memp i"
  "mmu_notifier_seq (ept_trace_mm_stat_map i e) = mmu_notifier_seq i"
  "mmu_notifier_count (ept_trace_mm_stat_map i e) = mmu_notifier_count i"
  by (simp_all add: ept_trace_mm_stat_map_def inst_core_def inst_key_def)

lemma mapping_level_total:
  assumes "pt_wf ept_fmt h (ept_root i)"
  shows "mapping_level i gpa h = Some 0 \<or> mapping_level i gpa h = Some 1"
proof -
  obtain res where r: "ept_lookup_gpa no_alloc i gpa 1 False h = (res, h)"
      "ept.lookup_ok (ept_root i) False 1 gpa h res"
    using ept.walk_root_nocreate [OF _ assms, of 1] by (auto simp: ept_lookup_gpa_def)
  show ?thesis
  proof (cases res)
    case (Entry p idx)
    then have "follow ept_fmt h 3 (ept_root i) (gpa_path gpa 1) = Some p" using r(2) by (auto simp: ept.lookup_ok_def)
    then obtain pg where "h p = Some pg" using assms unfolding pt_wf_def by blast
    then show ?thesis using r Entry by (simp add: mapping_level_def pt_read_def)
  qed (use r in \<open>simp_all add: mapping_level_def ept.lookup_ok_def\<close>)
qed

text \<open>The locked part after the level has been settled is \<open>pt_commit\<close> with its bookkeeping.\<close>

lemma set_epte_commit_eq:
  "ept_set_epte_commit galloc w gpa level addr page i m =
     (case pt_commit ept_fmt galloc (ept_root i) gpa level addr (em_heap m) of
        None \<Rightarrow> None
      | Some (None, h1) \<Rightarrow> Some (0, i, ept_unlock page False (m\<lparr>em_heap := h1\<rparr>))
      | Some (Some old, h1) \<Rightarrow> Some (0, if epte_present old then i else ept_trace_mm_stat_map i addr,
          ept_unlock page w (m\<lparr>em_heap := h1\<rparr>)))"
  by (simp add: ept_set_epte_commit_def pt_commit_def ept_lookup_gpa_def Let_def split: prod.split lookup.split option.split)

text \<open>
  The outcome of the locked part: it finishes, the table stays well formed and clean, the
  reference on the page is gone, only the translation of \<open>gpa\<close> may change, and of the instance only
  the page statistics.
\<close>

definition locked_ok :: "bool \<Rightarrow> bool \<Rightarrow> u64 \<Rightarrow> u64 \<Rightarrow> u64 \<Rightarrow> host_page option \<Rightarrow> vmx_inst \<Rightarrow> nested_mem
    \<Rightarrow> vmx_inst \<Rightarrow> nested_mem \<Rightarrow> bool" where
  "locked_ok ad w gpa pfn mtype page i m i' m' \<longleftrightarrow>
     pt_wf ept_fmt (em_heap m') (ept_root i)
     \<and> (pt_clean ept_fmt (em_heap m) (ept_root i) \<longrightarrow> pt_clean ept_fmt (em_heap m') (ept_root i))
     \<and> em_ref m' = (case page of None \<Rightarrow> em_ref m | Some pg \<Rightarrow> (em_ref m)(pg_pfn pg := em_ref m (pg_pfn pg) - 1))
     \<and> maps_only ept_fmt (ept_root i) (fault_leaf ad w pfn mtype page) gpa (em_heap m) (em_heap m')
     \<and> stat_only i i'"

lemma trace_map_stat: "stat_only i (ept_trace_mm_stat_map i e)"
  by (simp add: ept_trace_mm_stat_map_def stat_only_counters)

lemma locked_unchanged:
  assumes "ept.pt_extends (ept_root i) (em_heap m) h1"
  shows "locked_ok ad w gpa pfn mtype page i m i (ept_unlock page b (m\<lparr>em_heap := h1\<rparr>))"
  using assms by (simp add: locked_ok_def ept.pt_extends_def maps_only_refl ept_unlock_ref split: option.splits)

lemma locked_installed:
  assumes "pt_wf ept_fmt h2 (ept_root i)"
    "pt_clean ept_fmt (em_heap m) (ept_root i) \<longrightarrow> pt_clean ept_fmt h2 (ept_root i)"
    "\<forall>g. leaf ept_fmt h2 (ept_root i) g =
       (if same_slot lv gpa g then Some (lv, v) else leaf ept_fmt (em_heap m) (ept_root i) g)"
    "fault_leaf ad w pfn mtype page lv v"
  shows "locked_ok ad w gpa pfn mtype page i m
    (if b then i else ept_trace_mm_stat_map i v) (ept_unlock page w' (m\<lparr>em_heap := h2\<rparr>))"
proof -
  have "maps_only ept_fmt (ept_root i) (fault_leaf ad w pfn mtype page) gpa (em_heap m) h2"
    using assms(3,4) unfolding maps_only_def by auto
  then show ?thesis
    using assms(1,2) trace_map_stat by (simp add: locked_ok_def ept_unlock_ref split: option.splits)
qed

lemma commit_ok:
  assumes ga: "ept.galloc_ok galloc" and wf: "pt_wf ept_fmt (em_heap m) (ept_root i)"
    and lv: "level = 0 \<and> \<not> is_epte_huge addr \<or> level = 1 \<and> is_epte_huge addr" and pr: "epte_present addr"
    and fl: "fault_leaf ad w pfn mtype page level addr"
  shows "\<exists>i' m'. ept_set_epte_commit galloc w gpa level addr page i m = Some (0, i', m')
    \<and> locked_ok ad w gpa pfn mtype page i m i' m'"
proof -
  have lv': "level = 0 \<and> \<not> fmt_huge ept_fmt addr \<or> level = 1 \<and> fmt_huge ept_fmt addr" and pr': "fmt_present ept_fmt addr"
    using lv pr by simp_all
  from ga wf lv' pr' show ?thesis
  proof (cases rule: ept.commit_cases [where gpa = gpa])
    case (kept h1)
    then show ?thesis using locked_unchanged [of i m h1] by (simp add: set_epte_commit_eq)
  next
    case (installed old h1)
    then show ?thesis using locked_installed [OF installed(2-4) fl] by (simp add: set_epte_commit_eq)
  qed
qed

lemma set_locked_ok:
  assumes ga: "ept.galloc_ok galloc" and wf: "pt_wf ept_fmt (em_heap m) (ept_root i)"
  shows "\<exists>i' m'. ept_set_epte_locked ad galloc w gpa seq pfn mtype page i m = Some (0, i', m')
    \<and> locked_ok ad w gpa pfn mtype page i m i' m'"
proof (cases "mmu_notifier_retry i seq")
  case True
  then show ?thesis
    using locked_unchanged [OF ept.pt_extends_refl [OF wf]] by (simp add: ept_set_epte_locked_def)
next
  case False
  let ?small = "push_bit PAGE_SHIFT pfn OR ept_flags ad w (page = None) mtype"
  have small: "\<exists>i' m'. ept_set_epte_commit galloc w gpa 0 ?small page i m = Some (0, i', m')
      \<and> locked_ok ad w gpa pfn mtype page i m i' m'"
    by (rule commit_ok [OF ga wf]) (use fault_entry in \<open>auto simp: fault_leaf_def\<close>)
  have large: "\<exists>i' m'. ept_set_epte_commit galloc w gpa 1
        (push_bit PAGE_SHIFT (pg_head_pfn pg) OR (ept_flags ad w False mtype OR EPTE_SZ)) (Some pg) i m = Some (0, i', m')
      \<and> locked_ok ad w gpa pfn mtype (Some pg) i m i' m'" if "slimvm_is_transparent_hugepage pg" for pg
    by (rule commit_ok [OF ga wf]) (use fault_entry that in \<open>auto simp: fault_leaf_def\<close>)
  show ?thesis
  proof (cases "\<exists>pg. page = Some pg \<and> slimvm_is_transparent_hugepage pg")
    case True
    then obtain pg where "page = Some pg" "slimvm_is_transparent_hugepage pg" by blast
    then show ?thesis
      using False mapping_level_total [OF wf, of gpa] small large by (auto simp: ept_set_epte_locked_def Let_def)
  next
    case no: False
    then have "(case page of None \<Rightarrow> False | Some pg \<Rightarrow> slimvm_is_transparent_hugepage pg) = False"
      by (auto split: option.splits)
    then show ?thesis using False small by (simp add: ept_set_epte_locked_def Let_def)
  qed
qed

text \<open>Where the frame number and memory type of a fault come from.\<close>

definition fault_source :: "host_answers \<Rightarrow> bool \<Rightarrow> u64 \<Rightarrow> u64 \<Rightarrow> host_page option \<Rightarrow> bool" where
  "fault_source ha w pfn mtype page \<longleftrightarrow>
     (\<exists>pg. ept_pin_user_page w ha = (1, pg) \<and> page = Some pg \<and> pfn = pg_pfn pg \<and> mtype = EPTE_TYPE_WB)
     \<or> fst (ept_pin_user_page w ha) \<noteq> 1 \<and> page = None \<and> ept_follow_pfn ha = (0, pfn, mtype)"

lemma set_epte_begin_cases:
  obtains (ret) r where "ept_set_epte_begin i w ha m = (Begin_return r, m)"
  | (pinned) pg where "ept_set_epte_begin i w ha m = (Begin_pinned (mmu_notifier_seq i) pg,
        m\<lparr>em_ref := (em_ref m)(pg_pfn pg := em_ref m (pg_pfn pg) + 1)\<rparr>)"
      "fault_source ha w (pg_pfn pg) EPTE_TYPE_WB (Some pg)"
  | (pfnmap) pfn mtype where "ept_set_epte_begin i w ha m = (Begin_pfnmap (mmu_notifier_seq i) pfn mtype, m)"
      "fault_source ha w pfn mtype None"
proof -
  obtain ret pg where p: "ept_pin_user_page w ha = (ret, pg)" by fastforce
  obtain r pfn mtype where f: "ept_follow_pfn ha = (r, pfn, mtype)" by (metis prod_cases3)
  show ?thesis
  proof (cases "ret = 1")
    case True
    then show ?thesis using pinned [of pg] p by (simp add: ept_set_epte_begin_def fault_source_def)
  next
    case False
    then have "ept_set_epte_begin i w ha m =
       (if ret = - ENOMEM then (Begin_return ret, m)
        else if ret = - ERESTARTSYS \<or> ret = - EBUSY then (Begin_return 0, m)
        else if r \<noteq> 0 then (Begin_return r, m) else (Begin_pfnmap (mmu_notifier_seq i) pfn mtype, m))"
      using p f by (simp add: ept_set_epte_begin_def)
    with False show ?thesis
      using pfnmap [of pfn mtype] p f by (auto simp: fault_source_def intro: ret split: if_splits)
  qed
qed

lemma set_epte_ok:
  assumes ga: "ept.galloc_ok galloc" and wf: "pt_wf ept_fmt (em_heap m) (ept_root i)"
  shows "\<exists>r i' m'. ept_set_epte ad galloc ha i w gpa m = Some (r, i', m')
    \<and> pt_wf ept_fmt (em_heap m') (ept_root i)
    \<and> (pt_clean ept_fmt (em_heap m) (ept_root i) \<longrightarrow> pt_clean ept_fmt (em_heap m') (ept_root i))
    \<and> em_ref m' = em_ref m
    \<and> maps_only ept_fmt (ept_root i) (\<lambda>lv e. \<exists>pfn mtype page. fault_source ha w pfn mtype page
         \<and> fault_leaf ad w pfn mtype page lv e) gpa (em_heap m) (em_heap m')
    \<and> stat_only i i'"
proof (cases rule: set_epte_begin_cases [of i w ha m])
  case (ret r)
  with wf show ?thesis by (simp add: ept_set_epte_def maps_only_refl)
next
  case (pinned pg)
  let ?m = "m\<lparr>em_ref := (em_ref m)(pg_pfn pg := em_ref m (pg_pfn pg) + 1)\<rparr>"
  have wf': "pt_wf ept_fmt (em_heap ?m) (ept_root i)" using wf by simp
  from set_locked_ok [OF ga wf', of ad w gpa "mmu_notifier_seq i" "pg_pfn pg" EPTE_TYPE_WB "Some pg"]
  obtain i' m' where l: "ept_set_epte_locked ad galloc w gpa (mmu_notifier_seq i) (pg_pfn pg) EPTE_TYPE_WB (Some pg) i ?m
      = Some (0, i', m')" "locked_ok ad w gpa (pg_pfn pg) EPTE_TYPE_WB (Some pg) i ?m i' m'" by blast
  have "em_ref m' = em_ref m" using l(2) by (simp add: locked_ok_def fun_upd_idem_iff)
  moreover have "maps_only ept_fmt (ept_root i) (\<lambda>lv e. \<exists>pfn mtype page. fault_source ha w pfn mtype page
      \<and> fault_leaf ad w pfn mtype page lv e) gpa (em_heap m) (em_heap m')"
    by (rule maps_only_mono [of _ _ "fault_leaf ad w (pg_pfn pg) EPTE_TYPE_WB (Some pg)"])
      (use l(2) pinned(2) in \<open>auto simp: locked_ok_def\<close>)
  ultimately show ?thesis using l pinned(1) by (simp add: ept_set_epte_def locked_ok_def)
next
  case (pfnmap pfn mtype)
  from set_locked_ok [OF ga wf, of ad w gpa "mmu_notifier_seq i" pfn mtype None]
  obtain i' m' where l: "ept_set_epte_locked ad galloc w gpa (mmu_notifier_seq i) pfn mtype None i m
      = Some (0, i', m')" "locked_ok ad w gpa pfn mtype None i m i' m'" by blast
  moreover have "maps_only ept_fmt (ept_root i) (\<lambda>lv e. \<exists>pfn mtype page. fault_source ha w pfn mtype page
      \<and> fault_leaf ad w pfn mtype page lv e) gpa (em_heap m) (em_heap m')"
    by (rule maps_only_mono [of _ _ "fault_leaf ad w pfn mtype None"])
      (use l(2) pfnmap(2) in \<open>auto simp: locked_ok_def\<close>)
  ultimately show ?thesis using pfnmap(1) by (simp add: ept_set_epte_def locked_ok_def)
qed

section \<open>An instance to try things on\<close>

text \<open>An instance with a table at 0x1000 and one region of 4 MiB.\<close>

definition ept_example :: vmx_inst where
  "ept_example = instance_zero\<lparr>ept_root := 0x1000, mem_region_num := 1,
     memp := [\<lparr>region_hva = 0x7f0000000000, region_gpa = 0, region_size = 0x400000\<rparr>]\<rparr>"

lemma mem_example_table:
  "pt_wf ept_fmt (em_heap mem_example) 0x1000" "pt_clean ept_fmt (em_heap mem_example) 0x1000"
  "leaf ept_fmt (em_heap mem_example) 0x1000 g = None"
  by (rule ept.fresh_table, simp add: mem_example_def)+

section \<open>Properties\<close>

text \<open>C5. A fault is safe.  On a well formed table, with an allocator that hands out unused page
  aligned pages, \<open>vmx_do_ept_violation\<close> always returns, never reads outside the table, leaves the
  table well formed, and gives back every page reference it took.  The translation of an address
  changes only when the address shares the faulting slot, and then only to the page that was
  pinned (or found by \<^verbatim>\<open>follow_pfn\<close>) for the fault.\<close>

theorem ept_violation_safe:
  assumes "\<forall>h q. galloc h = Some q \<longrightarrow> h q = None \<and> page_aligned q"
    and wf: "pt_wf ept_fmt (em_heap m) (ept_root i)"
  shows "\<exists>r i' m'. vmx_do_ept_violation ad galloc host i gpa ff m = Some (r, i', m')
    \<and> pt_wf ept_fmt (em_heap m') (ept_root i) \<and> ept_root i' = ept_root i \<and> em_ref m' = em_ref m
    \<and> (\<forall>g. leaf ept_fmt (em_heap m') (ept_root i) g = leaf ept_fmt (em_heap m) (ept_root i) g
         \<or> (\<exists>lv e pfn mtype page. leaf ept_fmt (em_heap m') (ept_root i) g = Some (lv, e) \<and> same_slot lv gpa g
              \<and> fault_source (host (gpa_to_hva i gpa)) (ff AND VMX_EPT_FAULT_WRITE \<noteq> 0) pfn mtype page
              \<and> fault_leaf ad (ff AND VMX_EPT_FAULT_WRITE \<noteq> 0) pfn mtype page lv e))"
proof (cases "gpa_to_hva i gpa = ADDR_INVAL")
  case True
  then show ?thesis using wf by (simp add: vmx_do_ept_violation_def)
next
  case False
  have ga: "ept.galloc_ok galloc" using assms(1) by (simp add: ept.galloc_ok_def)
  from set_epte_ok [OF ga wf, of ad "host (gpa_to_hva i gpa)" "ff AND VMX_EPT_FAULT_WRITE \<noteq> 0" gpa] False
  obtain r i' m' where s: "vmx_do_ept_violation ad galloc host i gpa ff m = Some (r, i', m')"
    "pt_wf ept_fmt (em_heap m') (ept_root i)" "em_ref m' = em_ref m"
    "maps_only ept_fmt (ept_root i) (\<lambda>lv e. \<exists>pfn mtype page.
       fault_source (host (gpa_to_hva i gpa)) (ff AND VMX_EPT_FAULT_WRITE \<noteq> 0) pfn mtype page
       \<and> fault_leaf ad (ff AND VMX_EPT_FAULT_WRITE \<noteq> 0) pfn mtype page lv e) gpa (em_heap m) (em_heap m')"
    "stat_only i i'"
    by (auto simp: vmx_do_ept_violation_def)
  moreover have "ept_root i' = ept_root i" by (rule stat_only_root [OF s(5)])
  ultimately show ?thesis unfolding maps_only_def by blast
qed

theorem ept_violation_safe_witness:
  "\<exists>r i' m'. vmx_do_ept_violation True example_alloc host_example ept_example 0x5123 2 mem_example = Some (r, i', m')
    \<and> pt_wf ept_fmt (em_heap m') 0x1000 \<and> em_ref m' = em_ref mem_example"
  using ept_violation_safe [of example_alloc mem_example ept_example True host_example "0x5123" 2]
    example_alloc_ok mem_example_table(1)
  by (auto simp: ept_example_def)



end
