(* ===== verification/Slim_Flush.thy ===== *)
theory Slim_Flush
  imports Slim_Engine
begin

text \<open>
  The loop both engines use to ask every vcpu of an instance for a TLB flush and to collect the CPUs
  that must be interrupted.
\<close>

text \<open>
  \<open>one\<close> treats the vcpu in one slot: it updates the vcpu with \<open>upd\<close>, may count an interrupt, and
  adds the CPUs \<open>kick\<close> names.
\<close>

locale flush_loop =
  fixes one :: "nat \<Rightarrow> 'v vm_instance \<times> int set \<Rightarrow> 'v vm_instance \<times> int set"
    and upd :: "'v \<Rightarrow> 'v" and kick :: "'v \<Rightarrow> int set"
  assumes one_result: "\<exists>k. one n (i, C) =
     (i\<lparr>vcpus := (vcpus i)(n := map_option upd (vcpus i n)), ept_invl_ipi := k\<rparr>,
      C \<union> (case vcpus i n of None \<Rightarrow> {} | Some v \<Rightarrow> kick v))"
begin

definition kicks :: "'v option \<Rightarrow> int set" where
  "kicks ov = (case ov of None \<Rightarrow> {} | Some v \<Rightarrow> kick v)"

lemma fold_flush:
  "distinct ns \<Longrightarrow> \<exists>k. fold one ns (i, C) =
     (i\<lparr>vcpus := (\<lambda>n. if n \<in> set ns then map_option upd (vcpus i n) else vcpus i n), ept_invl_ipi := k\<rparr>,
      C \<union> (\<Union>n\<in>set ns. kicks (vcpus i n)))"
proof (induction ns arbitrary: i C)
  case Nil
  then show ?case by (intro exI [of _ "ept_invl_ipi i"]) simp
next
  case (Cons m ns)
  obtain k where k: "one m (i, C) =
     (i\<lparr>vcpus := (vcpus i)(m := map_option upd (vcpus i m)), ept_invl_ipi := k\<rparr>,
      C \<union> kicks (vcpus i m))" (is "_ = (?i, ?C)")
    using one_result unfolding kicks_def by blast
  from Cons.IH [of ?i ?C] Cons.prems obtain l where l: "fold one ns (?i, ?C) =
     (?i\<lparr>vcpus := (\<lambda>n. if n \<in> set ns then map_option upd (vcpus ?i n) else vcpus ?i n), ept_invl_ipi := l\<rparr>,
      ?C \<union> (\<Union>n\<in>set ns. kicks (vcpus ?i n)))" by auto
  have "(\<lambda>n. if n \<in> set ns then map_option upd (vcpus ?i n) else vcpus ?i n)
      = (\<lambda>n. if n \<in> set (m # ns) then map_option upd (vcpus i n) else vcpus i n)"
    using Cons.prems by (auto simp: fun_eq_iff)
  moreover have "(\<Union>n\<in>set ns. kicks (vcpus ?i n)) = (\<Union>n\<in>set ns. kicks (vcpus i n))"
    using Cons.prems by (intro SUP_cong) auto
  then have "?C \<union> (\<Union>n\<in>set ns. kicks (vcpus ?i n)) = C \<union> (\<Union>n\<in>set (m # ns). kicks (vcpus i n))"
    by (simp only:) auto
  ultimately show ?case using k l by (intro exI [of _ l]) simp
qed

text \<open>The instance after a flush: only the vcpus and the interrupt counter differ.\<close>

definition all_flushed :: "'v vm_instance \<Rightarrow> nat \<Rightarrow> 'v option" where
  "all_flushed i n = (if n < VM_MAX_VCPUS \<and> vcpu_bitmap i n then map_option upd (vcpus i n) else vcpus i n)"

definition all_kicks :: "'v vm_instance \<Rightarrow> int set" where
  "all_kicks i = (\<Union>n\<in>{n. n < VM_MAX_VCPUS \<and> vcpu_bitmap i n}. kicks (vcpus i n))"

lemma flush_all:
  "\<exists>k. fold one (set_bits_of (vcpu_bitmap i) VM_MAX_VCPUS) (i, {})
      = (i\<lparr>vcpus := all_flushed i, ept_invl_ipi := k\<rparr>, all_kicks i)"
proof -
  from fold_flush [OF distinct_set_bits_of, of "vcpu_bitmap i" VM_MAX_VCPUS i "{}"]
  show ?thesis unfolding set_set_bits_of all_flushed_def [abs_def] all_kicks_def mem_Collect_eq Un_empty_left by blast
qed

lemma all_kicksI: "n < VM_MAX_VCPUS \<Longrightarrow> vcpu_bitmap i n \<Longrightarrow> vcpus i n = Some v \<Longrightarrow> kick v \<subseteq> all_kicks i"
  unfolding all_kicks_def kicks_def by (auto intro!: exI [of _ n])

end

end
