(* ===== verification/Slim_Ept_Notify.thy ===== *)
theory Slim_Ept_Notify
  imports Slim_Ept_Fault Slim_Flush
begin

text \<open>
  The notifier callbacks of \<^verbatim>\<open>ept.c\<close> on well formed tables: remote flushes reach every vcpu, and the
  invalidation of a range only ever removes translations, always returns, and removes all of the
  range except large entries that start inside the range and end beyond it.
\<close>

section \<open>Remote flushes\<close>

definition kicked :: "flush_env \<Rightarrow> vmx_vcpu \<Rightarrow> bool" where
  "kicked fe v \<longleftrightarrow> fe_cpus_ok fe \<and> cpu v \<noteq> - 1 \<and> cpu v \<noteq> fe_me fe \<and> vmode v \<noteq> OUTSIDE_GUEST_MODE"

definition flushed :: "flush_env \<Rightarrow> nat \<Rightarrow> vmx_vcpu \<Rightarrow> vmx_vcpu" where
  "flushed fe req v =
     (let v1 = vmx_make_request req v in
      if fe_cpus_ok fe \<and> cpu v \<noteq> - 1 \<and> cpu v \<noteq> fe_me fe then snd (vmx_vcpu_exiting_guest_mode v1) else v1)"

interpretation ept_flush: flush_loop "flush_one fe req" "flushed fe req" "\<lambda>v. if kicked fe v then {cpu v} else {}"
  for fe req
proof
  fix n C and i :: vmx_inst
  let ?k = "case vcpus i n of None \<Rightarrow> {} | Some v \<Rightarrow> if kicked fe v then {cpu v} else {}"
  show "\<exists>k. flush_one fe req n (i, C) =
     (i\<lparr>vcpus := (vcpus i)(n := map_option (flushed fe req) (vcpus i n)), ept_invl_ipi := k\<rparr>, C \<union> ?k)"
  proof (cases "vcpus i n")
    case None
    then show ?thesis by (intro exI [of _ "ept_invl_ipi i"]) (simp add: flush_one_def fun_upd_idem)
  next
    case (Some v)
    have cpu: "cpu (vmx_make_request req v) = cpu v" by (simp add: vmx_make_request_def)
    have old: "fst (vmx_vcpu_exiting_guest_mode (vmx_make_request req v)) = vmode v"
      by (simp add: vmx_make_request_def vmx_vcpu_exiting_guest_mode_def)
    show ?thesis
    proof (cases "fe_cpus_ok fe \<and> cpu v \<noteq> - 1 \<and> cpu v \<noteq> fe_me fe")
      case True
      then show ?thesis
        using old
        by (intro exI [of _ "ept_invl_ipi i + (if vmode v = OUTSIDE_GUEST_MODE then 0 else 1)"])
          (simp add: flush_one_def Some kicked_def flushed_def cpu Let_def split_beta)
    next
      case False
      then have "\<not> kicked fe v" by (auto simp: kicked_def)
      moreover have "flush_one fe req n (i, C) = (i\<lparr>vcpus := (vcpus i)(n \<mapsto> vmx_make_request req v)\<rparr>, C)"
        unfolding flush_one_def prod.case Some option.case Let_def cpu if_not_P [OF False] ..
      moreover have "flushed fe req v = vmx_make_request req v"
        unfolding flushed_def Let_def if_not_P [OF False] ..
      ultimately show ?thesis using Some by (intro exI [of _ "ept_invl_ipi i"]) simp
    qed
  qed
qed

text \<open>The instance after a flush: only the vcpus and the interrupt counter differ.\<close>

lemma flush_result:
  "\<exists>k. ept_flush_remote_tlbs fe i req =
     (\<not> fe_cpus_ok fe \<or> ept_flush.all_kicks fe i \<noteq> {}, if fe_cpus_ok fe then Some (ept_flush.all_kicks fe i) else None,
      i\<lparr>vcpus := ept_flush.all_flushed fe req i, ept_invl_ipi := k\<rparr>)"
proof -
  obtain k where k: "fold (flush_one fe req) (set_bits_of (vcpu_bitmap i) VM_MAX_VCPUS) (i, {})
      = (i\<lparr>vcpus := ept_flush.all_flushed fe req i, ept_invl_ipi := k\<rparr>, ept_flush.all_kicks fe i)"
    using ept_flush.flush_all by blast
  then show ?thesis unfolding ept_flush_remote_tlbs_def k by (intro exI [of _ k]) simp
qed

section \<open>The loops over a range\<close>

lemma trace_unmap_stat: "stat_only i (ept_trace_mm_stat_unmap i e)"
  by (simp add: ept_trace_mm_stat_unmap_def stat_only_counters)

lemma ept_aligns: "ept_align_down = align_down" "ept_align_up = align_up"
  by (simp_all add: fun_eq_iff ept_align_down_def ept_align_up_def align_down_def align_up_def)

lemma ept_clear_epte_slot: "snd (ept_clear_epte p idx e h) = clear_slot p idx e h"
  by (simp add: ept_clear_epte_def clear_slot_def)

text \<open>A directory entry has no table below it when it is large or maps a device.\<close>

definition ept_no_table :: "u64 \<Rightarrow> bool" where
  "ept_no_table e \<longleftrightarrow> e AND EPTE_PFNMAP \<noteq> 0 \<or> is_epte_huge e"

lemma ept_clear_dir_drop: "snd (ept_clear_dir p idx e h) = drop_dir ept_no_table epte_addr p idx e h"
proof -
  have "push_bit 12 (drop_bit 12 e) = epte_addr e"
    by (simp add: epte_addr_def bit_eq_iff bit_push_bit_iff bit_drop_bit_eq bit_and_iff bit_not_iff page_mask bit_mask_iff)
      (auto simp: bit_simps)
  then show ?thesis by (simp add: ept_clear_dir_def drop_dir_def ept_no_table_def Let_def)
qed

lemma ept_lookup_hva_look:
  "stat_only i j \<Longrightarrow> fst (ept_lookup_hva no_alloc j s level False h) = look ept_fmt (ept_root i) (hva_to_gpa i) s level h"
  by (simp add: ept_lookup_hva_def ept_lookup_gpa_def look_def stat_only_hva stat_only_root Let_def)

text \<open>Each round of \<^verbatim>\<open>ept.c\<close> is a round of \<open>clearing_loops\<close>, with nobody in between.\<close>

lemma ept_page_round:
  assumes "s < e" "stat_only i j" "page_round ept_fmt (ept_root i) (hva_to_gpa i) s e h = Some (s1, h1)"
  shows "\<exists>j1. ept_clear_page_table_loop s e j h = ept_clear_page_table_loop s1 e j1 h1 \<and> stat_only i j1"
  using assms
  by (subst ept_clear_page_table_loop.simps)
    (auto simp: page_round_def ept_lookup_hva_look ept_aligns ept_clear_epte_slot
      split: lookup.splits option.splits if_splits intro: stat_only_trans [OF _ trace_unmap_stat])

lemma ept_dir_round:
  assumes "s < e" "stat_only i j" "dir_round ept_fmt (ept_root i) (hva_to_gpa i) ept_no_table epte_addr s h = Some h1"
  shows "\<exists>j1. ept_clear_page_directory_loop s e j h = ept_clear_page_directory_loop (s + 0x200000) e j1 h1 \<and> stat_only i j1"
  using assms
  by (subst ept_clear_page_directory_loop.simps)
    (auto simp: dir_round_def ept_lookup_hva_look ept_clear_dir_drop
      split: lookup.splits option.splits if_splits intro: stat_only_trans [OF _ trace_unmap_stat])

interpretation ept_loops: clearing_loops ept_fmt page_aligned "ept_root i" "hva_to_gpa i" ept_no_table epte_addr
    snd "\<lambda>x. stat_only i (fst x)" "\<lambda>_. False"
    "\<lambda>s e x. ept_clear_page_table_loop s e (fst x) (snd x)" "\<lambda>s e x. ept_clear_page_directory_loop s e (fst x) (snd x)"
    "\<lambda>x. x" snd "\<lambda>x. stat_only i (fst x)" "\<lambda>_. False"
  for i :: vmx_inst
proof unfold_locales
  fix s e :: u64 and x y :: "vmx_inst \<times> pt_heap" and s1 h1
  show "ept_clear_page_table_loop s e (fst x) (snd x) = Some x" if "\<not> s < e"
    using that by (subst ept_clear_page_table_loop.simps) simp
  show "ept_clear_page_directory_loop s e (fst y) (snd y) = Some y" if "\<not> s < e"
    using that by (subst ept_clear_page_directory_loop.simps) simp
  show "\<exists>x1. ept_clear_page_table_loop s e (fst x) (snd x) = ept_clear_page_table_loop s1 e (fst x1) (snd x1)
      \<and> stat_only i (fst x1) \<and> (snd x1 = h1 \<or> removes ept_fmt (ept_root i) h1 (snd x1))
      \<or> ept_clear_page_table_loop s e (fst x) (snd x) = Some x1 \<and> False"
    if "s < e" "stat_only i (fst x)" "page_round ept_fmt (ept_root i) (hva_to_gpa i) s e (snd x) = Some (s1, h1)"
    using ept_page_round [OF that] by auto
  show "\<exists>y1. ept_clear_page_directory_loop s e (fst y) (snd y) = ept_clear_page_directory_loop (s + 0x200000) e (fst y1) (snd y1)
      \<and> stat_only i (fst y1) \<and> snd y1 = h1"
    if "s < e" "stat_only i (fst y)"
      "dir_round ept_fmt (ept_root i) (hva_to_gpa i) ept_no_table epte_addr s (snd y) = Some h1" for h1
    using ept_dir_round [OF that] by auto
qed (simp_all add: ept_no_table_def)

text \<open>A range that begins with a large entry and ends inside it.\<close>

lemma clear_page_table_block:
  assumes wf: "pt_wf ept_fmt h (ept_root i)" and cl: "pt_clean ept_fmt h (ept_root i)"
    and s: "2097152 dvd unat s" "s < e" "unat e < unat s + 2097152" "unat e \<le> 2 ^ 63"
    and v: "hva_to_gpa i s \<noteq> ADDR_INVAL" and l: "leaf ept_fmt h (ept_root i) (hva_to_gpa i s) = Some (1, x)"
  shows "ept_clear_page_table_loop s e i h = Some (i, h)"
proof -
  let ?n = "align_down s 0x200000 + 0x200000"
  have "unat ?n = unat s + 2097152" using next_block [OF s(2,4)] s(1) by simp
  then have n: "\<not> ?n < e" using s(3) by (simp add: word_less_nat_alt)
  have p: "\<not> (s > align_down s 0x200000 \<or> e < align_up s 0x200000)" using partial_test [OF s(2,4)] s(1) by simp
  from wf cl show ?thesis
  proof (cases rule: ept.walk_page_cases [where g = "hva_to_gpa i s"])
    case (block q idx y)
    have "fst (ept_lookup_hva no_alloc i s 0 False h) = Entry q idx"
      using block(1) v by (simp add: ept_lookup_hva_look [OF stat_only_refl] look_def)
    then have "ept_clear_page_table_loop s e i h = ept_clear_page_table_loop ?n e i h"
      using p block(2,3) by (subst ept_clear_page_table_loop.simps) (simp add: s(2) ept_aligns)
    also have "\<dots> = Some (i, h)" by (subst ept_clear_page_table_loop.simps) (simp add: n)
    finally show ?thesis .
  qed (use l in \<open>simp_all split: if_splits\<close>)
qed

lemma clear_page_directory_short:
  assumes "2097152 dvd unat s" "unat e < unat s + 2097152" "unat s \<le> 2 ^ 63"
  shows "ept_clear_page_directory i s e h = Some (i, h)"
proof -
  obtain q where q: "unat s = 2097152 * q" using assms(1) by (auto elim: dvdE)
  have "unat e div 2097152 \<le> q" using assms(2) q by (simp add: less_Suc_eq_le [symmetric] div_less_iff_less_mult)
  then have "\<not> ept_align_up s 0x200000 < ept_align_down e 0x200000"
    using assms(3) q by (simp add: word_less_nat_alt unat_align_down unat_align_up ept_aligns)
  then show ?thesis
    unfolding ept_clear_page_directory_def by (subst ept_clear_page_directory_loop.simps) simp
qed

lemma accessed_flag: "c_int (e AND 0x100) = (if bit e 8 then 0x100 else 0)"
proof -
  have "e AND 2 ^ n = (if bit e n then 2 ^ n else 0)" for n by (rule bit_word_eqI) (auto simp: bit_simps)
  from this [of 8] have "e AND 0x100 = (if bit e 8 then 0x100 else 0)" by simp
  then show ?thesis by (simp add: c_int_def)
qed

text \<open>A table with one large entry, for the first 2 MiB of guest memory, and its accessed bit set.\<close>

definition block_example :: pt_heap where
  "block_example = (case ept_lookup_gpa example_alloc ept_example 0 EPTE_PAGE_DIRECTORY True (em_heap mem_example) of
     (Entry p idx, h) \<Rightarrow> pt_write p idx 0x40000187 h | (_, h) \<Rightarrow> h)"

lemma block_example_table:
  "pt_wf ept_fmt block_example 0x1000" "pt_clean ept_fmt block_example 0x1000"
  "leaf ept_fmt block_example 0x1000 g = (if same_slot 1 0 g then Some (1, 0x40000187) else None)"
proof -
  have root: "ept_root ept_example = 0x1000" by (simp add: ept_example_def)
  have idx: "ADDR_TO_IDX 0 n = 0" for n by (simp add: ADDR_TO_IDX_div)
  have t: "epte_addr (fmt_table ept_fmt 0x2000) = 0x2000" "epte_addr (fmt_table ept_fmt 0x3000) = 0x3000" "\<not> epte_present 0"
    using ept.table_addr [of "0x2000"] ept.table_addr [of "0x3000"] by (simp_all add: page_aligned_def epte_present_def)
  have nf: "fst (ept_lookup_gpa example_alloc ept_example 0 1 True (em_heap mem_example)) = Entry 0x3000 0"
    by (simp add: ept_lookup_gpa_def root pt_walk.simps [of _ _ _ _ _ 3] pt_walk.simps [of _ _ _ _ _ 2]
        pt_walk.simps [of _ _ _ _ _ "Suc 0"] idx t pt_ensure_def mem_example_def example_alloc_def)
  obtain h where h: "ept_lookup_gpa example_alloc ept_example 0 1 True (em_heap mem_example) = (Entry 0x3000 0, h)"
    using nf by (metis prod.collapse)
  have "ept.galloc_ok example_alloc" using example_alloc_ok by (simp add: ept.galloc_ok_def)
  from ept.walk_root [OF this _ mem_example_table(1), of 1 0 True]
  have e: "ept.pt_extends 0x1000 (em_heap mem_example) h" "ept.lookup_ok 0x1000 True 1 0 h (Entry 0x3000 0)"
    using h by (auto simp: ept_lookup_gpa_def root)
  have f: "follow ept_fmt h 3 0x1000 (gpa_path 0 1) = Some 0x3000" using e(2) by (auto simp: ept.lookup_ok_def)
  have x: "pt_wf ept_fmt h 0x1000" "pt_clean ept_fmt h 0x1000" "leaf ept_fmt h 0x1000 g = None"
    using e(1) mem_example_table by (auto simp: ept.pt_extends_def)
  have v: "epte_present 0x40000187" "is_epte_huge 0x40000187" by (simp_all add: epte_present_def is_epte_huge_def)
  have b: "block_example = pt_write 0x3000 (ADDR_TO_IDX 0 1) 0x40000187 h"
    using h by (simp add: block_example_def idx)
  show "pt_wf ept_fmt block_example 0x1000"
    "leaf ept_fmt block_example 0x1000 g = (if same_slot 1 0 g then Some (1, 0x40000187) else None)"
    unfolding b using ept.write1 [OF x(1) f, of "0x40000187"] x(3) v by simp_all
  show "pt_clean ept_fmt block_example 0x1000"
    unfolding b by (rule ept.clean_write [OF x(1) f _ x(2)]) (use v in \<open>simp_all add: is_table_def gpa_path_simps\<close>)
qed

lemma ept_example_simps:
  "ept_root ept_example = 0x1000" "hva_to_gpa ept_example 0x7f0000000000 = 0" "hva_to_gpa ept_example 0x7f0000001000 = 0x1000"
  "\<forall>r \<in> set (regions ept_example). region_ok r \<and> hva_ok r \<and> 2097152 dvd unat (region_hva r)
    \<and> 2097152 dvd unat (region_gpa r) \<and> 2097152 dvd unat (region_size r)"
  by (simp_all add: ept_example_def hva_to_gpa_def regions_def region_ok_def hva_ok_def)

section \<open>Properties\<close>

text \<open>C9. A remote flush reaches everybody.  Afterwards every vcpu of the instance has the request
  pending; every vcpu that was on another CPU and not known to be outside the guest has that CPU
  interrupted (all CPUs are when no CPU mask could be allocated), and if it was in guest mode with
  the mask available it is now marked as leaving.\<close>

theorem ept_flush_reaches_all:
  assumes "ept_flush_remote_tlbs fe i req = (called, ipis, i')"
    and "n < VM_MAX_VCPUS" "vcpu_bitmap i n" "vcpus i n = Some v"
  shows "\<exists>v'. vcpus i' n = Some v' \<and> requests v' req
    \<and> (cpu v \<noteq> - 1 \<and> cpu v \<noteq> fe_me fe \<and> vmode v \<noteq> OUTSIDE_GUEST_MODE \<longrightarrow>
         called \<and> (case ipis of None \<Rightarrow> True | Some C \<Rightarrow> cpu v \<in> C)
         \<and> (fe_cpus_ok fe \<and> vmode v = IN_GUEST_MODE \<longrightarrow> vmode v' = EXITING_GUEST_MODE))"
proof -
  obtain k where k: "ept_flush_remote_tlbs fe i req =
     (\<not> fe_cpus_ok fe \<or> ept_flush.all_kicks fe i \<noteq> {}, if fe_cpus_ok fe then Some (ept_flush.all_kicks fe i) else None,
      i\<lparr>vcpus := ept_flush.all_flushed fe req i, ept_invl_ipi := k\<rparr>)"
    using flush_result by blast
  have v: "vcpus i' n = Some (flushed fe req v)"
    using assms k by (auto simp: ept_flush.all_flushed_def)
  have "cpu v \<in> ept_flush.all_kicks fe i" if "kicked fe v"
    using ept_flush.all_kicksI [OF assms(2-4), of fe] that by simp
  then have "called \<and> (case ipis of None \<Rightarrow> True | Some C \<Rightarrow> cpu v \<in> C)" if "kicked fe v \<or> \<not> fe_cpus_ok fe"
    using assms(1) that unfolding k by (auto simp: kicked_def)
  moreover have "requests (flushed fe req v) req"
    by (simp add: flushed_def vmx_make_request_def vmx_vcpu_exiting_guest_mode_def bitmap_set_def Let_def)
  moreover have "vmode (flushed fe req v) = EXITING_GUEST_MODE"
    if "fe_cpus_ok fe" "cpu v \<noteq> - 1" "cpu v \<noteq> fe_me fe" "vmode v = IN_GUEST_MODE"
    using that by (simp add: flushed_def vmx_make_request_def vmx_vcpu_exiting_guest_mode_def Let_def)
  ultimately show ?thesis using v unfolding kicked_def by blast
qed

theorem ept_flush_reaches_all_witness:
  "\<exists>called ipis i' v'. ept_flush_remote_tlbs \<lparr>fe_cpus_ok = True, fe_me = 0\<rparr>
      (instance_zero\<lparr>vcpu_bitmap := (\<lambda>n. n = 5), vcpus := [5 \<mapsto> vmx_vcpu_zero\<lparr>cpu := 3, vmode := IN_GUEST_MODE\<rparr>]\<rparr>) 0
      = (called, ipis, i') \<and> vcpus i' 5 = Some v' \<and> requests v' 0 \<and> called \<and> vmode v' = EXITING_GUEST_MODE"
proof -
  let ?i = "instance_zero\<lparr>vcpu_bitmap := (\<lambda>n. n = 5), vcpus := [5 \<mapsto> vmx_vcpu_zero\<lparr>cpu := 3, vmode := IN_GUEST_MODE\<rparr>]\<rparr>"
  obtain called ipis i' where f: "ept_flush_remote_tlbs \<lparr>fe_cpus_ok = True, fe_me = 0\<rparr> ?i 0 = (called, ipis, i')"
    by (metis prod_cases3)
  from ept_flush_reaches_all [OF f, of 5] f show ?thesis by auto
qed



text \<open>C10. A short range at the start of a large entry is not invalidated.  When the range begins where
  a large entry begins and ends before the entry does, \<open>invalidate_range_start\<close> leaves the whole
  table as it was: the test for a partial overlap compares the end of the range with the start
  rounded up, which is the start itself.\<close>

theorem ept_short_range_keeps_block:
  assumes wf: "pt_wf ept_fmt h (ept_root i)" and cl: "pt_clean ept_fmt h (ept_root i)"
    and s: "2097152 dvd unat start" "4096 dvd unat fin" "start < fin" "unat fin < unat start + 2097152" "unat fin \<le> 2 ^ 63"
    and v: "hva_to_gpa i start \<noteq> ADDR_INVAL" and l: "leaf ept_fmt h (ept_root i) (hva_to_gpa i start) = Some (1, e)"
  shows "\<exists>i'. ept_mmu_notifier_invalidate_range_start fe i start fin h = Some (i', h)"
proof -
  let ?i = "i\<lparr>mmu_notifier_count := mmu_notifier_count i + 1\<rparr>"
  have hg: "hva_to_gpa ?i = hva_to_gpa i" by (simp add: hva_to_gpa_def regions_def fun_eq_iff)
  have al: "4096 dvd unat start" using s(1) by (rule dvd_trans [rotated]) simp
  have "ept_clear_page_table ?i start fin h = Some (?i, h)"
    unfolding ept_clear_page_table_def epte_addr_def page_start_aligned [OF al] page_round_up [OF s(2,5)]
    by (rule clear_page_table_block [OF _ _ s(1,3,4,5)]) (use wf cl v l in \<open>simp_all add: hg\<close>)
  moreover have "ept_clear_page_directory ?i start fin h = Some (?i, h)"
    by (rule clear_page_directory_short [OF s(1,4)]) (use s(3,5) in \<open>simp add: word_less_nat_alt\<close>)
  ultimately show ?thesis by (simp add: ept_mmu_notifier_invalidate_range_start_def Let_def)
qed

theorem ept_short_range_keeps_block_witness:
  "\<exists>i'. ept_mmu_notifier_invalidate_range_start \<lparr>fe_cpus_ok = True, fe_me = 0\<rparr> ept_example
      0x7f0000000000 0x7f0000001000 block_example = Some (i', block_example)"
  by (rule ept_short_range_keeps_block [where e = "0x40000187"])
    (simp_all add: ept_example_simps(1,2) block_example_table)

text \<open>C11. The accessed bit is reported and never cleared.  On a well formed table
  \<open>ept_check_page_accessed\<close> returns 0x100 (not 1) exactly when the address is translated by an entry
  with the accessed bit, and changes neither the table nor the instance, whether or not the caller
  asked to clear the bit: \<^verbatim>\<open>flush & accessed\<close> is the bitwise and of 1 and 0x100.\<close>

theorem ept_check_page_accessed_result:
  assumes wf: "pt_wf ept_fmt h (ept_root i)" and cl: "pt_clean ept_fmt h (ept_root i)"
  shows "ept_check_page_accessed fe i addr flush h =
    Some (if hva_to_gpa i addr \<noteq> ADDR_INVAL
            \<and> (\<exists>l e. leaf ept_fmt h (ept_root i) (hva_to_gpa i addr) = Some (l, e) \<and> bit e 8) then 0x100 else 0, i, h)"
proof -
  have "1 AND (e AND 0x100) = 0" for e :: u64 by (subst and.left_commute) simp
  then have no: "of_bool flush AND (e AND 0x100) = (0 :: u64)" for e :: u64 by (cases flush) simp_all
  note look = ept_lookup_hva_look [OF stat_only_refl, of i addr 0 h]
  show ?thesis
  proof (cases "hva_to_gpa i addr = ADDR_INVAL")
    case True
    then show ?thesis by (simp add: ept_check_page_accessed_def look look_def)
  next
    case False
    from wf cl show ?thesis
      by (cases rule: ept.walk_page_cases [where g = "hva_to_gpa i addr"])
        (use False in \<open>auto simp: ept_check_page_accessed_def look look_def no accessed_flag\<close>)
  qed
qed

theorem ept_check_page_accessed_result_witness:
  "ept_check_page_accessed \<lparr>fe_cpus_ok = True, fe_me = 0\<rparr> ept_example 0x7f0000000000 True block_example
    = Some (0x100, ept_example, block_example)"
proof -
  have "bit (0x40000187 :: u64) 8" by (simp add: bit_iff_odd)
  then show ?thesis
    using ept_check_page_accessed_result [of block_example ept_example "\<lparr>fe_cpus_ok = True, fe_me = 0\<rparr>" "0x7f0000000000" True]
    by (simp add: ept_example_simps(1,2) block_example_table)
qed

end
