(* ===== verification/Slim_Ept_Teardown.thy ===== *)
theory Slim_Ept_Teardown
  imports Slim_Teardown Slim_Ept_Notify
begin

text \<open>
  \<^verbatim>\<open>vmx_free_ept\<close> and its three helpers free exactly the pages of the table, each of them once.
\<close>

section \<open>Level by level\<close>

lemma ept_pte_frees: "frees_below ept_fmt 0 vmx_free_ept_pte_range"
  unfolding frees_below_def
proof (intro allI impI)
  fix p h assume t: "tree ept_fmt h 0 p"
  show "\<exists>pg. vmx_free_ept_pte_range p h = Some (\<lambda>q. if q = p then Some pg else if q \<in> subtree ept_fmt h 0 p then None else h q)"
    unfolding vmx_free_ept_pte_range_def
  proof (rule free_level [OF _ t])
    show "frees_below ept_fmt (0 - 1) (\<lambda>p h. Some h)" using frees_below_0 by simp
    fix i :: nat and g :: pt_heap and gi assume g: "g p = Some gi"
    show "\<exists>gi'. (case pt_read g p i of None \<Rightarrow> None
          | Some e \<Rightarrow> if \<not> epte_present e then Some g else Some (pt_write p i EPTE_NONE g)) = Some (g(p \<mapsto> gi'))
        \<and> (\<forall>j>i. gi' j = gi j)"
      using g by (intro exI [of _ "if epte_present (gi i) then gi(i := 0) else gi"]) (auto simp: pt_read_def pt_write_eq fun_upd_idem)
  qed (simp add: is_table_def)
qed

lemma ept_pmd_frees: "frees_below ept_fmt 1 vmx_free_ept_pmd_range"
  unfolding frees_below_def
proof (intro allI impI)
  fix p h assume t: "tree ept_fmt h 1 p"
  show "\<exists>pg. vmx_free_ept_pmd_range p h = Some (\<lambda>q. if q = p then Some pg else if q \<in> subtree ept_fmt h 1 p then None else h q)"
    unfolding vmx_free_ept_pmd_range_def
  proof (rule free_level [OF _ t])
    show "frees_below ept_fmt (1 - 1) vmx_free_ept_pte_range" using ept_pte_frees by simp
    fix i :: nat and g :: pt_heap and gi assume g: "g p = Some gi" "\<not> is_table ept_fmt 1 (gi i)"
    show "\<exists>gi'. (case pt_read g p i of None \<Rightarrow> None
          | Some e \<Rightarrow> if \<not> epte_present e then Some g
              else if is_epte_huge e then Some (pt_write p i EPTE_NONE g)
              else (case vmx_free_ept_pte_range (epte_addr e) g of None \<Rightarrow> None
                    | Some h1 \<Rightarrow> free_page (epte_addr e) (pt_write p i EPTE_NONE h1))) = Some (g(p \<mapsto> gi'))
        \<and> (\<forall>j>i. gi' j = gi j)"
      using g by (intro exI [of _ "if epte_present (gi i) then gi(i := 0) else gi"])
        (auto simp: pt_read_def pt_write_eq fun_upd_idem is_table_def)
  qed (auto simp: pt_read_def pt_write_eq is_table_def)
qed

lemma ept_pud_frees: "frees_below ept_fmt 2 vmx_free_ept_pud_range"
  unfolding frees_below_def
proof (intro allI impI)
  fix p h assume t: "tree ept_fmt h 2 p"
  show "\<exists>pg. vmx_free_ept_pud_range p h = Some (\<lambda>q. if q = p then Some pg else if q \<in> subtree ept_fmt h 2 p then None else h q)"
    unfolding vmx_free_ept_pud_range_def
  proof (rule free_level [OF _ t])
    show "frees_below ept_fmt (2 - 1) vmx_free_ept_pmd_range" using ept_pmd_frees by simp
  qed (auto simp: pt_read_def pt_write_eq is_table_def intro: keep_entry)
qed

lemma ept_table_frees:
  assumes "tree ept_fmt h 3 root"
  shows "vmx_free_ept root h = Some (\<lambda>q. if q \<in> subtree ept_fmt h 3 root then None else h q)"
  unfolding vmx_free_ept_def
proof (rule free_root, rule free_level [OF _ assms])
  show "frees_below ept_fmt (3 - 1) vmx_free_ept_pud_range" using ept_pud_frees by simp
qed (auto simp: pt_read_def is_table_def intro: keep_entry keep_entry_free)

section \<open>Properties\<close>

text \<open>C8. Destroying the table gives back exactly its pages.  For a well formed table
  \<open>instance_destroy_ept\<close> returns: it reads no page that does not exist and frees no page twice.
  Afterwards the pages of the table, those a walk from the root can reach, are free and every other
  page is as it was.\<close>

theorem ept_teardown_exact:
  assumes wf: "pt_wf ept_fmt h (ept_root i)" and root: "ept_root i \<noteq> 0"
  shows "\<exists>i' h'. instance_destroy_ept i h = Some (i', h')
    \<and> (\<forall>q. h' q = (if \<exists>is. follow ept_fmt h 3 (ept_root i) is = Some q then None else h q))"
proof -
  have "vmx_free_ept (ept_root i) h = Some (\<lambda>q. if \<exists>is. follow ept_fmt h 3 (ept_root i) is = Some q then None else h q)"
    using ept_table_frees wf unfolding wf_tree subtree_def by simp
  then show ?thesis using root by (simp add: instance_destroy_ept_def)
qed

theorem ept_teardown_exact_witness:
  "\<exists>i' h'. instance_destroy_ept ept_example [0x1000 \<mapsto> zero_page, 0x9000 \<mapsto> zero_page] = Some (i', h')
    \<and> h' 0x1000 = None \<and> h' 0x9000 = Some zero_page"
proof -
  let ?h = "[0x1000 \<mapsto> zero_page, 0x9000 \<mapsto> zero_page] :: pt_heap"
  have r: "?h (ept_root ept_example) = Some zero_page" "ept_root ept_example = 0x1000" by (simp_all add: ept_example_def)
  from ept_teardown_exact [OF ept.fresh_table(1) [of ?h, OF r(1)]] r(2) obtain i' h' where
    h': "instance_destroy_ept ept_example ?h = Some (i', h')"
      "\<forall>q. h' q = (if \<exists>is. follow ept_fmt ?h 3 0x1000 is = Some q then None else ?h q)" by auto
  have "follow ept_fmt ?h 3 0x1000 is = Some q \<longleftrightarrow> is = [] \<and> q = 0x1000" for "is" q
    using ept.follow_zero_page [of ?h "0x1000"] by auto
  then have "h' q = (if q = 0x1000 then None else ?h q)" for q using h'(2) by simp
  then show ?thesis using h'(1) by simp
qed

end
