(* ===== verification/Slim_Svm_State.thy ===== *)
theory Slim_Svm_State
  imports Slim_Engine
begin

text \<open>
  The state of an SVM vcpu (\<^verbatim>\<open>svm.h\<close>) and of the control block the hardware shares with it.  The
  layout of \<^verbatim>\<open>struct vmcb\<close> is the kernel's; the record has the fields the module uses, the
  intercept words as one function from bit numbers.
\<close>

section \<open>The control block\<close>

record vmcb_seg =
  vs_selector :: u16
  vs_attrib :: u16
  vs_limit :: u32
  vs_base :: u64

record vmcb =
  vc_intercepts :: bitmap
  vc_iopm_base_pa :: u64
  vc_msrpm_base_pa :: u64
  vc_tsc_offset :: u64
  vc_asid :: u32
  vc_tlb_ctl :: u8
  vc_int_ctl :: u32
  vc_int_vector :: u32
  vc_int_state :: u32
  vc_exit_code :: u32
  vc_exit_info_1 :: u64
  vc_exit_info_2 :: u64
  vc_exit_int_info :: u32
  vc_exit_int_info_err :: u32
  vc_nested_ctl :: u64
  vc_event_inj :: u32
  vc_event_inj_err :: u32
  vc_nested_cr3 :: u64
  vc_clean :: u32
  vc_next_rip :: u64
  vm_es :: vmcb_seg
  vm_cs :: vmcb_seg
  vm_ss :: vmcb_seg
  vm_ds :: vmcb_seg
  vm_fs :: vmcb_seg
  vm_gs :: vmcb_seg
  vm_gdtr :: vmcb_seg
  vm_ldtr :: vmcb_seg
  vm_idtr :: vmcb_seg
  vm_tr :: vmcb_seg
  vm_cpl :: u8
  vm_efer :: u64
  vm_cr4 :: u64
  vm_cr3 :: u64
  vm_cr0 :: u64
  vm_dr7 :: u64
  vm_dr6 :: u64
  vm_rflags :: u64
  vm_rip :: u64
  vm_rsp :: u64
  vm_rax :: u64
  vm_star :: u64
  vm_lstar :: u64
  vm_cstar :: u64
  vm_sfmask :: u64
  vm_kernel_gs_base :: u64
  vm_sysenter_cs :: u64
  vm_sysenter_esp :: u64
  vm_sysenter_eip :: u64
  vm_cr2 :: u64
  vm_g_pat :: u64

section \<open>The vcpu\<close>

record svm_host_state =
  sh_gs_base :: u64
  sh_fs_sel :: u16
  sh_gs_sel :: u16
  sh_ldt_sel :: u16
  sh_gs_ldt_reload_needed :: bool
  sh_fs_reload_needed :: bool

record svm_vcpu =
  sv_cpu :: int
  sv_launched :: bool
  sv_requests :: bitmap
  sv_scheded :: bool
  sv_debug_mode :: bool
  sv_mode :: vcpu_mode
  sv_fail :: bool
  sv_exit_reason :: u64
  sv_status :: int
  sv_shutdown :: bool
  sv_vcpu_no :: nat
  sv_sigset :: u64
  sv_sigset_active :: bool
  sv_bounce_pending :: bool
  sv_vmexit_num :: int
  sv_hflags :: u32
  sv_vmcb :: vmcb
  sv_asid_generation :: u64
  sv_asid :: u32
  sv_host_state_loaded :: bool
  sv_guest_msrs_loaded :: bool
  sv_guest_xcr0_loaded :: bool
  sv_regs :: reg_file
  sv_cr2 :: u64
  sv_xcr0 :: u64
  sv_flags :: u64
  sv_host_user_msrs :: "u64 list"
  sv_host_state :: svm_host_state
  sv_nmi_pending :: bool
  sv_vmmcall_total :: int

section \<open>Requests and modes\<close>

definition svm_check_request :: "nat \<Rightarrow> svm_vcpu \<Rightarrow> bool \<times> svm_vcpu" where
  "svm_check_request req vcpu =
     (if sv_requests vcpu req then (True, vcpu\<lparr>sv_requests := bitmap_clear req (sv_requests vcpu)\<rparr>)
      else (False, vcpu))"

definition svm_make_request :: "nat \<Rightarrow> svm_vcpu \<Rightarrow> svm_vcpu" where
  "svm_make_request req vcpu = vcpu\<lparr>sv_requests := bitmap_set req (sv_requests vcpu)\<rparr>"

text \<open>\<^verbatim>\<open>cmpxchg\<close> of the mode: the old mode, and the vcpu afterwards.\<close>

definition svm_vcpu_exiting_guest_mode :: "svm_vcpu \<Rightarrow> vcpu_mode \<times> svm_vcpu" where
  "svm_vcpu_exiting_guest_mode vcpu =
     (sv_mode vcpu, if sv_mode vcpu = IN_GUEST_MODE then vcpu\<lparr>sv_mode := EXITING_GUEST_MODE\<rparr> else vcpu)"

abbreviation (input) SVM_INTERRUPT_SHADOW_MASK :: u32 where "SVM_INTERRUPT_SHADOW_MASK \<equiv> 1"

definition svm_interrupt_allowed :: "svm_vcpu \<Rightarrow> bool" where
  "svm_interrupt_allowed svm =
     (let vmcb = sv_vmcb svm in
      if vm_rflags vmcb AND 0x200 = 0 then False
      else if vc_int_state vmcb AND SVM_INTERRUPT_SHADOW_MASK \<noteq> 0 then False
      else True)"

definition svm_nmi_allowed :: "svm_vcpu \<Rightarrow> bool" where
  "svm_nmi_allowed svm \<longleftrightarrow> vc_int_state (sv_vmcb svm) AND SVM_INTERRUPT_SHADOW_MASK = 0"

definition svm_set_vcpu_mode :: "svm_vcpu \<Rightarrow> vcpu_mode \<Rightarrow> svm_vcpu" where
  "svm_set_vcpu_mode svm m = svm\<lparr>sv_mode := m\<rparr>"

definition svm_check_vcpu_mode :: "svm_vcpu \<Rightarrow> vcpu_mode \<Rightarrow> bool" where
  "svm_check_vcpu_mode svm m \<longleftrightarrow> sv_mode svm = m"

end
