(* ===== verification/Slim_Npt.thy ===== *)
theory Slim_Npt
  imports Slim_Host Slim_Mm Slim_Svm_State
begin

text \<open>
  \<^verbatim>\<open>npt.c\<close>: the nested page table of an instance on AMD hardware.  Besides the host answers that
  \<open>Slim_Host\<close> describes, two parts of the kernel enter as arguments: \<open>me\<close> is \<^verbatim>\<open>sme_me_mask\<close>, the
  address bit that marks encrypted memory (0 when the host does not use it), and \<open>cm\<close> is
  \<^verbatim>\<open>cachemode2protval\<close>.  While a range is being cleared the lock of the table may be given up; \<open>env\<close>
  says what the others do then.
\<close>

type_synonym svm_inst = "svm_vcpu vm_instance"

section \<open>Entries\<close>

abbreviation (input) NPT_LEVELS :: nat where "NPT_LEVELS \<equiv> 4"
abbreviation (input) NANOVM_HPAGE_2M_SIZE :: u64 where "NANOVM_HPAGE_2M_SIZE \<equiv> 0x200000"
abbreviation (input) SVM_NPT_FAULT_WRITE :: u64 where "SVM_NPT_FAULT_WRITE \<equiv> 2"

abbreviation (input) NPTE_P :: u64 where "NPTE_P \<equiv> 0x01"
abbreviation (input) NPTE_R_W :: u64 where "NPTE_R_W \<equiv> 0x02"
abbreviation (input) NPTE_U_S :: u64 where "NPTE_U_S \<equiv> 0x04"
abbreviation (input) NPTE_A :: u64 where "NPTE_A \<equiv> 0x20"
abbreviation (input) NPTE_D :: u64 where "NPTE_D \<equiv> 0x40"
abbreviation (input) NPTE_PFNMAP :: u64 where "NPTE_PFNMAP \<equiv> 0x200"
abbreviation (input) NPDPE_PS :: u64 where "NPDPE_PS \<equiv> 0x80"
abbreviation (input) NPTE_TYPE_UC :: u64 where "NPTE_TYPE_UC \<equiv> 0"
abbreviation (input) NPTE_TYPE_WC :: u64 where "NPTE_TYPE_WC \<equiv> 1"
abbreviation (input) NPTE_TYPE_WB :: u64 where "NPTE_TYPE_WB \<equiv> 6"
abbreviation (input) NPTE_NONE :: u64 where "NPTE_NONE \<equiv> 0"
abbreviation (input) NPTE_FULL :: u64 where "NPTE_FULL \<equiv> 7"
abbreviation (input) NPTE_FLAGS :: u64 where "NPTE_FLAGS \<equiv> 4095"
abbreviation (input) NPTE_PAGE_TABLE :: nat where "NPTE_PAGE_TABLE \<equiv> 0"
abbreviation (input) NPTE_PAGE_DIRECTORY :: nat where "NPTE_PAGE_DIRECTORY \<equiv> 1"
abbreviation (input) NPT_PDPE_SIZE :: u64 where "NPT_PDPE_SIZE \<equiv> 0x40000000"

definition sme_set :: "u64 \<Rightarrow> u64 \<Rightarrow> u64" where
  "sme_set me x = x OR me"

definition sme_clr :: "u64 \<Rightarrow> u64 \<Rightarrow> u64" where
  "sme_clr me x = x AND NOT me"

definition npt_align_down :: "u64 \<Rightarrow> u64 \<Rightarrow> u64" where
  "npt_align_down x a = x AND NOT (a - 1)"

definition npt_align_up :: "u64 \<Rightarrow> u64 \<Rightarrow> u64" where
  "npt_align_up x a = (x + a - 1) AND NOT (a - 1)"

definition pte2cachemode_tbl_npt :: "nat list" where
  "pte2cachemode_tbl_npt = [0, 2, 2, 3, 0, 2, 2, 3]"

definition npt_pgprot2cachemode :: "u64 \<Rightarrow> nat" where
  "npt_pgprot2cachemode pgprot =
     (let masked = pgprot AND 0x98 in
      if masked = 0 then 0
      else pte2cachemode_tbl_npt !
        unat ((drop_bit 5 masked AND 4) OR (drop_bit 3 masked AND 2) OR (drop_bit 3 masked AND 1)))"

definition npte_addr :: "u64 \<Rightarrow> u64" where
  "npte_addr npte = npte AND NOT 4095"

definition npte_flags :: "u64 \<Rightarrow> u64" where
  "npte_flags npte = npte AND NPTE_FLAGS"

definition npte_present :: "u64 \<Rightarrow> bool" where
  "npte_present npte \<longleftrightarrow> npte AND NPTE_P \<noteq> 0"

definition is_npte_huge :: "u64 \<Rightarrow> bool" where
  "is_npte_huge npte \<longleftrightarrow> npte AND NPDPE_PS \<noteq> 0"

text \<open>\<open>ad\<close> is \<^verbatim>\<open>cpu_has_svm_npt_ad_bits()\<close>.\<close>

definition npt_flags :: "bool \<Rightarrow> (u64 \<Rightarrow> u64) \<Rightarrow> bool \<Rightarrow> bool \<Rightarrow> u64 \<Rightarrow> u64" where
  "npt_flags ad cm write pfnmap mtype =
     (let flags = NPTE_P OR NPTE_U_S OR cm mtype;
          flags = (if write then flags OR NPTE_R_W else flags);
          flags = (if pfnmap then flags OR NPTE_PFNMAP else flags);
          flags = (if ad then (let f = flags OR NPTE_A in if write then f OR NPTE_D else f) else flags)
      in flags AND NPTE_FLAGS)"

definition npt_fmt :: "u64 \<Rightarrow> pt_format" where
  "npt_fmt me = \<lparr>fmt_present = npte_present, fmt_huge = is_npte_huge,
     fmt_addr = (\<lambda>e. npte_addr (sme_clr me e)),
     fmt_table = (\<lambda>page. npte_addr (sme_set me page) OR NPTE_FULL)\<rparr>"

definition npt_mmu_get :: "svm_inst \<Rightarrow> svm_inst" where
  "npt_mmu_get instp = instp\<lparr>npt_mmu_users := npt_mmu_users instp + 1\<rparr>"

definition npt_mmu_put :: "svm_inst \<Rightarrow> svm_inst" where
  "npt_mmu_put instp = instp\<lparr>npt_mmu_users := npt_mmu_users instp - 1\<rparr>"

section \<open>Remote TLB flushes\<close>

definition npt_flush_one :: "flush_env \<Rightarrow> nat \<Rightarrow> nat \<Rightarrow> svm_inst \<times> int set \<Rightarrow> svm_inst \<times> int set" where
  "npt_flush_one fe req n st =
     (case st of (instp, cpus) \<Rightarrow>
       (case vcpus instp n of
          None \<Rightarrow> (instp, cpus)
        | Some vcpu \<Rightarrow>
            (let vcpu1 = svm_make_request req vcpu; c = sv_cpu vcpu1 in
             if fe_cpus_ok fe \<and> c \<noteq> - 1 \<and> c \<noteq> fe_me fe then
               (let (old, vcpu2) = svm_vcpu_exiting_guest_mode vcpu1;
                    instp1 = instp\<lparr>vcpus := (vcpus instp)(n \<mapsto> vcpu2)\<rparr> in
                if old \<noteq> OUTSIDE_GUEST_MODE
                then (instp1\<lparr>ept_invl_ipi := ept_invl_ipi instp1 + 1\<rparr>, insert c cpus)
                else (instp1, cpus))
             else (instp\<lparr>vcpus := (vcpus instp)(n \<mapsto> vcpu1)\<rparr>, cpus))))"

definition npt_flush_remote_tlbs :: "flush_env \<Rightarrow> svm_inst \<Rightarrow> nat \<Rightarrow> bool \<times> int set option \<times> svm_inst" where
  "npt_flush_remote_tlbs fe instp req =
     (let (instp', cpus) =
        fold (npt_flush_one fe req) (set_bits_of (vcpu_bitmap instp) VM_MAX_VCPUS) (instp, {}) in
      if \<not> fe_cpus_ok fe then (True, None, instp')
      else if cpus \<noteq> {} then (True, Some cpus, instp')
      else (False, Some {}, instp'))"

section \<open>Statistics and lookup\<close>

definition npt_trace_mm_stat_map :: "svm_inst \<Rightarrow> u64 \<Rightarrow> svm_inst" where
  "npt_trace_mm_stat_map instp npte =
     (if npte = NPTE_NONE \<or> npte AND NPTE_PFNMAP \<noteq> 0 then instp
      else if is_npte_huge npte then instp\<lparr>ept_2m_pages := ept_2m_pages instp + 1\<rparr>
      else instp\<lparr>ept_4k_pages := ept_4k_pages instp + 1\<rparr>)"

definition npt_trace_mm_stat_unmap :: "svm_inst \<Rightarrow> u64 \<Rightarrow> svm_inst" where
  "npt_trace_mm_stat_unmap instp npte =
     (if npte = NPTE_NONE \<or> npte AND NPTE_PFNMAP \<noteq> 0 then instp
      else if is_npte_huge npte then instp\<lparr>ept_2m_pages := ept_2m_pages instp - 1\<rparr>
      else instp\<lparr>ept_4k_pages := ept_4k_pages instp - 1\<rparr>)"

definition npt_lookup_gpa :: "u64 \<Rightarrow> page_alloc \<Rightarrow> svm_inst \<Rightarrow> u64 \<Rightarrow> nat \<Rightarrow> bool \<Rightarrow> pt_heap \<Rightarrow> lookup \<times> pt_heap" where
  "npt_lookup_gpa me galloc instp gpa level create h =
     pt_walk (npt_fmt me) galloc gpa level create (NPT_LEVELS - 1) (sme_clr me (ept_root instp)) h"

definition npt_lookup_hva :: "u64 \<Rightarrow> page_alloc \<Rightarrow> svm_inst \<Rightarrow> u64 \<Rightarrow> nat \<Rightarrow> bool \<Rightarrow> pt_heap \<Rightarrow> lookup \<times> pt_heap" where
  "npt_lookup_hva me galloc instp hva level create h =
     (let gpa = hva_to_gpa instp hva in
      if gpa = ADDR_INVAL then (Fail (- EINVAL), h)
      else npt_lookup_gpa me galloc instp gpa level create h)"

section \<open>Tearing the table down\<close>

text \<open>
  Four nested loops.  The two writes that clear an entry use the index \<open>i\<close> of the outermost loop,
  as the code does.  An entry that is present and large is cleared; the page tables are freed
  inside out.
\<close>

definition svm_free_npt_pte :: "nat \<Rightarrow> u64 \<Rightarrow> pt_heap \<Rightarrow> pt_heap option" where
  "svm_free_npt_pte i pte =
     each_entry (\<lambda>l h. case pt_read h pte l of
         None \<Rightarrow> None
       | Some e \<Rightarrow> if \<not> npte_present e then Some h else Some (pt_write pte i NPTE_NONE h)) [0..<512]"

definition svm_free_npt_pmd :: "u64 \<Rightarrow> nat \<Rightarrow> u64 \<Rightarrow> pt_heap \<Rightarrow> pt_heap option" where
  "svm_free_npt_pmd me i pmd =
     each_entry (\<lambda>k h. case pt_read h pmd k of
         None \<Rightarrow> None
       | Some e \<Rightarrow>
           if \<not> npte_present e then Some h
           else if npte_flags e AND NPDPE_PS \<noteq> 0 then Some (pt_write pmd i NPTE_NONE h)
           else (case svm_free_npt_pte i (npte_addr (sme_clr me e)) h of
                   None \<Rightarrow> None
                 | Some h1 \<Rightarrow> free_page (npte_addr (sme_clr me e)) h1)) [0..<512]"

definition svm_free_npt_pud :: "u64 \<Rightarrow> nat \<Rightarrow> u64 \<Rightarrow> pt_heap \<Rightarrow> pt_heap option" where
  "svm_free_npt_pud me i pud =
     each_entry (\<lambda>j h. case pt_read h pud j of
         None \<Rightarrow> None
       | Some e \<Rightarrow>
           if \<not> npte_present e then Some h
           else (case svm_free_npt_pmd me i (npte_addr (sme_clr me e)) h of
                   None \<Rightarrow> None
                 | Some h1 \<Rightarrow> free_page (npte_addr (sme_clr me e)) h1)) [0..<512]"

definition svm_free_npt :: "u64 \<Rightarrow> u64 \<Rightarrow> pt_heap \<Rightarrow> pt_heap option" where
  "svm_free_npt me npt_root h =
     (case each_entry (\<lambda>i h. case pt_read h (sme_clr me npt_root) i of
         None \<Rightarrow> None
       | Some e \<Rightarrow>
           if \<not> npte_present e then Some h
           else (case svm_free_npt_pud me i (npte_addr (sme_clr me e)) h of
                   None \<Rightarrow> None
                 | Some h1 \<Rightarrow> free_page (npte_addr (sme_clr me e)) h1)) [0..<512] h of
        None \<Rightarrow> None
      | Some h1 \<Rightarrow> free_page (sme_clr me npt_root) h1)"

section \<open>Clearing entries\<close>

definition npt_clear_npte :: "svm_inst \<Rightarrow> u64 \<Rightarrow> nat \<Rightarrow> u64 \<Rightarrow> pt_heap \<Rightarrow> int \<times> svm_inst \<times> pt_heap" where
  "npt_clear_npte instp p idx npte_value h =
     (if npte_value = NPTE_NONE then (0, instp, h)
      else (1, npt_trace_mm_stat_unmap instp npte_value, pt_write p idx NPTE_NONE h))"

text \<open>\<^verbatim>\<open>put_page\<close> on a page table page drops its only reference and frees it.\<close>

definition npt_clear_dir :: "svm_inst \<Rightarrow> u64 \<Rightarrow> nat \<Rightarrow> u64 \<Rightarrow> pt_heap \<Rightarrow> int \<times> svm_inst \<times> pt_heap" where
  "npt_clear_dir instp p idx npte_value h =
     (if npte_value = NPTE_NONE then (0, instp, h)
      else if npte_value AND NPTE_PFNMAP \<noteq> 0 then (0, instp, pt_write p idx NPTE_NONE h)
      else
        (let instp1 = npt_trace_mm_stat_unmap instp npte_value; h1 = pt_write p idx NPTE_NONE h in
         (1, instp1, if \<not> is_npte_huge npte_value
                     then h1(push_bit PAGE_SHIFT (drop_bit PAGE_SHIFT npte_value) := None) else h1)))"

section \<open>Host pages\<close>

text \<open>Return value, page frame number and memory type.\<close>

definition npt_follow_pfn :: "host_answers \<Rightarrow> int \<times> u64 \<times> u64" where
  "npt_follow_pfn ha =
     (case h_vma ha of
        None \<Rightarrow> (- EFAULT, 0, NPTE_TYPE_WB)
      | Some (vm_flags, vm_page_prot) \<Rightarrow>
          if vm_flags AND (0x4000 OR 0x400) = 0 then (- EFAULT, 0, NPTE_TYPE_WB)
          else
            (let ty = npt_pgprot2cachemode vm_page_prot;
                 mtype = (if ty = 0 then NPTE_TYPE_WB else if ty = 1 then NPTE_TYPE_WC else NPTE_TYPE_UC)
             in (fst (h_follow ha), snd (h_follow ha), mtype)))"

definition npt_mmu_notifier_retry :: "svm_inst \<Rightarrow> u64 \<Rightarrow> bool" where
  "npt_mmu_notifier_retry instp seq \<longleftrightarrow> mmu_notifier_count instp \<noteq> 0 \<or> mmu_notifier_seq instp \<noteq> seq"

definition npt_check_hugepage_consistency :: "svm_inst \<Rightarrow> u64 \<Rightarrow> bool" where
  "npt_check_hugepage_consistency instp gpa =
     (let s = gpa_to_hva instp (gpa AND NOT (NANOVM_HPAGE_2M_SIZE - 1));
          e = gpa_to_hva instp ((gpa + NANOVM_HPAGE_2M_SIZE) AND NOT (NANOVM_HPAGE_2M_SIZE - 1))
      in if s = ADDR_INVAL \<or> e = ADDR_INVAL then False else e - s = NANOVM_HPAGE_2M_SIZE)"

definition npt_mapping_level :: "u64 \<Rightarrow> svm_inst \<Rightarrow> u64 \<Rightarrow> pt_heap \<Rightarrow> nat option" where
  "npt_mapping_level me instp gpa h =
     (if \<not> npt_check_hugepage_consistency instp gpa then Some NPTE_PAGE_TABLE
      else case fst (npt_lookup_gpa me no_alloc instp gpa NPTE_PAGE_DIRECTORY False h) of
        Wild \<Rightarrow> None
      | Fail _ \<Rightarrow> Some NPTE_PAGE_DIRECTORY
      | Entry p idx \<Rightarrow>
          (case pt_read h p idx of
             None \<Rightarrow> None
           | Some e \<Rightarrow> if npte_present e \<and> \<not> is_npte_huge e then Some NPTE_PAGE_TABLE
                       else Some NPTE_PAGE_DIRECTORY))"

definition npt_is_trans_compoundmap :: "host_page \<Rightarrow> bool" where
  "npt_is_trans_compoundmap page =
     (if \<not> pg_trans_compound page then False
      else if pg_anon page then pg_mapcount page < 0
      else pg_mapcount page = pg_head_mapcount page)"

definition npt_is_trans_hugepage :: "host_page \<Rightarrow> bool" where
  "npt_is_trans_hugepage page = (if \<not> pg_compound page then False else pg_head_thp_dtor page)"

definition npt_is_transparent_hugepage :: "host_page \<Rightarrow> bool" where
  "npt_is_transparent_hugepage page = (if \<not> npt_is_trans_compoundmap page then False else npt_is_trans_hugepage page)"

definition npt_pin_user_page :: "bool \<Rightarrow> host_answers \<Rightarrow> int \<times> host_page" where
  "npt_pin_user_page write ha =
     (if write \<and> fst (gup_fast ha) = 1 then gup_fast ha else gup_slow ha)"

definition release_npte_page :: "host_page option \<Rightarrow> bool \<Rightarrow> nested_mem \<Rightarrow> nested_mem" where
  "release_npte_page page write m =
     (case page of
        None \<Rightarrow> m
      | Some pg \<Rightarrow>
          (let m1 = (if write \<and> \<not> pg_reserved pg
                     then m\<lparr>em_dirty := (em_dirty m)(pg_pfn pg := True)\<rparr> else m)
           in m1\<lparr>em_ref := (em_ref m1)(pg_pfn pg := em_ref m1 (pg_pfn pg) - 1)\<rparr>))"

section \<open>Faults\<close>

text \<open>
  As in the EPT engine, the part of \<^verbatim>\<open>npt_set_npte\<close> before the lock samples the sequence number and
  pins the page; \<open>page\<close> is \<open>None\<close> when the frame number comes from \<^verbatim>\<open>follow_pfn\<close>.
\<close>

datatype npt_begin = Npt_return int | Npt_go u64 u64 u64 "host_page option"

definition npt_set_npte_begin :: "svm_inst \<Rightarrow> bool \<Rightarrow> host_answers \<Rightarrow> nested_mem \<Rightarrow> npt_begin \<times> nested_mem" where
  "npt_set_npte_begin instp make_write ha m =
     (let seq = mmu_notifier_seq instp; (ret, page) = npt_pin_user_page make_write ha in
      if ret = 1
      then (Npt_go seq (pg_pfn page) NPTE_TYPE_WB (Some page),
            m\<lparr>em_ref := (em_ref m)(pg_pfn page := em_ref m (pg_pfn page) + 1)\<rparr>)
      else if ret = - ENOMEM then (Npt_return ret, m)
      else if ret = - ERESTARTSYS \<or> ret = - EBUSY then (Npt_return 0, m)
      else
        (let (ret', pfn, mtype) = npt_follow_pfn ha in
         if ret' \<noteq> 0 then (Npt_return ret', m) else (Npt_go seq pfn mtype None, m)))"

definition npt_set_npte_commit :: "u64 \<Rightarrow> page_alloc \<Rightarrow> bool \<Rightarrow> u64 \<Rightarrow> nat \<Rightarrow> u64 \<Rightarrow> host_page option \<Rightarrow> svm_inst \<Rightarrow> nested_mem
    \<Rightarrow> (int \<times> svm_inst \<times> nested_mem) option" where
  "npt_set_npte_commit me galloc make_write gpa level addr page instp m =
     (let (res, h1) = npt_lookup_gpa me galloc instp gpa level True (em_heap m); m1 = m\<lparr>em_heap := h1\<rparr>
      in case res of
           Wild \<Rightarrow> None
         | Fail _ \<Rightarrow> Some (0, instp, release_npte_page page make_write m1)
         | Entry p idx \<Rightarrow>
             (case pt_read h1 p idx of
                None \<Rightarrow> None
              | Some old \<Rightarrow>
                  if npte_present old \<and> is_npte_huge old \<and> level \<noteq> NPTE_PAGE_DIRECTORY
                  then Some (0, instp, release_npte_page page make_write m1)
                  else Some (0, if npte_present old then instp else npt_trace_mm_stat_map instp addr,
                         release_npte_page page make_write
                           (m1\<lparr>em_heap := pt_write p idx (sme_set me addr) h1\<rparr>))))"

definition npt_set_npte_locked :: "u64 \<Rightarrow> bool \<Rightarrow> (u64 \<Rightarrow> u64) \<Rightarrow> page_alloc \<Rightarrow> bool \<Rightarrow> u64 \<Rightarrow> u64 \<Rightarrow> u64 \<Rightarrow> u64 \<Rightarrow> host_page option
    \<Rightarrow> svm_inst \<Rightarrow> nested_mem \<Rightarrow> (int \<times> svm_inst \<times> nested_mem) option" where
  "npt_set_npte_locked me ad cm galloc make_write gpa seq pfn mtype page instp m =
     (let flags = npt_flags ad cm make_write (page = None) mtype;
          thp = (case page of None \<Rightarrow> False | Some pg \<Rightarrow> npt_is_transparent_hugepage pg) in
      if npt_mmu_notifier_retry instp seq then Some (0, instp, release_npte_page page make_write m)
      else case (if thp then npt_mapping_level me instp gpa (em_heap m) else Some NPTE_PAGE_TABLE) of
        None \<Rightarrow> None
      | Some lvl \<Rightarrow>
          if thp \<and> lvl = NPTE_PAGE_DIRECTORY
          then npt_set_npte_commit me galloc make_write gpa NPTE_PAGE_DIRECTORY
                 (push_bit PAGE_SHIFT (pg_head_pfn (the page)) OR (flags OR NPDPE_PS)) page instp m
          else npt_set_npte_commit me galloc make_write gpa NPTE_PAGE_TABLE
                 (push_bit PAGE_SHIFT pfn OR flags) page instp m)"

definition npt_set_npte :: "u64 \<Rightarrow> bool \<Rightarrow> (u64 \<Rightarrow> u64) \<Rightarrow> page_alloc \<Rightarrow> host_answers \<Rightarrow> svm_inst \<Rightarrow> bool \<Rightarrow> u64 \<Rightarrow> nested_mem
    \<Rightarrow> (int \<times> svm_inst \<times> nested_mem) option" where
  "npt_set_npte me ad cm galloc ha instp make_write gpa m =
     (case npt_set_npte_begin instp make_write ha m of
        (Npt_return r, m1) \<Rightarrow> Some (r, instp, m1)
      | (Npt_go seq pfn mtype page, m1) \<Rightarrow>
          npt_set_npte_locked me ad cm galloc make_write gpa seq pfn mtype page instp m1)"

definition svm_do_npt_violation :: "u64 \<Rightarrow> bool \<Rightarrow> (u64 \<Rightarrow> u64) \<Rightarrow> page_alloc \<Rightarrow> (u64 \<Rightarrow> host_answers) \<Rightarrow> svm_inst \<Rightarrow> u64 \<Rightarrow> u64
    \<Rightarrow> nested_mem \<Rightarrow> (int \<times> svm_inst \<times> nested_mem) option" where
  "svm_do_npt_violation me ad cm galloc host instp gpa fault_flags m =
     (let hva = gpa_to_hva instp gpa in
      if hva = ADDR_INVAL then Some (- EINVAL, instp, m)
      else npt_set_npte me ad cm galloc (host hva) instp (fault_flags AND SVM_NPT_FAULT_WRITE \<noteq> 0) gpa m)"

section \<open>Notifier callbacks\<close>

definition npt_invalidate_page :: "u64 \<Rightarrow> flush_env \<Rightarrow> svm_inst \<Rightarrow> u64 \<Rightarrow> pt_heap \<Rightarrow> (int \<times> svm_inst \<times> pt_heap) option" where
  "npt_invalidate_page me fe instp addr h =
     (case fst (npt_lookup_hva me no_alloc instp addr NPTE_PAGE_TABLE False h) of
        Wild \<Rightarrow> None
      | Fail _ \<Rightarrow> Some (0, instp, h)
      | Entry p idx \<Rightarrow>
          (case pt_read h p idx of
             None \<Rightarrow> None
           | Some npte \<Rightarrow>
               (let instp1 = instp\<lparr>mmu_notifier_seq := mmu_notifier_seq instp + 1\<rparr>;
                    (ret, instp2, h1) = npt_clear_npte instp1 p idx npte h
                in if ret \<noteq> 0
                   then Some (ret, snd (snd (npt_flush_remote_tlbs fe instp2 SLIMVM_REQ_TLB_FLUSH)), h1)
                   else Some (ret, instp2, h1))))"

definition npt_check_page_mapped :: "u64 \<Rightarrow> svm_inst \<Rightarrow> u64 \<Rightarrow> pt_heap \<Rightarrow> int option" where
  "npt_check_page_mapped me instp addr h =
     (case fst (npt_lookup_hva me no_alloc instp addr NPTE_PAGE_TABLE False h) of
        Wild \<Rightarrow> None | Fail _ \<Rightarrow> Some 0 | Entry _ _ \<Rightarrow> Some 1)"

definition npt_check_page_accessed :: "u64 \<Rightarrow> flush_env \<Rightarrow> svm_inst \<Rightarrow> u64 \<Rightarrow> bool \<Rightarrow> pt_heap
    \<Rightarrow> (int \<times> svm_inst \<times> pt_heap) option" where
  "npt_check_page_accessed me fe instp addr flush h =
     (case fst (npt_lookup_hva me no_alloc instp addr NPTE_PAGE_TABLE False h) of
        Wild \<Rightarrow> None
      | Fail _ \<Rightarrow> Some (0, instp, h)
      | Entry p idx \<Rightarrow>
          (case pt_read h p idx of
             None \<Rightarrow> None
           | Some npte \<Rightarrow>
               (let accessed = npte AND NPTE_A; both = (of_bool flush AND accessed \<noteq> 0);
                    h1 = (if both then pt_write p idx (npte AND NOT NPTE_A) h else h);
                    instp1 = (if both then snd (snd (npt_flush_remote_tlbs fe instp SLIMVM_REQ_TLB_FLUSH)) else instp)
                in Some (c_int accessed, instp1, h1))))"

definition pdpe_addr_end :: "u64 \<Rightarrow> u64 \<Rightarrow> u64" where
  "pdpe_addr_end start fin =
     (let boundary = (start + NPT_PDPE_SIZE) AND NOT (NPT_PDPE_SIZE - 1)
      in if boundary - 1 < fin - 1 then boundary else fin)"

text \<open>The environment of one clearing loop: what others do when the lock is given up at address \<open>s\<close>.\<close>

type_synonym npt_env = "u64 \<Rightarrow> svm_inst \<times> pt_heap \<Rightarrow> svm_inst \<times> pt_heap"

partial_function (option) npt_clear_page_table_loop :: "npt_env \<Rightarrow> u64 \<Rightarrow> u64 \<Rightarrow> u64 \<Rightarrow> u64 \<Rightarrow> svm_inst \<Rightarrow> pt_heap
    \<Rightarrow> (svm_inst \<times> pt_heap) option" where
  "npt_clear_page_table_loop env me s e n instp h =
     (if s < e then
        (case (case fst (npt_lookup_hva me no_alloc instp s NPTE_PAGE_TABLE False h) of
                 Wild \<Rightarrow> None
               | Fail _ \<Rightarrow> Some (s + PAGE_SIZE, instp, h)
               | Entry p idx \<Rightarrow>
                   (case pt_read h p idx of
                      None \<Rightarrow> None
                    | Some npte \<Rightarrow>
                        if is_npte_huge npte then
                          (let down = npt_align_down s NANOVM_HPAGE_2M_SIZE; up = npt_align_up s NANOVM_HPAGE_2M_SIZE
                           in Some (down + NANOVM_HPAGE_2M_SIZE,
                                if s > down \<or> e < up then snd (npt_clear_npte instp p idx npte h) else (instp, h)))
                        else Some (s + PAGE_SIZE, snd (npt_clear_npte instp p idx npte h)))) of
           None \<Rightarrow> None
         | Some (s1, instp1, h1) \<Rightarrow>
             if s1 = n \<and> s1 \<noteq> e then
               (case env s1 (instp1, h1) of (instp2, h2) \<Rightarrow>
                  if ept_root instp2 = 0 then Some (instp2, h2)
                  else npt_clear_page_table_loop env me s1 e (pdpe_addr_end s1 e) instp2 h2)
             else npt_clear_page_table_loop env me s1 e n instp1 h1)
      else Some (instp, h))"

definition npt_clear_page_table :: "npt_env \<Rightarrow> u64 \<Rightarrow> svm_inst \<Rightarrow> u64 \<Rightarrow> u64 \<Rightarrow> pt_heap \<Rightarrow> (svm_inst \<times> pt_heap) option" where
  "npt_clear_page_table env me instp start fin h =
     (let s = npte_addr start; e = npte_addr (fin + PAGE_SIZE - 1); n = pdpe_addr_end s e
      in npt_clear_page_table_loop env me s e n instp h)"

partial_function (option) npt_clear_page_directory_loop :: "u64 \<Rightarrow> u64 \<Rightarrow> u64 \<Rightarrow> svm_inst \<Rightarrow> pt_heap
    \<Rightarrow> (svm_inst \<times> pt_heap) option" where
  "npt_clear_page_directory_loop me s e instp h =
     (if s < e then
        (case fst (npt_lookup_hva me no_alloc instp s NPTE_PAGE_DIRECTORY False h) of
           Wild \<Rightarrow> None
         | Fail _ \<Rightarrow> npt_clear_page_directory_loop me (s + NANOVM_HPAGE_2M_SIZE) e instp h
         | Entry p idx \<Rightarrow>
             (case pt_read h p idx of
                None \<Rightarrow> None
              | Some npte \<Rightarrow>
                  (case npt_clear_dir instp p idx npte h of (_, instp1, h1) \<Rightarrow>
                     npt_clear_page_directory_loop me (s + NANOVM_HPAGE_2M_SIZE) e instp1 h1)))
      else Some (instp, h))"

definition npt_clear_page_directory :: "u64 \<Rightarrow> svm_inst \<Rightarrow> u64 \<Rightarrow> u64 \<Rightarrow> pt_heap \<Rightarrow> (svm_inst \<times> pt_heap) option" where
  "npt_clear_page_directory me instp start fin h =
     (if ept_root instp = 0 then Some (instp, h)
      else npt_clear_page_directory_loop me (npt_align_up start NANOVM_HPAGE_2M_SIZE)
             (npt_align_down fin NANOVM_HPAGE_2M_SIZE) instp h)"

definition npt_mmu_notifier_invalidate_range_start :: "npt_env \<Rightarrow> u64 \<Rightarrow> flush_env \<Rightarrow> svm_inst \<Rightarrow> u64 \<Rightarrow> u64 \<Rightarrow> pt_heap
    \<Rightarrow> (svm_inst \<times> pt_heap) option" where
  "npt_mmu_notifier_invalidate_range_start env me fe instp start fin h =
     (let instp0 = npt_mmu_get instp in
      case npt_clear_page_table env me (instp0\<lparr>mmu_notifier_count := mmu_notifier_count instp0 + 1\<rparr>) start fin h of
        None \<Rightarrow> None
      | Some (instp1, h1) \<Rightarrow>
          (case npt_clear_page_directory me instp1 start fin h1 of
             None \<Rightarrow> None
           | Some (instp2, h2) \<Rightarrow>
               (let instp3 = instp2\<lparr>ept_invl_count := ept_invl_count instp2 + 1,
                      ept_invl_range := ept_invl_range instp2 + (fin - start)\<rparr>;
                    instp4 = snd (snd (npt_flush_remote_tlbs fe instp3 SLIMVM_REQ_TLB_FLUSH))
                in Some (npt_mmu_put instp4, h2))))"

definition npt_mmu_notifier_invalidate_range_end :: "svm_inst \<Rightarrow> svm_inst" where
  "npt_mmu_notifier_invalidate_range_end instp =
     (let instp0 = npt_mmu_get instp;
          instp1 = instp0\<lparr>mmu_notifier_seq := mmu_notifier_seq instp0 + 1,
            mmu_notifier_count := mmu_notifier_count instp0 - 1\<rparr>
      in npt_mmu_put instp1)"

definition npt_mmu_notifier_change_pte :: "u64 \<Rightarrow> flush_env \<Rightarrow> svm_inst \<Rightarrow> u64 \<Rightarrow> pt_heap \<Rightarrow> (svm_inst \<times> pt_heap) option" where
  "npt_mmu_notifier_change_pte me fe instp address h =
     (case npt_invalidate_page me fe (npt_mmu_get instp) address h of
        None \<Rightarrow> None | Some (_, instp1, h1) \<Rightarrow> Some (npt_mmu_put instp1, h1))"

text \<open>The loop \<^verbatim>\<open>for (; start < end; start += PAGE_SIZE) ret |= ...\<close> over one of two bodies.\<close>

partial_function (option) npt_young_loop :: "(svm_inst \<Rightarrow> u64 \<Rightarrow> pt_heap \<Rightarrow> (int \<times> svm_inst \<times> pt_heap) option)
    \<Rightarrow> u64 \<Rightarrow> u64 \<Rightarrow> int \<Rightarrow> svm_inst \<Rightarrow> pt_heap \<Rightarrow> (int \<times> svm_inst \<times> pt_heap) option" where
  "npt_young_loop body start fin ret instp h =
     (if start < fin then
        (case body instp start h of
           None \<Rightarrow> None
         | Some (r, instp1, h1) \<Rightarrow> npt_young_loop body (start + PAGE_SIZE) fin (ret OR r) instp1 h1)
      else Some (ret, instp, h))"

definition npt_mmu_notifier_clear_flush_young :: "bool \<Rightarrow> u64 \<Rightarrow> flush_env \<Rightarrow> svm_inst \<Rightarrow> u64 \<Rightarrow> u64 \<Rightarrow> pt_heap
    \<Rightarrow> (int \<times> svm_inst \<times> pt_heap) option" where
  "npt_mmu_notifier_clear_flush_young ad me fe instp start fin h =
     (case (if ad then npt_young_loop (npt_invalidate_page me fe) start fin 0 (npt_mmu_get instp) h
            else npt_young_loop (\<lambda>instp a. npt_check_page_accessed me fe instp a True) start fin 0 (npt_mmu_get instp) h) of
        None \<Rightarrow> None | Some (ret, instp1, h1) \<Rightarrow> Some (ret, npt_mmu_put instp1, h1))"

definition npt_mmu_notifier_test_young :: "bool \<Rightarrow> u64 \<Rightarrow> flush_env \<Rightarrow> svm_inst \<Rightarrow> u64 \<Rightarrow> pt_heap
    \<Rightarrow> (int \<times> svm_inst) option" where
  "npt_mmu_notifier_test_young ad me fe instp address h =
     (let instp0 = npt_mmu_get instp in
      if ad then map_option (\<lambda>ret. (ret, npt_mmu_put instp0)) (npt_check_page_mapped me instp0 address h)
      else map_option (\<lambda>(ret, instp1, _). (ret, npt_mmu_put instp1)) (npt_check_page_accessed me fe instp0 address False h))"

definition npt_mmu_notifier_release :: "svm_inst \<Rightarrow> svm_inst" where
  "npt_mmu_notifier_release instp = instp"

definition npt_mmu_notifier_clear_young :: "svm_inst \<Rightarrow> u64 \<Rightarrow> u64 \<Rightarrow> int" where
  "npt_mmu_notifier_clear_young instp start fin = 0"

section \<open>Set-up and destruction\<close>

text \<open>\<open>r\<close> is the result of \<^verbatim>\<open>mmu_notifier_register\<close>.\<close>

definition npt_register_mmu_notifier :: "int \<Rightarrow> svm_inst \<Rightarrow> int \<times> svm_inst" where
  "npt_register_mmu_notifier r instp =
     (r, instp\<lparr>notifier_ops := True,
          notifier_regs := (if r = 0 then notifier_regs instp + 1 else notifier_regs instp)\<rparr>)"

definition construct_nptp :: "u64 \<Rightarrow> u64" where
  "construct_nptp root_hpa = 0 OR (root_hpa AND NOT 4095)"

definition instance_alloc_nptp :: "u64 \<Rightarrow> page_alloc \<Rightarrow> svm_inst \<Rightarrow> pt_heap \<Rightarrow> int \<times> svm_inst \<times> pt_heap" where
  "instance_alloc_nptp me galloc instp h =
     (case galloc h of
        None \<Rightarrow> (- ENOMEM, instp, h)
      | Some page \<Rightarrow> (0, instp\<lparr>ept_root := sme_set me page, eptp := construct_nptp (sme_set me page)\<rparr>,
          h(page \<mapsto> zero_page)))"

definition instance_init_npt :: "int \<Rightarrow> svm_inst \<Rightarrow> int \<times> svm_inst" where
  "instance_init_npt r instp = npt_register_mmu_notifier r instp"

text \<open>
  \<open>wait\<close> is the loop that waits for the callbacks still running: the instance and memory when it
  ends, \<open>None\<close> when it never does.
\<close>

definition instance_destroy_npt :: "u64 \<Rightarrow> (svm_inst \<times> pt_heap \<Rightarrow> (svm_inst \<times> pt_heap) option) \<Rightarrow> svm_inst \<Rightarrow> pt_heap
    \<Rightarrow> (svm_inst \<times> pt_heap) option" where
  "instance_destroy_npt me wait instp h =
     (let instp1 = (if notifier_ops instp then instp\<lparr>notifier_regs := notifier_regs instp - 1\<rparr> else instp);
          vmpt_root = ept_root instp1;
          instp2 = instp1\<lparr>ept_root := 0\<rparr>
      in case (if npt_mmu_users instp2 \<noteq> 0 then wait (instp2, h) else Some (instp2, h)) of
           None \<Rightarrow> None
         | Some (instp3, h1) \<Rightarrow>
             (case (if vmpt_root \<noteq> 0 then svm_free_npt me (sme_clr me vmpt_root) h1 else Some h1) of
                None \<Rightarrow> None
              | Some h2 \<Rightarrow> Some (instp3, h2)))"

end
