(* ===== verification/Slim_Npt_Fault.thy ===== *)
theory Slim_Npt_Fault
  imports Slim_Range Slim_Npt
begin

text \<open>
  The NPT format obeys the laws of \<open>pt_laws\<close> whatever the encryption bit is, as long as it is not an
  offset into a page, and with them a fault of \<^verbatim>\<open>npt.c\<close> is safe.
\<close>

section \<open>The NPT format\<close>

text \<open>Pages that may hold a table: page aligned and without the encryption bit.\<close>

definition npt_page_ok :: "u64 \<Rightarrow> u64 \<Rightarrow> bool" where
  "npt_page_ok me q \<longleftrightarrow> q AND 4095 = 0 \<and> q AND me = 0 \<and> me AND 4095 = 0"

lemma and_zero_bit: "x AND y = (0 :: u64) \<Longrightarrow> bit x n \<Longrightarrow> \<not> bit y n"
proof
  assume z: "x AND y = 0" and b: "bit x n" "bit y n"
  from b have "bit (x AND y) n" by (simp add: bit_and_iff)
  then show False unfolding z by simp
qed

lemma low_zero_bit: "x AND 4095 = (0 :: u64) \<Longrightarrow> bit x n \<Longrightarrow> 12 \<le> n"
  using and_zero_bit [of x 4095 n] by (auto simp: page_mask bit_mask_iff not_le dest: bit_imp_le_length)

lemma npte_table:
  assumes "npt_page_ok me q"
  shows "npte_addr (sme_clr me (npte_addr (sme_set me q) OR NPTE_FULL)) = q"
    "npte_present (npte_addr (sme_set me q) OR NPTE_FULL)"
    "\<not> is_npte_huge (npte_addr (sme_set me q) OR NPTE_FULL)"
proof -
  have ok: "q AND 4095 = 0" "q AND me = 0" "me AND 4095 = 0" using assms by (simp_all add: npt_page_ok_def)
  have qm: "(q OR me) AND 4095 = 0" by (simp only: bit.conj_disj_distrib2 ok or.right_neutral)
  have a: "npte_addr (sme_set me q) = q OR me"
    using and_plus_and_not [of "q OR me" 4095] qm by (simp add: npte_addr_def sme_set_def)
  have f: "(q OR me OR 7) AND 4095 = 7" "(q OR me OR 7) AND NOT 4095 = q OR me"
    using aligned_or_flags [OF qm, of 7] by (simp_all add: or.assoc)
  have q: "q AND NOT me = q" using and_plus_and_not [of q me] ok(2) by simp
  have "((q OR me OR 7) AND NOT me) AND NOT 4095 = ((q OR me OR 7) AND NOT 4095) AND NOT me"
    by (simp only: and.assoc and.commute)
  also have "\<dots> = (q OR me) AND NOT me" by (simp only: f)
  also have "\<dots> = q" by (simp only: bit.conj_disj_distrib2 q bit.conj_cancel_right or.right_neutral)
  finally show "npte_addr (sme_clr me (npte_addr (sme_set me q) OR NPTE_FULL)) = q"
    unfolding a by (simp only: npte_addr_def sme_clr_def or.assoc)
  have "(q OR me OR 7) AND 1 = 1" "(q OR me OR 7) AND 128 = 0"
    using and_sub_mask [OF _ f(1), of 1] and_sub_mask [OF _ f(1), of 128] by simp_all
  then show "npte_present (npte_addr (sme_set me q) OR NPTE_FULL)" "\<not> is_npte_huge (npte_addr (sme_set me q) OR NPTE_FULL)"
    unfolding a by (simp_all add: npte_present_def is_npte_huge_def or.assoc)
qed

interpretation npt: pt_laws "npt_fmt me" "npt_page_ok me" for me
  by unfold_locales (simp_all add: npt_fmt_def npte_table, simp_all add: npte_present_def is_npte_huge_def)

lemma npt_fmt_simps [simp]:
  "fmt_present (npt_fmt me) = npte_present" "fmt_huge (npt_fmt me) = is_npte_huge"
  "fmt_addr (npt_fmt me) = (\<lambda>e. npte_addr (sme_clr me e))"
  by (simp_all add: npt_fmt_def)

abbreviation npt_root :: "u64 \<Rightarrow> svm_inst \<Rightarrow> u64" where
  "npt_root me i \<equiv> sme_clr me (ept_root i)"

text \<open>
  What the engine relies on: the encryption bit is an address bit, and the protection bits of the
  cache modes it uses do not include the bit that marks a large entry.
\<close>

definition npt_host_ok :: "u64 \<Rightarrow> (u64 \<Rightarrow> u64) \<Rightarrow> bool" where
  "npt_host_ok me cm \<longleftrightarrow> me AND 4095 = 0 \<and> (\<forall>m \<in> {NPTE_TYPE_UC, NPTE_TYPE_WC, NPTE_TYPE_WB}. cm m AND NPDPE_PS = 0)"

lemma is_npte_huge_bit: "is_npte_huge e \<longleftrightarrow> bit e 7"
  using and_exp_eq_0_iff_not_bit [of e 7] by (simp add: is_npte_huge_def)

lemma npte_present_bit: "npte_present e \<longleftrightarrow> bit e 0"
  using and_exp_eq_0_iff_not_bit [of e 0] by (simp add: npte_present_def)

lemma npt_flags_bits:
  "bit (npt_flags ad cm write pfnmap mtype) 0"
  "cm mtype AND NPDPE_PS = 0 \<Longrightarrow> \<not> bit (npt_flags ad cm write pfnmap mtype) 7"
proof -
  show "bit (npt_flags ad cm write pfnmap mtype) 0"
    by (simp add: npt_flags_def Let_def bit_or_iff bit_and_iff)
  show "\<not> bit (npt_flags ad cm write pfnmap mtype) 7" if "cm mtype AND NPDPE_PS = 0"
    using that and_exp_eq_0_iff_not_bit [of "cm mtype" 7]
    by (simp add: npt_flags_def Let_def bit_or_iff bit_and_iff)
qed

text \<open>The entry a fault installs: always present, and large exactly when it is meant to be.\<close>

lemma npt_fault_entry:
  assumes "npt_host_ok me cm" "mtype \<in> {NPTE_TYPE_UC, NPTE_TYPE_WC, NPTE_TYPE_WB}"
  shows "npte_present (sme_set me (push_bit 12 pfn OR npt_flags ad cm write pfnmap mtype))"
    "\<not> is_npte_huge (sme_set me (push_bit 12 pfn OR npt_flags ad cm write pfnmap mtype))"
    "npte_present (sme_set me (push_bit 12 pfn OR (npt_flags ad cm write pfnmap mtype OR NPDPE_PS)))"
    "is_npte_huge (sme_set me (push_bit 12 pfn OR (npt_flags ad cm write pfnmap mtype OR NPDPE_PS)))"
proof -
  have "me AND 4095 = 0" and c: "cm mtype AND NPDPE_PS = 0" using assms unfolding npt_host_ok_def by blast+
  then have me: "\<not> bit me 7" using low_zero_bit [of me 7] by auto
  note f = npt_flags_bits(1) npt_flags_bits(2) [of cm mtype, OF c]
  have p: "\<not> bit (push_bit 12 pfn :: u64) 7" by (simp add: bit_push_bit_iff)
  show "npte_present (sme_set me (push_bit 12 pfn OR npt_flags ad cm write pfnmap mtype))"
    "npte_present (sme_set me (push_bit 12 pfn OR (npt_flags ad cm write pfnmap mtype OR NPDPE_PS)))"
    using f(1) by (simp_all only: npte_present_bit sme_set_def bit_or_iff simp_thms)
  show "\<not> is_npte_huge (sme_set me (push_bit 12 pfn OR npt_flags ad cm write pfnmap mtype))"
    using f(2) p me by (simp only: is_npte_huge_bit sme_set_def bit_or_iff simp_thms)
  have "bit (0x80 :: u64) 7" by simp
  then show "is_npte_huge (sme_set me (push_bit 12 pfn OR (npt_flags ad cm write pfnmap mtype OR NPDPE_PS)))"
    by (simp only: is_npte_huge_bit sme_set_def bit_or_iff simp_thms)
qed

section \<open>Faults\<close>

text \<open>The entries a fault may install at level \<open>lv\<close>, given what it pinned or found.\<close>

definition npt_fault_leaf :: "u64 \<Rightarrow> bool \<Rightarrow> (u64 \<Rightarrow> u64) \<Rightarrow> bool \<Rightarrow> u64 \<Rightarrow> u64 \<Rightarrow> host_page option \<Rightarrow> nat \<Rightarrow> u64 \<Rightarrow> bool" where
  "npt_fault_leaf me ad cm write pfn mtype page lv e \<longleftrightarrow>
     lv = 0 \<and> e = sme_set me (push_bit PAGE_SHIFT pfn OR npt_flags ad cm write (page = None) mtype)
     \<or> lv = 1 \<and> (\<exists>pg. page = Some pg \<and> npt_is_transparent_hugepage pg
          \<and> e = sme_set me (push_bit PAGE_SHIFT (pg_head_pfn pg) OR (npt_flags ad cm write False mtype OR NPDPE_PS)))"

definition npt_fault_source :: "host_answers \<Rightarrow> bool \<Rightarrow> u64 \<Rightarrow> u64 \<Rightarrow> host_page option \<Rightarrow> bool" where
  "npt_fault_source ha w pfn mtype page \<longleftrightarrow>
     (\<exists>pg. npt_pin_user_page w ha = (1, pg) \<and> page = Some pg \<and> pfn = pg_pfn pg \<and> mtype = NPTE_TYPE_WB)
     \<or> fst (npt_pin_user_page w ha) \<noteq> 1 \<and> page = None \<and> npt_follow_pfn ha = (0, pfn, mtype)"

lemma npt_follow_type:
  "npt_follow_pfn ha = (0, pfn, mtype) \<Longrightarrow> mtype \<in> {NPTE_TYPE_UC, NPTE_TYPE_WC, NPTE_TYPE_WB}"
  by (auto simp: npt_follow_pfn_def Let_def split: option.splits prod.splits if_splits)

lemma release_heap [simp]: "em_heap (release_npte_page page w m) = em_heap m"
  by (simp add: release_npte_page_def Let_def split: option.splits)

lemma release_ref:
  "em_ref (release_npte_page page w m) = (case page of None \<Rightarrow> em_ref m
     | Some pg \<Rightarrow> (em_ref m)(pg_pfn pg := em_ref m (pg_pfn pg) - 1))"
  by (simp add: release_npte_page_def Let_def split: option.splits)

lemma npt_trace_map_stat: "stat_only i (npt_trace_mm_stat_map i e)"
  by (simp add: npt_trace_mm_stat_map_def stat_only_counters)

lemma npt_mapping_level_total:
  assumes "pt_wf (npt_fmt me) h (npt_root me i)"
  shows "npt_mapping_level me i gpa h = Some 0 \<or> npt_mapping_level me i gpa h = Some 1"
proof -
  obtain res where r: "npt_lookup_gpa me no_alloc i gpa 1 False h = (res, h)"
      "npt.lookup_ok me (npt_root me i) False 1 gpa h res"
    using npt.walk_root_nocreate [OF _ assms, of 1] by (auto simp: npt_lookup_gpa_def)
  show ?thesis
  proof (cases res)
    case (Entry p idx)
    then have "follow (npt_fmt me) h 3 (npt_root me i) (gpa_path gpa 1) = Some p" using r(2) by (auto simp: npt.lookup_ok_def)
    then obtain pg where "h p = Some pg" using assms unfolding pt_wf_def by blast
    then show ?thesis using r Entry by (simp add: npt_mapping_level_def pt_read_def)
  qed (use r in \<open>simp_all add: npt_mapping_level_def npt.lookup_ok_def\<close>)
qed

lemma npt_set_npte_commit_eq:
  "npt_set_npte_commit me galloc w gpa level addr page i m =
     (case pt_commit (npt_fmt me) galloc (npt_root me i) gpa level (sme_set me addr) (em_heap m) of
        None \<Rightarrow> None
      | Some (None, h1) \<Rightarrow> Some (0, i, release_npte_page page w (m\<lparr>em_heap := h1\<rparr>))
      | Some (Some old, h1) \<Rightarrow> Some (0, if npte_present old then i else npt_trace_mm_stat_map i addr,
          release_npte_page page w (m\<lparr>em_heap := h1\<rparr>)))"
  by (simp add: npt_set_npte_commit_def pt_commit_def npt_lookup_gpa_def Let_def split: prod.split lookup.split option.split)

text \<open>
  The outcome of the locked part: it finishes, the table stays well formed and clean, the
  reference on the page is gone, only the translation of \<open>gpa\<close> may change, and of the instance only
  the page statistics.
\<close>

definition npt_locked_ok :: "u64 \<Rightarrow> (nat \<Rightarrow> u64 \<Rightarrow> bool) \<Rightarrow> u64 \<Rightarrow> host_page option \<Rightarrow> svm_inst \<Rightarrow> nested_mem
    \<Rightarrow> svm_inst \<Rightarrow> nested_mem \<Rightarrow> bool" where
  "npt_locked_ok me ok gpa page i m i' m' \<longleftrightarrow>
     pt_wf (npt_fmt me) (em_heap m') (npt_root me i)
     \<and> (pt_clean (npt_fmt me) (em_heap m) (npt_root me i) \<longrightarrow> pt_clean (npt_fmt me) (em_heap m') (npt_root me i))
     \<and> em_ref m' = (case page of None \<Rightarrow> em_ref m | Some pg \<Rightarrow> (em_ref m)(pg_pfn pg := em_ref m (pg_pfn pg) - 1))
     \<and> maps_only (npt_fmt me) (npt_root me i) ok gpa (em_heap m) (em_heap m')
     \<and> stat_only i i'"

lemma npt_locked_unchanged:
  assumes "npt.pt_extends me (npt_root me i) (em_heap m) h1"
  shows "npt_locked_ok me ok gpa page i m i (release_npte_page page b (m\<lparr>em_heap := h1\<rparr>))"
  using assms by (simp add: npt_locked_ok_def npt.pt_extends_def maps_only_refl release_ref split: option.splits)

lemma npt_commit_ok:
  assumes ga: "npt.galloc_ok me galloc" and wf: "pt_wf (npt_fmt me) (em_heap m) (npt_root me i)"
    and lv: "level = 0 \<and> \<not> is_npte_huge (sme_set me addr) \<or> level = 1 \<and> is_npte_huge (sme_set me addr)"
    and pr: "npte_present (sme_set me addr)" and fl: "ok level (sme_set me addr)"
  shows "\<exists>i' m'. npt_set_npte_commit me galloc w gpa level addr page i m = Some (0, i', m')
    \<and> npt_locked_ok me ok gpa page i m i' m'"
proof -
  let ?v = "sme_set me addr"
  have lv': "level = 0 \<and> \<not> fmt_huge (npt_fmt me) ?v \<or> level = 1 \<and> fmt_huge (npt_fmt me) ?v"
    and pr': "fmt_present (npt_fmt me) ?v" using lv pr by simp_all
  from ga wf lv' pr' show ?thesis
  proof (cases rule: npt.commit_cases [where gpa = gpa])
    case (kept h1)
    then show ?thesis using npt_locked_unchanged [of me i m h1] by (simp add: npt_set_npte_commit_eq)
  next
    case (installed old h1)
    have "maps_only (npt_fmt me) (npt_root me i) ok gpa (em_heap m) h1"
      using installed(4) fl unfolding maps_only_def by auto
    then show ?thesis
      using installed npt_trace_map_stat
      by (simp add: npt_set_npte_commit_eq npt_locked_ok_def release_ref split: option.splits)
  qed
qed

lemma npt_set_locked_ok:
  assumes ho: "npt_host_ok me cm" and ga: "npt.galloc_ok me galloc"
    and wf: "pt_wf (npt_fmt me) (em_heap m) (npt_root me i)"
    and mt: "mtype \<in> {NPTE_TYPE_UC, NPTE_TYPE_WC, NPTE_TYPE_WB}"
  shows "\<exists>i' m'. npt_set_npte_locked me ad cm galloc w gpa seq pfn mtype page i m = Some (0, i', m')
    \<and> npt_locked_ok me (npt_fault_leaf me ad cm w pfn mtype page) gpa page i m i' m'"
proof (cases "npt_mmu_notifier_retry i seq")
  case True
  then show ?thesis
    using npt_locked_unchanged [OF npt.pt_extends_refl [OF wf]] by (simp add: npt_set_npte_locked_def)
next
  case False
  note fe = npt_fault_entry [OF ho mt]
  let ?small = "push_bit PAGE_SHIFT pfn OR npt_flags ad cm w (page = None) mtype"
  have small: "\<exists>i' m'. npt_set_npte_commit me galloc w gpa 0 ?small page i m = Some (0, i', m')
      \<and> npt_locked_ok me (npt_fault_leaf me ad cm w pfn mtype page) gpa page i m i' m'"
    by (rule npt_commit_ok [OF ga wf]) (use fe in \<open>auto simp: npt_fault_leaf_def\<close>)
  have large: "\<exists>i' m'. npt_set_npte_commit me galloc w gpa 1
        (push_bit PAGE_SHIFT (pg_head_pfn pg) OR (npt_flags ad cm w False mtype OR NPDPE_PS)) (Some pg) i m = Some (0, i', m')
      \<and> npt_locked_ok me (npt_fault_leaf me ad cm w pfn mtype (Some pg)) gpa (Some pg) i m i' m'"
    if "npt_is_transparent_hugepage pg" for pg
    by (rule npt_commit_ok [OF ga wf]) (use fe that in \<open>auto simp: npt_fault_leaf_def\<close>)
  show ?thesis
  proof (cases "\<exists>pg. page = Some pg \<and> npt_is_transparent_hugepage pg")
    case True
    then obtain pg where "page = Some pg" "npt_is_transparent_hugepage pg" by blast
    then show ?thesis
      using False npt_mapping_level_total [OF wf, of gpa] small large by (auto simp: npt_set_npte_locked_def Let_def)
  next
    case no: False
    then have "(case page of None \<Rightarrow> False | Some pg \<Rightarrow> npt_is_transparent_hugepage pg) = False"
      by (auto split: option.splits)
    then show ?thesis using False small by (simp add: npt_set_npte_locked_def Let_def)
  qed
qed

lemma npt_begin_cases:
  obtains (ret) r where "npt_set_npte_begin i w ha m = (Npt_return r, m)"
  | (go) pfn mtype page where
      "npt_set_npte_begin i w ha m = (Npt_go (mmu_notifier_seq i) pfn mtype page,
         m\<lparr>em_ref := (case page of None \<Rightarrow> em_ref m | Some pg \<Rightarrow> (em_ref m)(pg_pfn pg := em_ref m (pg_pfn pg) + 1))\<rparr>)"
      "npt_fault_source ha w pfn mtype page" "mtype \<in> {NPTE_TYPE_UC, NPTE_TYPE_WC, NPTE_TYPE_WB}"
proof -
  obtain ret pg where p: "npt_pin_user_page w ha = (ret, pg)" by fastforce
  obtain r pfn mtype where f: "npt_follow_pfn ha = (r, pfn, mtype)" by (metis prod_cases3)
  show ?thesis
  proof (cases "ret = 1")
    case True
    then show ?thesis using go [of "pg_pfn pg" NPTE_TYPE_WB "Some pg"] p by (simp add: npt_set_npte_begin_def npt_fault_source_def)
  next
    case False
    then have b: "npt_set_npte_begin i w ha m =
       (if ret = - ENOMEM then (Npt_return ret, m)
        else if ret = - ERESTARTSYS \<or> ret = - EBUSY then (Npt_return 0, m)
        else if r \<noteq> 0 then (Npt_return r, m) else (Npt_go (mmu_notifier_seq i) pfn mtype None, m))"
      using p f by (simp add: npt_set_npte_begin_def)
    show ?thesis
    proof (cases "ret = - ENOMEM \<or> ret = - ERESTARTSYS \<or> ret = - EBUSY \<or> r \<noteq> 0")
      case True
      then show ?thesis using b by (auto intro: ret split: if_splits)
    next
      case no: False
      then have "npt_follow_pfn ha = (0, pfn, mtype)" using f by simp
      with no False show ?thesis
        using go [of pfn mtype None] b p npt_follow_type by (auto simp: npt_fault_source_def)
    qed
  qed
qed

section \<open>Properties\<close>

text \<open>C12. A fault of the NPT engine is safe.  On a well formed table, with an allocator that hands out
  unused pages without the encryption bit, \<open>svm_do_npt_violation\<close> always returns, never reads outside
  the table, leaves the table well formed, and gives back every page reference it took.  The
  translation of an address changes only when the address shares the faulting slot, and then only
  to the page that was pinned (or found by \<^verbatim>\<open>follow_pfn\<close>), marked encrypted when the host encrypts.\<close>

theorem npt_violation_safe:
  assumes ho: "npt_host_ok me cm" and "\<forall>h q. galloc h = Some q \<longrightarrow> h q = None \<and> npt_page_ok me q"
    and wf: "pt_wf (npt_fmt me) (em_heap m) (npt_root me i)"
  shows "\<exists>r i' m'. svm_do_npt_violation me ad cm galloc host i gpa ff m = Some (r, i', m')
    \<and> pt_wf (npt_fmt me) (em_heap m') (npt_root me i) \<and> ept_root i' = ept_root i \<and> em_ref m' = em_ref m
    \<and> (\<forall>g. leaf (npt_fmt me) (em_heap m') (npt_root me i) g = leaf (npt_fmt me) (em_heap m) (npt_root me i) g
         \<or> (\<exists>lv e pfn mtype page. leaf (npt_fmt me) (em_heap m') (npt_root me i) g = Some (lv, e) \<and> same_slot lv gpa g
              \<and> npt_fault_source (host (gpa_to_hva i gpa)) (ff AND SVM_NPT_FAULT_WRITE \<noteq> 0) pfn mtype page
              \<and> npt_fault_leaf me ad cm (ff AND SVM_NPT_FAULT_WRITE \<noteq> 0) pfn mtype page lv e))"
proof (cases "gpa_to_hva i gpa = ADDR_INVAL")
  case True
  then show ?thesis using wf by (simp add: svm_do_npt_violation_def)
next
  case False
  have ga: "npt.galloc_ok me galloc" using assms(2) by (simp add: npt.galloc_ok_def)
  let ?w = "ff AND SVM_NPT_FAULT_WRITE \<noteq> 0" and ?ha = "host (gpa_to_hva i gpa)"
  show ?thesis
  proof (cases rule: npt_begin_cases [of i ?w ?ha m])
    case (ret r)
    then show ?thesis using wf False by (simp add: svm_do_npt_violation_def npt_set_npte_def)
  next
    case (go pfn mtype page)
    let ?m = "m\<lparr>em_ref := (case page of None \<Rightarrow> em_ref m | Some pg \<Rightarrow> (em_ref m)(pg_pfn pg := em_ref m (pg_pfn pg) + 1))\<rparr>"
    have wf': "pt_wf (npt_fmt me) (em_heap ?m) (npt_root me i)" using wf by simp
    obtain i' m' where l: "npt_set_npte_locked me ad cm galloc ?w gpa (mmu_notifier_seq i) pfn mtype page i ?m = Some (0, i', m')"
        "npt_locked_ok me (npt_fault_leaf me ad cm ?w pfn mtype page) gpa page i ?m i' m'"
      using npt_set_locked_ok [OF ho ga wf' go(3), of ad ?w gpa "mmu_notifier_seq i" pfn page] by blast
    have "svm_do_npt_violation me ad cm galloc host i gpa ff m = Some (0, i', m')"
      using l(1) go(1) False by (simp add: svm_do_npt_violation_def npt_set_npte_def)
    moreover have "em_ref m' = em_ref m"
      using l(2) by (auto simp: npt_locked_ok_def fun_eq_iff split: option.splits)
    moreover have "ept_root i' = ept_root i" using l(2) stat_only_root by (auto simp: npt_locked_ok_def)
    moreover have "pt_wf (npt_fmt me) (em_heap m') (npt_root me i)" using l(2) by (simp add: npt_locked_ok_def)
    moreover have "maps_only (npt_fmt me) (npt_root me i) (npt_fault_leaf me ad cm ?w pfn mtype page) gpa (em_heap m) (em_heap m')"
      using l(2) by (simp add: npt_locked_ok_def)
    then have "\<forall>g. leaf (npt_fmt me) (em_heap m') (npt_root me i) g = leaf (npt_fmt me) (em_heap m) (npt_root me i) g
         \<or> (\<exists>lv e pfn mtype page. leaf (npt_fmt me) (em_heap m') (npt_root me i) g = Some (lv, e) \<and> same_slot lv gpa g
              \<and> npt_fault_source ?ha ?w pfn mtype page \<and> npt_fault_leaf me ad cm ?w pfn mtype page lv e)"
      using go(2) unfolding maps_only_def by blast
    ultimately show ?thesis by blast
  qed
qed

definition npt_example :: svm_inst where
  "npt_example = instance_zero\<lparr>ept_root := 0x800000001000, mem_region_num := 1,
     memp := [\<lparr>region_hva = 0x7f0000000000, region_gpa = 0, region_size = 0x400000\<rparr>]\<rparr>"

theorem npt_violation_safe_witness:
  "\<exists>r i' m'. svm_do_npt_violation 0x800000000000 True (\<lambda>_. 0) example_alloc host_example npt_example 0x5123 2 mem_example
      = Some (r, i', m') \<and> em_ref m' = em_ref mem_example"
proof -
  have h: "npt_host_ok 0x800000000000 (\<lambda>_. 0)" by (simp add: npt_host_ok_def)
  have ga: "\<forall>h q. example_alloc h = Some q \<longrightarrow> h q = None \<and> npt_page_ok 0x800000000000 q"
  proof (intro allI impI)
    fix h q assume "example_alloc h = Some q"
    then have "q \<in> set [0x1000, 0x2000, 0x3000, 0x4000, 0x5000, 0x6000, 0x7000] \<and> h q = None"
      unfolding example_alloc_def by (rule find_SomeD)
    then show "h q = None \<and> npt_page_ok 0x800000000000 q" by (auto simp: npt_page_ok_def)
  qed
  have r: "npt_root 0x800000000000 npt_example = 0x1000" by (simp add: npt_example_def sme_clr_def)
  have "pt_wf (npt_fmt 0x800000000000) (em_heap mem_example) 0x1000"
    by (rule npt.fresh_table(1)) (simp add: mem_example_def)
  then show ?thesis using npt_violation_safe [OF h ga, of mem_example npt_example] unfolding r by blast
qed

end
