(* ===== verification/Slim_Npt_Notify.thy ===== *)
theory Slim_Npt_Notify
  imports Slim_Npt_Fault Slim_Flush
begin

text \<open>
  The invalidation of a range by \<^verbatim>\<open>npt.c\<close>, which gives up the lock of the table at every 1 GiB
  boundary, and what the others may do meanwhile for it to be correct.
\<close>

section \<open>Remote flushes\<close>

definition npt_kicked :: "flush_env \<Rightarrow> svm_vcpu \<Rightarrow> bool" where
  "npt_kicked fe v \<longleftrightarrow> fe_cpus_ok fe \<and> sv_cpu v \<noteq> - 1 \<and> sv_cpu v \<noteq> fe_me fe \<and> sv_mode v \<noteq> OUTSIDE_GUEST_MODE"

definition npt_flushed :: "flush_env \<Rightarrow> nat \<Rightarrow> svm_vcpu \<Rightarrow> svm_vcpu" where
  "npt_flushed fe req v =
     (let v1 = svm_make_request req v in
      if fe_cpus_ok fe \<and> sv_cpu v \<noteq> - 1 \<and> sv_cpu v \<noteq> fe_me fe then snd (svm_vcpu_exiting_guest_mode v1) else v1)"

interpretation npt_flush: flush_loop "npt_flush_one fe req" "npt_flushed fe req" "\<lambda>v. if npt_kicked fe v then {sv_cpu v} else {}"
  for fe req
proof
  fix n C and i :: svm_inst
  let ?k = "case vcpus i n of None \<Rightarrow> {} | Some v \<Rightarrow> if npt_kicked fe v then {sv_cpu v} else {}"
  show "\<exists>k. npt_flush_one fe req n (i, C) =
     (i\<lparr>vcpus := (vcpus i)(n := map_option (npt_flushed fe req) (vcpus i n)), ept_invl_ipi := k\<rparr>, C \<union> ?k)"
  proof (cases "vcpus i n")
    case None
    then show ?thesis by (intro exI [of _ "ept_invl_ipi i"]) (simp add: npt_flush_one_def fun_upd_idem)
  next
    case (Some v)
    have cpu: "sv_cpu (svm_make_request req v) = sv_cpu v" by (simp add: svm_make_request_def)
    have old: "fst (svm_vcpu_exiting_guest_mode (svm_make_request req v)) = sv_mode v"
      by (simp add: svm_make_request_def svm_vcpu_exiting_guest_mode_def)
    show ?thesis
    proof (cases "fe_cpus_ok fe \<and> sv_cpu v \<noteq> - 1 \<and> sv_cpu v \<noteq> fe_me fe")
      case True
      then show ?thesis
        using old
        by (intro exI [of _ "ept_invl_ipi i + (if sv_mode v = OUTSIDE_GUEST_MODE then 0 else 1)"])
          (simp add: npt_flush_one_def Some npt_kicked_def npt_flushed_def cpu Let_def split_beta)
    next
      case False
      then have "\<not> npt_kicked fe v" by (auto simp: npt_kicked_def)
      moreover have "npt_flush_one fe req n (i, C) = (i\<lparr>vcpus := (vcpus i)(n \<mapsto> svm_make_request req v)\<rparr>, C)"
        unfolding npt_flush_one_def prod.case Some option.case Let_def cpu if_not_P [OF False] ..
      moreover have "npt_flushed fe req v = svm_make_request req v"
        unfolding npt_flushed_def Let_def if_not_P [OF False] ..
      ultimately show ?thesis using Some by (intro exI [of _ "ept_invl_ipi i"]) simp
    qed
  qed
qed

lemma npt_flush_result:
  "\<exists>k. npt_flush_remote_tlbs fe i req =
     (\<not> fe_cpus_ok fe \<or> npt_flush.all_kicks fe i \<noteq> {}, if fe_cpus_ok fe then Some (npt_flush.all_kicks fe i) else None,
      i\<lparr>vcpus := npt_flush.all_flushed fe req i, ept_invl_ipi := k\<rparr>)"
proof -
  obtain k where k: "fold (npt_flush_one fe req) (set_bits_of (vcpu_bitmap i) VM_MAX_VCPUS) (i, {})
      = (i\<lparr>vcpus := npt_flush.all_flushed fe req i, ept_invl_ipi := k\<rparr>, npt_flush.all_kicks fe i)"
    using npt_flush.flush_all by blast
  then show ?thesis unfolding npt_flush_remote_tlbs_def k by (intro exI [of _ k]) simp
qed

section \<open>The loops over a range\<close>

lemma npt_aligns: "npt_align_down = align_down" "npt_align_up = align_up"
  by (simp_all add: fun_eq_iff npt_align_down_def npt_align_up_def align_down_def align_up_def)

lemma npt_trace_unmap_stat: "stat_only i (npt_trace_mm_stat_unmap i e)"
  by (simp add: npt_trace_mm_stat_unmap_def stat_only_counters)

text \<open>The table and the address translation are those of \<open>i0\<close>.\<close>

definition npt_same :: "svm_inst \<Rightarrow> svm_inst \<Rightarrow> bool" where
  "npt_same i0 i \<longleftrightarrow> ept_root i = ept_root i0 \<and> hva_to_gpa i = hva_to_gpa i0"

lemma npt_same_refl [simp]: "npt_same i i"
  by (simp add: npt_same_def)

lemma npt_same_stat: "npt_same i0 i \<Longrightarrow> stat_only i i' \<Longrightarrow> npt_same i0 i'"
  by (simp add: npt_same_def stat_only_root stat_only_hva)

lemma npt_clear_npte_result:
  "snd (snd (npt_clear_npte i p idx e h)) = clear_slot p idx e h"
  "npt_same i0 i \<Longrightarrow> npt_same i0 (fst (snd (npt_clear_npte i p idx e h)))"
  using npt_same_stat [OF _ npt_trace_unmap_stat] by (auto simp: npt_clear_npte_def clear_slot_def)

definition npt_no_table :: "u64 \<Rightarrow> bool" where
  "npt_no_table e \<longleftrightarrow> e AND NPTE_PFNMAP \<noteq> 0 \<or> is_npte_huge e"

lemma npt_clear_dir_result:
  "snd (snd (npt_clear_dir i p idx e h)) = drop_dir npt_no_table npte_addr p idx e h"
  "npt_same i0 i \<Longrightarrow> npt_same i0 (fst (snd (npt_clear_dir i p idx e h)))"
proof -
  have "push_bit 12 (drop_bit 12 e) = npte_addr e"
    by (simp add: npte_addr_def bit_eq_iff bit_push_bit_iff bit_drop_bit_eq bit_and_iff bit_not_iff page_mask bit_mask_iff)
      (auto simp: bit_simps)
  then show "snd (snd (npt_clear_dir i p idx e h)) = drop_dir npt_no_table npte_addr p idx e h"
    by (simp add: npt_clear_dir_def drop_dir_def npt_no_table_def Let_def)
  show "npt_same i0 i \<Longrightarrow> npt_same i0 (fst (snd (npt_clear_dir i p idx e h)))"
    using npt_same_stat [OF _ npt_trace_unmap_stat] by (auto simp: npt_clear_dir_def Let_def)
qed

lemma npt_lookup_hva_look:
  "npt_same i0 i \<Longrightarrow> fst (npt_lookup_hva me no_alloc i s level False h) = look (npt_fmt me) (npt_root me i0) (hva_to_gpa i0) s level h"
  by (simp add: npt_lookup_hva_def npt_lookup_gpa_def look_def npt_same_def Let_def)

text \<open>No page a walk reaches has the encryption bit in its address.\<close>

lemma npt_follow_clear: "p AND me = 0 \<Longrightarrow> follow (npt_fmt me) h l p is = Some q \<Longrightarrow> q AND me = 0"
proof (induction "is" arbitrary: l p)
  case (Cons i "is")
  then obtain pg where "follow (npt_fmt me) h (l - 1) (npte_addr (sme_clr me (pg i))) is = Some q"
    by (auto split: option.splits if_splits)
  moreover have "npte_addr (sme_clr me x) AND me = 0" for x
    by (rule bit_word_eqI) (auto simp: npte_addr_def sme_clr_def bit_and_iff bit_not_iff)
  ultimately show ?case using Cons.IH by blast
qed simp

lemma npt_free_addr:
  "npte_addr e = fmt_addr (npt_fmt me) e \<or> (\<forall>h js. follow (npt_fmt me) h 3 (npt_root me i) js \<noteq> Some (npte_addr e))"
proof (cases "npte_addr e AND me = 0")
  case True
  then have "npte_addr e AND NOT me = npte_addr e" using and_plus_and_not [of "npte_addr e" me] by simp
  then have "npte_addr e = fmt_addr (npt_fmt me) e"
    unfolding npt_fmt_simps npte_addr_def sme_clr_def by (simp only: and.assoc and.commute [of "NOT me"])
  then show ?thesis ..
next
  case False
  have "npt_root me i AND me = 0" by (rule bit_word_eqI) (auto simp: sme_clr_def bit_and_iff bit_not_iff)
  with False npt_follow_clear show ?thesis by blast
qed

text \<open>
  What the others may do while the lock is given up: take the table away, or remove translations.
\<close>

definition npt_rely :: "u64 \<Rightarrow> svm_inst \<Rightarrow> npt_env \<Rightarrow> bool" where
  "npt_rely me i0 env \<longleftrightarrow> (\<forall>s i h. npt_same i0 i \<and> pt_wf (npt_fmt me) h (npt_root me i0) \<and> pt_clean (npt_fmt me) h (npt_root me i0) \<longrightarrow>
     (case env s (i, h) of (i', h') \<Rightarrow>
        ept_root i' = 0 \<or> npt_same i0 i' \<and> removes (npt_fmt me) (npt_root me i0) h h'))"

lemma npt_relyD:
  assumes "npt_rely me i0 env" "npt_same i0 i" "pt_wf (npt_fmt me) h (npt_root me i0)" "pt_clean (npt_fmt me) h (npt_root me i0)"
    "env s (i, h) = (i', h')"
  shows "ept_root i' = 0 \<or> npt_same i0 i' \<and> removes (npt_fmt me) (npt_root me i0) h h'"
  using spec [OF spec [OF spec [OF assms(1) [unfolded npt_rely_def], of s], of i], of h] assms(2-4) by (simp add: assms(5))

text \<open>A round of the loop up to the point where the lock may be given up.\<close>

lemma npt_page_step:
  assumes "s < e" "npt_same i0 i" "page_round (npt_fmt me) (npt_root me i0) (hva_to_gpa i0) s e h = Some (s1, h1)"
  shows "\<exists>i1. npt_same i0 i1 \<and> npt_clear_page_table_loop env me s e n i h =
    (if s1 = n \<and> s1 \<noteq> e then
       (case env s1 (i1, h1) of (i2, h2) \<Rightarrow> if ept_root i2 = 0 then Some (i2, h2)
          else npt_clear_page_table_loop env me s1 e (pdpe_addr_end s1 e) i2 h2)
     else npt_clear_page_table_loop env me s1 e n i1 h1)"
  using assms(3) unfolding page_round_def npt_lookup_hva_look [OF assms(2), symmetric]
proof (cases "fst (npt_lookup_hva me no_alloc i s 0 False h)")
  case (Fail r)
  with assms show ?thesis
    by (intro exI [of _ i], subst npt_clear_page_table_loop.simps)
      (simp add: page_round_def npt_lookup_hva_look [OF assms(2), symmetric])
next
  case (Entry p idx)
  note r = assms(3) [unfolded page_round_def npt_lookup_hva_look [OF assms(2), symmetric] Entry lookup.case]
  then obtain v where v: "pt_read h p idx = Some v" by (cases "pt_read h p idx") auto
  obtain ret i1 h2 where c: "npt_clear_npte i p idx v h = (ret, i1, h2)" by (metis prod_cases3)
  have c': "h2 = clear_slot p idx v h" "npt_same i0 i1" 
    using npt_clear_npte_result(1) [of i p idx v h] npt_clear_npte_result(2) [OF assms(2), of p idx v h] c by auto
  show ?thesis
  proof (cases "is_npte_huge v \<and> \<not> (s > align_down s 0x200000 \<or> e < align_up s 0x200000)")
    case True
    with r v Entry assms(1,2) show ?thesis
      by (intro exI [of _ i], subst npt_clear_page_table_loop.simps) (simp add: npt_aligns c Let_def)
  next
    case other: False
    show ?thesis
    proof (cases "is_npte_huge v")
      case True
      with other have "s > align_down s 0x200000 \<or> e < align_up s 0x200000" by blast
      with r v Entry assms(1) c' True show ?thesis
        by (intro exI [of _ i1], subst npt_clear_page_table_loop.simps) (simp add: npt_aligns c Let_def)
    next
      case False
      with r v Entry assms(1) c' show ?thesis
        by (intro exI [of _ i1], subst npt_clear_page_table_loop.simps) (simp add: c)
    qed
  qed
qed auto

lemma npt_clearing:
  assumes rely: "npt_rely me i0 env" and nz: "ept_root i0 \<noteq> 0"
  shows "clearing_loops (npt_fmt me) (npt_page_ok me) (npt_root me i0) (hva_to_gpa i0) npt_no_table npte_addr
    (\<lambda>(n, i, h). h) (\<lambda>(n, i, h). npt_same i0 i) (\<lambda>(n, i, h). ept_root i = 0)
    (\<lambda>s e (n, i, h). npt_clear_page_table_loop env me s e n i h)
    (\<lambda>s e (i, h). npt_clear_page_directory_loop me s e i h)
    (\<lambda>(n, i, h). (i, h)) snd (\<lambda>x. npt_same i0 (fst x)) (\<lambda>x. ept_root (fst x) = 0)"
proof unfold_locales
  fix s e :: u64 and x :: "u64 \<times> svm_inst \<times> pt_heap" and y :: "svm_inst \<times> pt_heap" and s1 h1
  obtain n i h where x: "x = (n, i, h)" by (metis prod_cases3)
  obtain i' h' where y: "y = (i', h')" by fastforce
  show "npt_no_table v" if "fmt_huge (npt_fmt me) v" for v using that by (simp add: npt_no_table_def)
  show "npte_addr v = fmt_addr (npt_fmt me) v \<or> (\<forall>h js. follow (npt_fmt me) h 3 (npt_root me i0) js \<noteq> Some (npte_addr v))" for v
    by (rule npt_free_addr)
  show "(case x of (n, i, h) \<Rightarrow> npt_clear_page_table_loop env me s e n i h) = Some (case x of (n, i, h) \<Rightarrow> (i, h))" if "\<not> s < e"
    using that unfolding x by (simp, subst npt_clear_page_table_loop.simps) simp
  show "(case y of (i, h) \<Rightarrow> npt_clear_page_directory_loop me s e i h) = Some y" if "\<not> s < e"
    using that unfolding y by (simp, subst npt_clear_page_directory_loop.simps) simp
  show "\<exists>x1. (case x of (n, i, h) \<Rightarrow> npt_clear_page_table_loop env me s e n i h)
          = (case x1 of (n, i, h) \<Rightarrow> npt_clear_page_table_loop env me s1 e n i h)
        \<and> (case x1 of (n, i, h) \<Rightarrow> npt_same i0 i)
        \<and> ((case x1 of (n, i, h) \<Rightarrow> h) = h1 \<or> removes (npt_fmt me) (npt_root me i0) h1 (case x1 of (n, i, h) \<Rightarrow> h))
      \<or> (case x of (n, i, h) \<Rightarrow> npt_clear_page_table_loop env me s e n i h) = Some (case x1 of (n, i, h) \<Rightarrow> (i, h))
        \<and> (case x1 of (n, i, h) \<Rightarrow> ept_root i = 0)"
    if se: "s < e" and iv: "case x of (n, i, h) \<Rightarrow> npt_same i0 i"
      and rd: "page_round (npt_fmt me) (npt_root me i0) (hva_to_gpa i0) s e (case x of (n, i, h) \<Rightarrow> h) = Some (s1, h1)"
      and wf: "pt_wf (npt_fmt me) h1 (npt_root me i0)" "pt_clean (npt_fmt me) h1 (npt_root me i0)"
  proof -
    have "npt_same i0 i" "page_round (npt_fmt me) (npt_root me i0) (hva_to_gpa i0) s e h = Some (s1, h1)" using iv rd x by simp_all
    from npt_page_step [OF se this, of env n] obtain i1 where i1: "npt_same i0 i1"
      and st: "npt_clear_page_table_loop env me s e n i h =
        (if s1 = n \<and> s1 \<noteq> e then
           (case env s1 (i1, h1) of (i2, h2) \<Rightarrow> if ept_root i2 = 0 then Some (i2, h2)
              else npt_clear_page_table_loop env me s1 e (pdpe_addr_end s1 e) i2 h2)
         else npt_clear_page_table_loop env me s1 e n i1 h1)" by blast
    obtain i2 h2 where e2: "env s1 (i1, h1) = (i2, h2)" by fastforce
    show ?thesis
    proof (cases "s1 = n \<and> s1 \<noteq> e")
      case False
      show ?thesis
        unfolding x prod.case st if_not_P [OF False]
        by (intro exI [of _ "(n, i1, h1)"] disjI1) (simp only: prod.case i1 simp_thms)
    next
      case True
      have r2: "ept_root i2 = 0 \<or> npt_same i0 i2 \<and> removes (npt_fmt me) (npt_root me i0) h1 h2"
        by (rule npt_relyD [OF rely i1 wf e2])
      show ?thesis
      proof (cases "ept_root i2 = 0")
        case z: True
        show ?thesis
          unfolding x prod.case st if_P [OF True] e2 if_P [OF z]
          by (intro exI [of _ "(n, i2, h2)"] disjI2) (simp only: prod.case z simp_thms)
      next
        case z: False
        with r2 have "npt_same i0 i2" "removes (npt_fmt me) (npt_root me i0) h1 h2" by blast+
        then show ?thesis
          unfolding x prod.case st if_P [OF True] e2 if_not_P [OF z]
          by (intro exI [of _ "(pdpe_addr_end s1 e, i2, h2)"] disjI1) (simp only: prod.case simp_thms)
      qed
    qed
  qed
  show "\<exists>y1. (case y of (i, h) \<Rightarrow> npt_clear_page_directory_loop me s e i h)
          = (case y1 of (i, h) \<Rightarrow> npt_clear_page_directory_loop me (s + 0x200000) e i h)
        \<and> npt_same i0 (fst y1) \<and> snd y1 = h1"
    if se: "s < e" and iv: "npt_same i0 (fst y)"
      and rd: "dir_round (npt_fmt me) (npt_root me i0) (hva_to_gpa i0) npt_no_table npte_addr s (snd y) = Some h1" for h1
  proof -
    have same: "npt_same i0 i'" using iv y by simp
    note look = npt_lookup_hva_look [OF same, symmetric]
    show ?thesis
    proof (cases "fst (npt_lookup_hva me no_alloc i' s 1 False h')")
      case Wild
      then show ?thesis using rd by (simp add: y dir_round_def look)
    next
      case (Fail r)
      then have "npt_clear_page_directory_loop me s e i' h' = npt_clear_page_directory_loop me (s + 0x200000) e i' h'" "h1 = h'"
        using rd se by (subst npt_clear_page_directory_loop.simps, simp, simp add: y dir_round_def look)
      then show ?thesis using same unfolding y by (intro exI [of _ "(i', h')"]) simp
    next
      case (Entry p idx)
      then obtain v where v: "pt_read h' p idx = Some v" and h1: "h1 = drop_dir npt_no_table npte_addr p idx v h'"
        using rd by (auto simp: y dir_round_def look split: option.splits)
      obtain ret i1 h2 where c: "npt_clear_dir i' p idx v h' = (ret, i1, h2)" by (metis prod_cases3)
      have c': "h2 = h1" "npt_same i0 i1" 
        using npt_clear_dir_result(1) [of i' p idx v h'] npt_clear_dir_result(2) [OF same, of p idx v h'] c h1 by auto
      have "npt_clear_page_directory_loop me s e i' h' = npt_clear_page_directory_loop me (s + 0x200000) e i1 h2"
        using Entry v c se by (subst npt_clear_page_directory_loop.simps) simp
      then show ?thesis using c' unfolding y by (intro exI [of _ "(i1, h1)"]) simp
    qed
  qed
qed (auto split: prod.splits)

lemma npt_same_frame:
  "npt_same i (i\<lparr>npt_mmu_users := u, mmu_notifier_count := c\<rparr>)" "npt_same i (i\<lparr>mmu_notifier_seq := q\<rparr>)"
  "npt_same i0 i \<Longrightarrow> npt_same i0 (i\<lparr>vcpus := v, ept_invl_ipi := k\<rparr>)"
  by (simp_all add: npt_same_def hva_to_gpa_def regions_def fun_eq_iff)

lemma npt_same_trans: "npt_same i j \<Longrightarrow> npt_same j k \<Longrightarrow> npt_same i k"
  by (simp add: npt_same_def)

text \<open>Invalidating one page removes at most translations of that page.\<close>

lemma npt_invalidate_removes:
  assumes wf: "pt_wf (npt_fmt me) h (npt_root me i)" and cl: "pt_clean (npt_fmt me) h (npt_root me i)"
  shows "\<exists>r i' h'. npt_invalidate_page me fe i a h = Some (r, i', h') \<and> npt_same i i'
    \<and> mmu_notifier_count i' = mmu_notifier_count i \<and> removes (npt_fmt me) (npt_root me i) h h'
    \<and> (hva_to_gpa i a \<noteq> ADDR_INVAL \<longrightarrow> leaf (npt_fmt me) h' (npt_root me i) (hva_to_gpa i a) = None)"
proof -
  have look: "fst (npt_lookup_hva me no_alloc i a 0 False h) = look (npt_fmt me) (npt_root me i) (hva_to_gpa i) a 0 h"
    by (rule npt_lookup_hva_look) simp
  have found: ?thesis if e: "fst (npt_lookup_hva me no_alloc i a 0 False h) = Entry p idx" "pt_read h p idx = Some v"
    and rm: "removes (npt_fmt me) (npt_root me i) h (clear_slot p idx v h)"
      "leaf (npt_fmt me) (clear_slot p idx v h) (npt_root me i) (hva_to_gpa i a) = None" for p idx v
  proof -
    let ?i = "i\<lparr>mmu_notifier_seq := mmu_notifier_seq i + 1\<rparr>"
    obtain ret i1 h1 where c: "npt_clear_npte ?i p idx v h = (ret, i1, h1)" by (metis prod_cases3)
    have s: "npt_same i i1" and h1: "h1 = clear_slot p idx v h"
      using npt_clear_npte_result(1) [of ?i p idx v h] npt_clear_npte_result(2) [OF npt_same_frame(2), of i "mmu_notifier_seq i + 1" p idx v h] c by auto
    have cnt: "mmu_notifier_count i1 = mmu_notifier_count i"
      using c by (auto simp: npt_clear_npte_def npt_trace_mm_stat_unmap_def split: if_splits)
    obtain k where "snd (snd (npt_flush_remote_tlbs fe i1 0)) = i1\<lparr>vcpus := npt_flush.all_flushed fe 0 i1, ept_invl_ipi := k\<rparr>"
      using npt_flush_result [of fe i1 0] by auto
    then show ?thesis using e c s h1 rm cnt npt_same_frame(3) [OF s] by (simp add: npt_invalidate_page_def)
  qed
  show ?thesis
  proof (cases "hva_to_gpa i a = ADDR_INVAL")
    case True
    then show ?thesis using removes_refl [OF wf cl] by (simp add: npt_invalidate_page_def look look_def)
  next
    case False
    from wf cl show ?thesis
    proof (cases rule: npt.walk_page_cases [where g = "hva_to_gpa i a"])
      case (unmapped r)
      then show ?thesis using False removes_refl [OF wf cl] by (simp add: npt_invalidate_page_def look look_def)
    next
      case (page p idx v)
      then show ?thesis using False by (intro found [of p idx v]) (simp_all add: look look_def)
    next
      case (block p idx v)
      then show ?thesis using False block(6) [OF same_slot_refl]
        by (intro found [of p idx v]) (simp_all add: look look_def)
    qed
  qed
qed

text \<open>Others that invalidate the page at which the lock was given up.\<close>

definition npt_env_example :: npt_env where
  "npt_env_example s x = (case npt_invalidate_page 0 \<lparr>fe_cpus_ok = True, fe_me = 0\<rparr> (fst x) s (snd x) of
     None \<Rightarrow> x | Some (_, i', h') \<Rightarrow> (i', h'))"

lemma npt_env_example_rely: "npt_rely 0 i0 npt_env_example"
  unfolding npt_rely_def
proof (intro allI impI, elim conjE)
  fix s i h assume s: "npt_same i0 i" and "pt_wf (npt_fmt 0) h (npt_root 0 i0)" "pt_clean (npt_fmt 0) h (npt_root 0 i0)"
  moreover from s have "npt_root 0 i = npt_root 0 i0" by (simp add: npt_same_def)
  ultimately obtain r i' h' where "npt_invalidate_page 0 \<lparr>fe_cpus_ok = True, fe_me = 0\<rparr> i s h = Some (r, i', h')"
      "npt_same i i'" "removes (npt_fmt 0) (npt_root 0 i0) h h'"
    using npt_invalidate_removes [of 0 h i] by metis
  then show "case npt_env_example s (i, h) of (i', h') \<Rightarrow>
      ept_root i' = 0 \<or> npt_same i0 i' \<and> removes (npt_fmt 0) (npt_root 0 i0) h h'"
    using npt_same_trans [OF s] by (simp add: npt_env_example_def)
qed

section \<open>Properties\<close>



text \<open>What the others do keeps the invalidation correct.  While an invalidation is running, the
  locked part of a fault installs nothing and leaves the table exactly as it is; and invalidating a
  single page removes translations only, among them that of the page.\<close>

lemma npt_others_only_remove:
  assumes wf: "pt_wf (npt_fmt me) (em_heap m) (npt_root me i)" and cl: "pt_clean (npt_fmt me) (em_heap m) (npt_root me i)"
    and run: "mmu_notifier_count i \<noteq> 0"
  shows "(\<exists>m'. npt_set_npte_locked me ad cm galloc w gpa seq pfn mtype page i m = Some (0, i, m') \<and> em_heap m' = em_heap m)
    \<and> (\<exists>r i' h'. npt_invalidate_page me fe i a (em_heap m) = Some (r, i', h')
      \<and> ept_root i' = ept_root i \<and> hva_to_gpa i' = hva_to_gpa i \<and> mmu_notifier_count i' = mmu_notifier_count i
      \<and> (\<forall>g. leaf (npt_fmt me) h' (npt_root me i) g = None
           \<or> leaf (npt_fmt me) h' (npt_root me i) g = leaf (npt_fmt me) (em_heap m) (npt_root me i) g)
      \<and> (hva_to_gpa i a \<noteq> ADDR_INVAL \<longrightarrow> leaf (npt_fmt me) h' (npt_root me i) (hva_to_gpa i a) = None))"
proof
  show "\<exists>m'. npt_set_npte_locked me ad cm galloc w gpa seq pfn mtype page i m = Some (0, i, m') \<and> em_heap m' = em_heap m"
    using run by (simp add: npt_set_npte_locked_def npt_mmu_notifier_retry_def)
qed (use npt_invalidate_removes [OF wf cl, of fe a] in \<open>auto simp: npt_same_def removes_def\<close>)

end
