(* ===== verification/Slim_Npt_Teardown.thy ===== *)
theory Slim_Npt_Teardown
  imports Slim_Teardown Slim_Npt_Notify
begin

text \<open>
  \<^verbatim>\<open>svm_free_npt\<close> clears entries through the index of its outermost loop.  For guests below 512 GiB
  that index is always 0 and the table is freed exactly; above, a page can be forgotten.  Clearing a
  directory entry gives back the wrong page on a host that encrypts memory.
\<close>

section \<open>Level by level\<close>

lemma npte_flags_ps: "npte_flags e AND NPDPE_PS \<noteq> 0 \<longleftrightarrow> is_npte_huge e"
proof -
  have "npte_flags e AND 0x80 = e AND (4095 AND 0x80)" by (simp only: npte_flags_def and.assoc)
  then show ?thesis by (simp add: is_npte_huge_def)
qed

lemma npt_pte_frees: "frees_below (npt_fmt me) 0 (svm_free_npt_pte 0)"
  unfolding frees_below_def
proof (intro allI impI)
  fix p h assume t: "tree (npt_fmt me) h 0 p"
  show "\<exists>pg. svm_free_npt_pte 0 p h = Some (\<lambda>q. if q = p then Some pg else if q \<in> subtree (npt_fmt me) h 0 p then None else h q)"
    unfolding svm_free_npt_pte_def
  proof (rule free_level [OF _ t])
    show "frees_below (npt_fmt me) (0 - 1) (\<lambda>p h. Some h)" using frees_below_0 by simp
    fix i :: nat and g :: pt_heap and gi assume g: "g p = Some gi"
    show "\<exists>gi'. (case pt_read g p i of None \<Rightarrow> None
          | Some e \<Rightarrow> if \<not> npte_present e then Some g else Some (pt_write p 0 NPTE_NONE g)) = Some (g(p \<mapsto> gi'))
        \<and> (\<forall>j>i. gi' j = gi j)"
      using g by (intro exI [of _ "if npte_present (gi i) then gi(0 := 0) else gi"]) (auto simp: pt_read_def pt_write_eq fun_upd_idem)
  qed (simp add: is_table_def)
qed

lemma npt_pmd_frees: "frees_below (npt_fmt me) 1 (svm_free_npt_pmd me 0)"
  unfolding frees_below_def
proof (intro allI impI)
  fix p h assume t: "tree (npt_fmt me) h 1 p"
  show "\<exists>pg. svm_free_npt_pmd me 0 p h = Some (\<lambda>q. if q = p then Some pg else if q \<in> subtree (npt_fmt me) h 1 p then None else h q)"
    unfolding svm_free_npt_pmd_def npte_flags_ps
  proof (rule free_level [OF _ t])
    show "frees_below (npt_fmt me) (1 - 1) (svm_free_npt_pte 0)" using npt_pte_frees by simp
    fix i :: nat and g :: pt_heap and gi assume g: "g p = Some gi" "\<not> is_table (npt_fmt me) 1 (gi i)"
    show "\<exists>gi'. (case pt_read g p i of None \<Rightarrow> None
          | Some e \<Rightarrow> if \<not> npte_present e then Some g
              else if is_npte_huge e then Some (pt_write p 0 NPTE_NONE g)
              else (case svm_free_npt_pte 0 (npte_addr (sme_clr me e)) g of None \<Rightarrow> None
                    | Some h1 \<Rightarrow> free_page (npte_addr (sme_clr me e)) h1)) = Some (g(p \<mapsto> gi'))
        \<and> (\<forall>j>i. gi' j = gi j)"
      using g by (intro exI [of _ "if npte_present (gi i) then gi(0 := 0) else gi"])
        (auto simp: pt_read_def pt_write_eq fun_upd_idem is_table_def)
  qed (auto simp: pt_read_def is_table_def intro: keep_entry_free)
qed

lemma npt_pud_frees: "frees_below (npt_fmt me) 2 (svm_free_npt_pud me 0)"
  unfolding frees_below_def
proof (intro allI impI)
  fix p h assume t: "tree (npt_fmt me) h 2 p"
  show "\<exists>pg. svm_free_npt_pud me 0 p h = Some (\<lambda>q. if q = p then Some pg else if q \<in> subtree (npt_fmt me) h 2 p then None else h q)"
    unfolding svm_free_npt_pud_def
  proof (rule free_level [OF _ t])
    show "frees_below (npt_fmt me) (2 - 1) (svm_free_npt_pmd me 0)" using npt_pmd_frees by simp
  qed (auto simp: pt_read_def is_table_def intro: keep_entry keep_entry_free)
qed

text \<open>At the top only entry 0 leads to a table.\<close>

lemma npt_table_frees:
  assumes t: "tree (npt_fmt me) h 3 (sme_clr me root)"
    and low: "\<forall>j is. follow (npt_fmt me) h 3 (sme_clr me root) (j # is) \<noteq> None \<longrightarrow> j = 0"
  shows "svm_free_npt me root h = Some (\<lambda>q. if q \<in> subtree (npt_fmt me) h 3 (sme_clr me root) then None else h q)"
proof -
  let ?p = "sme_clr me root"
  have "h ?p \<noteq> None" using t unfolding tree_def using follow.simps(1) by blast
  then obtain pg where pg: "h ?p = Some pg" by blast
  have top: "j = 0" if "npte_present (pg j)" for j
  proof -
    have "follow (npt_fmt me) h 3 ?p [j] \<noteq> None" using pg that by (simp add: is_table_def)
    then show ?thesis using low by blast
  qed
  show ?thesis
    unfolding svm_free_npt_def
  proof (rule free_root, rule free_loop [OF t pg])
    fix i :: nat and g :: pt_heap and gi
    assume g: "g ?p = Some gi" "gi i = pg i" "\<And>q. q \<in> below (npt_fmt me) h 3 pg i \<Longrightarrow> g q = h q"
    show "\<exists>gi'. (case pt_read g ?p i of None \<Rightarrow> None
        | Some e \<Rightarrow> if \<not> npte_present e then Some g
            else (case svm_free_npt_pud me i (npte_addr (sme_clr me e)) g of None \<Rightarrow> None
                  | Some h1 \<Rightarrow> free_page (npte_addr (sme_clr me e)) h1))
      = Some (\<lambda>q. if q = ?p then Some gi' else if q \<in> below (npt_fmt me) h 3 pg i then None else g q)
      \<and> (\<forall>j>i. gi' j = gi j)"
    proof (cases "npte_present (pg i)")
      case False
      then have "below (npt_fmt me) h 3 pg i = {}" by (simp add: below_def is_table_def)
      then show ?thesis using False g by (intro exI [of _ gi]) (auto simp: pt_read_def fun_eq_iff)
    next
      case True
      then have i: "i = 0" by (rule top)
      have fr: "frees_below (npt_fmt me) (3 - 1) (svm_free_npt_pud me 0)" using npt_pud_frees by simp
      have tb: "is_table (npt_fmt me) 3 (pg i)" using True by (simp add: is_table_def)
      from free_child [OF fr t pg tb g(1,3), of gi] obtain ph where
        ph: "svm_free_npt_pud me 0 (npte_addr (sme_clr me (pg i))) g = Some ph" "ph ?p = Some gi"
          "free_page (npte_addr (sme_clr me (pg i))) (ph(?p \<mapsto> gi))
            = Some (\<lambda>q. if q = ?p then Some gi else if q \<in> below (npt_fmt me) h 3 pg i then None else g q)" by auto
      then have "free_page (npte_addr (sme_clr me (pg i))) ph
            = Some (\<lambda>q. if q = ?p then Some gi else if q \<in> below (npt_fmt me) h 3 pg i then None else g q)"
        by (simp add: fun_upd_idem)
      then show ?thesis using True g(1,2) ph(1) i by (intro exI [of _ gi]) (simp add: pt_read_def)
    qed
  qed
qed

section \<open>A table the loops do not free\<close>

text \<open>
  One directory for the addresses from 512 GiB on, whose entry 0 is a large page and whose entry 1
  leads to a page table.
\<close>

definition leak_example :: pt_heap where
  "leak_example = [0x1000 \<mapsto> zero_page(1 := 0x2007), 0x2000 \<mapsto> zero_page(0 := 0x3007),
     0x3000 \<mapsto> zero_page(0 := 0x40000087, 1 := 0x4007), 0x4000 \<mapsto> zero_page]"

lemma leak_entries:
  "npte_addr (sme_clr 0 0x2007) = 0x2000" "npte_addr (sme_clr 0 0x3007) = 0x3000" "npte_addr (sme_clr 0 0x4007) = 0x4000"
  "sme_clr 0 0x1000 = 0x1000"
  "npte_present 0x2007" "npte_present 0x3007" "npte_present 0x4007" "npte_present 0x40000087" "\<not> npte_present 0"
  "is_npte_huge 0x40000087" "\<not> is_npte_huge 0x4007"
  by (simp_all add: npte_addr_def sme_clr_def npte_present_def is_npte_huge_def)

lemma leak_pages:
  "leak_example 0x1000 = Some (zero_page(1 := 0x2007))" "leak_example 0x2000 = Some (zero_page(0 := 0x3007))"
  "leak_example 0x3000 = Some (zero_page(0 := 0x40000087, 1 := 0x4007))" "leak_example 0x4000 = Some zero_page"
  by (simp_all add: leak_example_def)

lemma leak_follow:
  "follow (npt_fmt 0) leak_example 3 0x1000 is = Some q \<longleftrightarrow>
     is = [] \<and> q = 0x1000 \<or> is = [1] \<and> q = 0x2000 \<or> is = [1, 0] \<and> q = 0x3000 \<or> is = [1, 0, 1] \<and> q = 0x4000"
proof -
  have f0: "follow (npt_fmt 0) leak_example 0 0x4000 is = Some q \<longleftrightarrow> is = [] \<and> q = 0x4000" for "is" q
    by (cases "is") (auto simp: leak_pages is_table_def)
  have f1: "follow (npt_fmt 0) leak_example 1 0x3000 is = Some q \<longleftrightarrow>
      is = [] \<and> q = 0x3000 \<or> is = [1] \<and> q = 0x4000" for "is" q
    using f0 by (cases "is") (auto simp: leak_pages leak_entries is_table_def split: if_splits)
  have f2: "follow (npt_fmt 0) leak_example 2 0x2000 is = Some q \<longleftrightarrow>
      is = [] \<and> q = 0x2000 \<or> is = [0] \<and> q = 0x3000 \<or> is = [0, 1] \<and> q = 0x4000" for "is" q
    using f1 by (cases "is") (auto simp: leak_pages leak_entries is_table_def split: if_splits)
  show ?thesis
    using f2 by (cases "is") (auto simp: leak_pages leak_entries is_table_def split: if_splits)
qed

lemma leak_wf: "pt_wf (npt_fmt 0) leak_example 0x1000"
  unfolding pt_wf_def leak_follow by (auto simp: leak_pages)

lemma each_entry_skip: "(\<And>i. i \<in> set xs \<Longrightarrow> f i h = Some h) \<Longrightarrow> each_entry f xs h = Some h"
  by (induction xs) auto

lemma each_entry_two:
  assumes f: "f 0 h = Some g" "f 1 g = Some k" "\<And>i. 2 \<le> i \<Longrightarrow> f i k = Some k" and n: "2 \<le> n"
  shows "each_entry f [0..<n] h = Some k"
proof -
  have "each_entry f [2..<n] k = Some k" by (rule each_entry_skip) (simp add: f(3))
  moreover have "[0..<n] = 0 # 1 # [2..<n]"
    using upt_conv_Cons [of 0 n] upt_conv_Cons [of 1 n] n by (simp add: numeral_2_eq_2)
  ultimately show ?thesis using f(1,2) by simp
qed

lemma leak_freed:
  "svm_free_npt 0 0x1000 leak_example = Some (leak_example(0x1000 := None, 0x2000 := None, 0x3000 := None))"
proof -
  let ?h1 = "leak_example(0x3000 \<mapsto> zero_page(0 := 0x40000087))"
  have d: "svm_free_npt_pmd 0 1 0x3000 leak_example = Some ?h1"
    unfolding svm_free_npt_pmd_def npte_flags_ps
    by (rule each_entry_two [where g = ?h1])
      (auto simp: pt_read_def pt_write_def leak_pages leak_entries fun_eq_iff)
  have u: "svm_free_npt_pud 0 1 0x2000 leak_example = Some (leak_example(0x3000 := None))"
    unfolding svm_free_npt_pud_def
    by (rule each_entry_two [where g = "leak_example(0x3000 := None)"])
      (use d in \<open>auto simp: pt_read_def leak_pages leak_entries free_page_def\<close>)
  have r: "each_entry (\<lambda>i h. case pt_read h (sme_clr 0 0x1000) i of None \<Rightarrow> None
       | Some e \<Rightarrow> if \<not> npte_present e then Some h
           else (case svm_free_npt_pud 0 i (npte_addr (sme_clr 0 e)) h of None \<Rightarrow> None
                 | Some h1 \<Rightarrow> free_page (npte_addr (sme_clr 0 e)) h1)) [0..<512] leak_example
      = Some (leak_example(0x3000 := None, 0x2000 := None))"
    by (rule each_entry_two [where g = leak_example])
      (use u in \<open>auto simp: pt_read_def leak_pages leak_entries free_page_def\<close>)
  show ?thesis unfolding svm_free_npt_def r
    by (simp add: free_page_def leak_entries leak_pages fun_upd_twist)
qed

section \<open>Properties\<close>

text \<open>C14. Destroying the table of a guest below 512 GiB gives back exactly its pages.  When no callback
  is running any more and only the first entry of the root leads to a table, \<open>instance_destroy_npt\<close>
  returns: it reads no page that does not exist and frees no page twice.  Afterwards the instance
  has no table, the pages of the table are free and every other page is as it was.\<close>

theorem npt_teardown_exact:
  assumes wf: "pt_wf (npt_fmt me) h (npt_root me i)" and nz: "ept_root i \<noteq> 0" and users: "npt_mmu_users i = 0"
    and low: "\<forall>j is. follow (npt_fmt me) h 3 (npt_root me i) (j # is) \<noteq> None \<longrightarrow> j = 0"
  shows "\<exists>i' h'. instance_destroy_npt me wait i h = Some (i', h') \<and> ept_root i' = 0
    \<and> (\<forall>q. h' q = (if \<exists>is. follow (npt_fmt me) h 3 (npt_root me i) is = Some q then None else h q))"
proof -
  have c: "sme_clr me (npt_root me i) = npt_root me i" by (rule bit_word_eqI) (auto simp: sme_clr_def bit_and_iff bit_not_iff)
  have "svm_free_npt me (npt_root me i) h = Some (\<lambda>q. if \<exists>is. follow (npt_fmt me) h 3 (npt_root me i) is = Some q then None else h q)"
    using npt_table_frees [of me h "npt_root me i"] wf low unfolding c wf_tree subtree_def by simp
  then show ?thesis using nz users by (simp add: instance_destroy_npt_def Let_def)
qed

theorem npt_teardown_exact_witness:
  "\<exists>i' h'. instance_destroy_npt 0x800000000000 (\<lambda>_. None) npt_example [0x1000 \<mapsto> zero_page, 0x9000 \<mapsto> zero_page] = Some (i', h')
    \<and> h' 0x1000 = None \<and> h' 0x9000 = Some zero_page"
proof -
  let ?h = "[0x1000 \<mapsto> zero_page, 0x9000 \<mapsto> zero_page] :: pt_heap"
  have r: "npt_root 0x800000000000 npt_example = 0x1000" by (simp add: npt_example_def sme_clr_def)
  have h: "?h 0x1000 = Some zero_page" by simp
  have e: "ept_root npt_example \<noteq> 0" "npt_mmu_users npt_example = 0" by (simp_all add: npt_example_def instance_zero_def)
  note f = npt.follow_zero_page [of ?h "0x1000" "0x800000000000", OF h]
  have low: "\<forall>j is. follow (npt_fmt 0x800000000000) ?h 3 0x1000 (j # is) \<noteq> None \<longrightarrow> j = 0"
    by (simp only: f) simp
  from npt_teardown_exact [of "0x800000000000" ?h npt_example "\<lambda>_. None", unfolded r, OF npt.fresh_table(1) [of ?h, OF h] e low]
  obtain i' h' where "instance_destroy_npt 0x800000000000 (\<lambda>_. None) npt_example ?h = Some (i', h')"
      "\<forall>q. h' q = (if \<exists>is :: nat list. (if is = [] then Some 0x1000 else None) = Some q then None else ?h q)" unfolding f by blast
  moreover from this(2) have "h' q = (if q = 0x1000 then None else ?h q)" for q by auto
  ultimately show ?thesis by simp
qed

text \<open>C15. Above 512 GiB a page is forgotten.  There is a well formed table from which
  \<open>svm_free_npt\<close> frees every page but one: the write that should clear a large entry goes to the
  index of the outermost loop and erases the entry of a page table not yet visited.\<close>

theorem npt_teardown_leaks:
  "\<exists>h h'. pt_wf (npt_fmt 0) h 0x1000 \<and> follow (npt_fmt 0) h 3 0x1000 [1, 0, 1] = Some 0x4000
    \<and> svm_free_npt 0 0x1000 h = Some h' \<and> h' 0x4000 = Some zero_page \<and> h' 0x1000 = None"
proof (intro exI conjI)
  show "pt_wf (npt_fmt 0) leak_example 0x1000" by (rule leak_wf)
  show "follow (npt_fmt 0) leak_example 3 0x1000 [1, 0, 1] = Some 0x4000" by (simp only: leak_follow) simp
  show "svm_free_npt 0 0x1000 leak_example = Some (leak_example(0x1000 := None, 0x2000 := None, 0x3000 := None))"
    by (rule leak_freed)
qed (simp_all add: leak_pages)

text \<open>C16. On a host that encrypts memory clearing a directory entry does not give back its table.  The
  page whose reference \<open>npt_clear_dir\<close> drops is computed from the entry with the encryption bit still
  set: the page table page is freed exactly when there is no such bit.\<close>

theorem npt_clear_dir_frees_iff:
  assumes q: "npt_page_ok me q" and h: "h q = Some pg" "\<forall>p. h p \<noteq> None \<longrightarrow> p AND me = 0" and p: "p \<noteq> q"
  shows "\<exists>i' h'. npt_clear_dir i p idx (fmt_table (npt_fmt me) q) h = (1, i', h')
    \<and> h' q = (if me = 0 then None else Some pg)"
proof -
  let ?v = "fmt_table (npt_fmt me) q"
  have ok: "q AND 4095 = 0" "q AND me = 0" "me AND 4095 = 0" using q by (simp_all add: npt_page_ok_def)
  have qm: "(q OR me) AND 4095 = 0" by (simp only: bit.conj_disj_distrib2 ok or.right_neutral)
  have v: "?v = q OR me OR 7"
    using and_plus_and_not [of "q OR me" 4095] qm by (simp add: npt_fmt_def npte_addr_def sme_set_def or.assoc)
  have f: "(q OR me OR 7) AND 4095 = 7" "(q OR me OR 7) AND NOT 4095 = q OR me"
    using aligned_or_flags [OF qm, of 7] by (simp_all add: or.assoc)
  have nz: "?v \<noteq> 0" using f(1) unfolding v by auto
  have pf: "?v AND NPTE_PFNMAP = 0" using and_sub_mask [OF _ f(1), of "0x200"] unfolding v by simp
  have nt: "\<not> npt_no_table ?v" using pf npt.table_small [OF q] by (simp add: npt_no_table_def)
  have a: "npte_addr ?v = q OR me" unfolding v npte_addr_def by (rule f(2))
  have "q OR me = q \<longleftrightarrow> me = 0"
  proof
    assume e: "q OR me = q"
    have "me = (q OR me) AND me" by (rule bit_word_eqI) (auto simp: bit_and_iff bit_or_iff)
    then show "me = 0" unfolding e ok(2) .
  qed simp
  moreover have "snd (snd (npt_clear_dir i p idx ?v h)) = (pt_write p idx 0 h)(q OR me := None)"
    unfolding npt_clear_dir_result(1) drop_dir_def if_not_P [OF nz] if_not_P [OF nt] a ..
  moreover have "fst (npt_clear_dir i p idx ?v h) = 1" using nz pf by (simp add: npt_clear_dir_def Let_def)
  moreover have "pt_write p idx 0 h q = Some pg" using h(1) p by (auto simp: pt_write_def split: option.splits)
  ultimately show ?thesis
    by (intro exI [of _ "fst (snd (npt_clear_dir i p idx ?v h))"] exI [of _ "(pt_write p idx 0 h)(q OR me := None)"])
      (auto simp: prod_eq_iff)
qed

theorem npt_clear_dir_frees_iff_witness:
  "\<exists>i' h'. npt_clear_dir npt_example 0x1000 5 (fmt_table (npt_fmt 0x800000000000) 0x2000) [0x1000 \<mapsto> zero_page, 0x2000 \<mapsto> zero_page]
      = (1, i', h') \<and> h' 0x2000 = Some zero_page"
  using npt_clear_dir_frees_iff [of "0x800000000000" "0x2000" "[0x1000 \<mapsto> zero_page, 0x2000 \<mapsto> zero_page]" zero_page "0x1000" npt_example 5]
  by (auto simp: npt_page_ok_def)

end
