(* ===== verification/Slim_Vmx_Msr.thy ===== *)
theory Slim_Vmx_Msr
  imports Slim_Vmx_State
begin

text \<open>
  The registers host and guest share (\<^verbatim>\<open>vmx.c\<close>): the model specific registers that are switched by
  software, XCR0, and the selectors and control registers the processor reloads on an exit.  The
  guest's and the host's values are tables in the vcpu; the code keeps the position of each MSR in
  the tables in \<open>msr_index\<close>.
\<close>

section \<open>The tables\<close>

abbreviation (input) MSR_EFER :: u32 where "MSR_EFER \<equiv> 0xc0000080"
abbreviation (input) MSR_STAR :: u32 where "MSR_STAR \<equiv> 0xc0000081"
abbreviation (input) MSR_LSTAR :: u32 where "MSR_LSTAR \<equiv> 0xc0000082"
abbreviation (input) MSR_CSTAR :: u32 where "MSR_CSTAR \<equiv> 0xc0000083"
abbreviation (input) MSR_SYSCALL_MASK :: u32 where "MSR_SYSCALL_MASK \<equiv> 0xc0000084"
abbreviation (input) MSR_FS_BASE :: u32 where "MSR_FS_BASE \<equiv> 0xc0000100"
abbreviation (input) MSR_GS_BASE :: u32 where "MSR_GS_BASE \<equiv> 0xc0000101"
abbreviation (input) MSR_KERNEL_GS_BASE :: u32 where "MSR_KERNEL_GS_BASE \<equiv> 0xc0000102"

definition vmx_shared_msrs :: "u32 list" where
  "vmx_shared_msrs = [MSR_SYSCALL_MASK, MSR_LSTAR, MSR_KERNEL_GS_BASE, MSR_EFER, MSR_STAR, MSR_MISC_FEATURES_ENABLES]"

abbreviation (input) NR_SHARED_MSRS :: nat where "NR_SHARED_MSRS \<equiv> 6"
abbreviation (input) NR_MSRS :: nat where "NR_MSRS \<equiv> 8"

fun find_msr_from :: "msr_entry list \<Rightarrow> u32 \<Rightarrow> nat \<Rightarrow> int" where
  "find_msr_from [] msr i = - 1"
| "find_msr_from (e # es) msr i = (if msr_idx e = msr then int i else find_msr_from es msr (Suc i))"

definition find_msr_index :: "vmx_vcpu \<Rightarrow> u32 \<Rightarrow> int" where
  "find_msr_index vcpu msr = find_msr_from (take (nmsrs vcpu) (guest_msrs vcpu)) msr 0"

text \<open>The position instead of the pointer.\<close>

definition find_msr_entry :: "vmx_vcpu \<Rightarrow> u32 \<Rightarrow> nat option" where
  "find_msr_entry vcpu msr = (let i = find_msr_index vcpu msr in if 0 \<le> i then Some (nat i) else None)"

definition move_msr_up :: "vmx_vcpu \<Rightarrow> nat \<Rightarrow> nat \<Rightarrow> vmx_vcpu" where
  "move_msr_up vcpu src dst =
     (let gm = guest_msrs vcpu; hm = host_msrs vcpu in
      vcpu\<lparr>guest_msrs := gm[dst := gm ! src, src := gm ! dst], host_msrs := hm[dst := hm ! src, src := hm ! dst]\<rparr>)"

definition compare_msr :: "vmx_vcpu \<Rightarrow> nat \<Rightarrow> bool" where
  "compare_msr vcpu n \<longleftrightarrow> msr_idx (guest_msrs vcpu ! n) = msr_idx (host_msrs vcpu ! n)
     \<and> msr_data (guest_msrs vcpu ! n) = msr_data (host_msrs vcpu ! n)"

definition get_msr_index :: "vmx_vcpu \<Rightarrow> u32 \<Rightarrow> int" where
  "get_msr_index vcpu msr =
     (if msr = MSR_SYSCALL_MASK then mi_sys_call_mask (msr_index vcpu)
      else if msr = MSR_LSTAR then mi_lstar (msr_index vcpu)
      else if msr = MSR_KERNEL_GS_BASE then mi_kernel_gs_base (msr_index vcpu)
      else if msr = MSR_EFER then mi_efer (msr_index vcpu)
      else if msr = MSR_STAR then mi_star (msr_index vcpu)
      else if msr = MSR_MISC_FEATURES_ENABLES then mi_feature_enable (msr_index vcpu)
      else find_msr_index vcpu msr)"

text \<open>The loops of \<^verbatim>\<open>vmx_setup_vmcs\<close> that fill the tables: \<open>rd\<close> is what reading the register gives (\<open>None\<close>: it
  faults), \<open>wr\<close> whether it can be written back.\<close>

definition append_msr :: "u32 \<Rightarrow> u64 \<Rightarrow> vmx_vcpu \<Rightarrow> vmx_vcpu" where
  "append_msr msr data vcpu =
     (let j = nmsrs vcpu; e = \<lparr>msr_idx = msr, msr_reserved = 0, msr_data = data\<rparr> in
      vcpu\<lparr>host_msrs := (host_msrs vcpu)[j := e], guest_msrs := (guest_msrs vcpu)[j := e], nmsrs := nmsrs vcpu + 1\<rparr>)"

definition init_shared_msr :: "(u32 \<Rightarrow> u64 option) \<Rightarrow> (u32 \<Rightarrow> bool) \<Rightarrow> u32 \<Rightarrow> vmx_vcpu \<Rightarrow> vmx_vcpu" where
  "init_shared_msr rd wr msr vcpu =
     (case rd msr of None \<Rightarrow> vcpu | Some data \<Rightarrow> if wr msr then append_msr msr data vcpu else vcpu)"

definition init_msrs :: "(u32 \<Rightarrow> u64 option) \<Rightarrow> (u32 \<Rightarrow> bool) \<Rightarrow> vmx_vcpu \<Rightarrow> vmx_vcpu" where
  "init_msrs rd wr vcpu =
     append_msr MSR_PLATFORM_INFO (case rd MSR_PLATFORM_INFO of None \<Rightarrow> 0 | Some d \<Rightarrow> d)
       (fold (init_shared_msr rd wr) vmx_shared_msrs vcpu)"

text \<open>One paragraph of \<^verbatim>\<open>setup_msr\<close>: the position found, and the vcpu and counter afterwards.\<close>

definition setup_one_msr :: "u32 \<Rightarrow> vmx_vcpu \<times> nat \<Rightarrow> int \<times> vmx_vcpu \<times> nat" where
  "setup_one_msr msr = (\<lambda>(vcpu, save).
     let index = find_msr_index vcpu msr in
     if 0 \<le> index then (index, move_msr_up vcpu (nat index) save, save + 1) else (index, vcpu, save))"

text \<open>\<open>pa\<close> gives the physical addresses of the MSR bitmap and of the two autoload areas.\<close>

definition setup_msr :: "u64 \<times> u64 \<times> u64 \<Rightarrow> vmx_vcpu \<Rightarrow> vmx_vcpu" where
  "setup_msr pa vcpu =
     (let (i1, v1, n1) = setup_one_msr MSR_SYSCALL_MASK (vcpu, 0);
          v1 = v1\<lparr>msr_index := (msr_index v1)\<lparr>mi_sys_call_mask := i1\<rparr>\<rparr>;
          (i2, v2, n2) = setup_one_msr MSR_LSTAR (v1, n1);
          v2 = v2\<lparr>msr_index := (msr_index v2)\<lparr>mi_lstar := i2\<rparr>\<rparr>;
          (i3, v3, n3) = setup_one_msr MSR_KERNEL_GS_BASE (v2, n2);
          v3 = v3\<lparr>msr_index := (msr_index v3)\<lparr>mi_kernel_gs_base := i3\<rparr>\<rparr>;
          (i4, v4, n4) = setup_one_msr MSR_EFER (v3, n3);
          v4 = v4\<lparr>msr_index := (msr_index v4)\<lparr>mi_efer := i4\<rparr>\<rparr>;
          (i5, v5, n5) = setup_one_msr MSR_STAR (v4, n4);
          v5 = v5\<lparr>msr_index := (msr_index v5)\<lparr>mi_star := i5\<rparr>\<rparr>;
          (_, v6, n6) = setup_one_msr MSR_PLATFORM_INFO (v5, n5);
          (i7, v7, n7) = setup_one_msr MSR_MISC_FEATURES_ENABLES (v6, n6);
          v7 = v7\<lparr>msr_index := (msr_index v7)\<lparr>mi_feature_enable := i7\<rparr>\<rparr>;
          v8 = v7\<lparr>save_nmsrs := n7\<rparr>
      in vmcs_write64 VM_ENTRY_MSR_LOAD_ADDR (snd (snd pa))
           (vmcs_write64 VM_EXIT_MSR_LOAD_ADDR (fst (snd pa))
             (vmcs_write32 VM_ENTRY_MSR_LOAD_COUNT 0
               (vmcs_write32 VM_EXIT_MSR_LOAD_COUNT 0
                 (vmcs_write64 MSR_BITMAP (fst pa) v8)))))"

section \<open>Switching the MSRs\<close>

text \<open>The registers of a CPU: MSRs, XCR0, the page table root, CR4 and the selectors.\<close>

record cpu_regs =
  hw_msrs :: "u32 \<Rightarrow> u64"
  hw_xcr0 :: u64
  hw_cr3 :: u64
  hw_cr4 :: u64
  hw_ldt :: u16
  hw_fs :: u16
  hw_gs :: u16

definition wrmsrl :: "u32 \<Rightarrow> u64 \<Rightarrow> cpu_regs \<Rightarrow> cpu_regs" where
  "wrmsrl msr data r = r\<lparr>hw_msrs := (hw_msrs r)(msr := data)\<rparr>"

definition load_host_msr :: "vmx_vcpu \<Rightarrow> u32 \<Rightarrow> cpu_regs \<Rightarrow> cpu_regs" where
  "load_host_msr vcpu msr r =
     (let i = get_msr_index vcpu msr in
      if i < 0 \<or> int (save_nmsrs vcpu) \<le> i then r
      else if compare_msr vcpu (nat i) then r
      else wrmsrl (msr_idx (host_msrs vcpu ! nat i)) (msr_data (host_msrs vcpu ! nat i)) r)"

definition vmx_load_host_msrs :: "vmx_vcpu \<times> cpu_regs \<Rightarrow> vmx_vcpu \<times> cpu_regs" where
  "vmx_load_host_msrs = (\<lambda>(vcpu, r).
     if \<not> guest_msrs_loaded vcpu then (vcpu, r)
     else (vcpu\<lparr>guest_msrs_loaded := False\<rparr>, fold (load_host_msr vcpu) vmx_shared_msrs r))"

definition load_guest_msr :: "vmx_vcpu \<Rightarrow> u32 \<Rightarrow> cpu_regs \<Rightarrow> cpu_regs" where
  "load_guest_msr vcpu msr r =
     (let i = get_msr_index vcpu msr in
      if i < 0 \<or> int (save_nmsrs vcpu) \<le> i then r
      else if compare_msr vcpu (nat i) then r
      else wrmsrl (msr_idx (guest_msrs vcpu ! nat i)) (msr_data (guest_msrs vcpu ! nat i)) r)"

definition vmx_load_guest_msrs :: "vmx_vcpu \<times> cpu_regs \<Rightarrow> vmx_vcpu \<times> cpu_regs" where
  "vmx_load_guest_msrs = (\<lambda>(vcpu, r).
     (vcpu\<lparr>guest_msrs_loaded := True\<rparr>, fold (load_guest_msr vcpu) vmx_shared_msrs r))"

definition save_guest_msr :: "cpu_regs \<Rightarrow> u32 \<Rightarrow> vmx_vcpu \<Rightarrow> vmx_vcpu" where
  "save_guest_msr r msr vcpu =
     (let i = get_msr_index vcpu msr in
      if i < 0 \<or> int (save_nmsrs vcpu) \<le> i then vcpu
      else
        (let e = guest_msrs vcpu ! nat i in
         vcpu\<lparr>guest_msrs := (guest_msrs vcpu)[nat i := e\<lparr>msr_data := hw_msrs r (msr_idx e)\<rparr>]\<rparr>))"

definition save_host_msr :: "cpu_regs \<Rightarrow> u32 \<Rightarrow> vmx_vcpu \<Rightarrow> vmx_vcpu" where
  "save_host_msr r msr vcpu =
     (let i = get_msr_index vcpu msr in
      if i < 0 \<or> int (save_nmsrs vcpu) \<le> i then vcpu
      else
        (let e = host_msrs vcpu ! nat i in
         vcpu\<lparr>host_msrs := (host_msrs vcpu)[nat i := e\<lparr>msr_data := hw_msrs r (msr_idx e)\<rparr>]\<rparr>))"

definition vmx_save_host_msrs :: "cpu_regs \<Rightarrow> vmx_vcpu \<Rightarrow> vmx_vcpu" where
  "vmx_save_host_msrs r vcpu = fold (save_host_msr r) vmx_shared_msrs vcpu"

section \<open>XCR0\<close>

text \<open>\<open>xs\<close> is \<^verbatim>\<open>has_xsave\<close>, \<open>host_xcr0\<close> the value read when the engine was enabled.\<close>

definition vmx_load_guest_xcr0 :: "bool \<Rightarrow> u64 \<Rightarrow> vmx_vcpu \<times> cpu_regs \<Rightarrow> vmx_vcpu \<times> cpu_regs" where
  "vmx_load_guest_xcr0 xs host_xcr0 = (\<lambda>(vcpu, r).
     if \<not> xs then (vcpu, r)
     else if xcr0 vcpu = 0 then (vcpu, r)
     else if \<not> guest_xcr0_loaded vcpu
     then (vcpu\<lparr>guest_xcr0_loaded := True\<rparr>, if xcr0 vcpu \<noteq> host_xcr0 then r\<lparr>hw_xcr0 := xcr0 vcpu\<rparr> else r)
     else (vcpu, r))"

definition vmx_put_guest_xcr0 :: "bool \<Rightarrow> u64 \<Rightarrow> vmx_vcpu \<times> cpu_regs \<Rightarrow> vmx_vcpu \<times> cpu_regs" where
  "vmx_put_guest_xcr0 xs host_xcr0 = (\<lambda>(vcpu, r).
     if \<not> xs then (vcpu, r)
     else if guest_xcr0_loaded vcpu
     then (vcpu\<lparr>guest_xcr0_loaded := False\<rparr>, if xcr0 vcpu \<noteq> host_xcr0 then r\<lparr>hw_xcr0 := host_xcr0\<rparr> else r)
     else (vcpu, r))"

section \<open>Selectors and control registers\<close>

definition vmx_load_host_state :: "vmx_vcpu \<Rightarrow> cpu_regs \<Rightarrow> cpu_regs" where
  "vmx_load_host_state vcpu r =
     (let r1 = (if hs_gs_ldt_reload_needed (host_state vcpu)
                then r\<lparr>hw_ldt := hs_ldt_sel (host_state vcpu), hw_gs := hs_gs_sel (host_state vcpu)\<rparr> else r)
      in if hs_fs_reload_needed (host_state vcpu) then r1\<lparr>hw_fs := hs_fs_sel (host_state vcpu)\<rparr> else r1)"

definition vmx_save_host_state :: "cpu_regs \<Rightarrow> vmx_vcpu \<Rightarrow> vmx_vcpu" where
  "vmx_save_host_state r vcpu =
     (let v1 = (if hw_cr3 r \<noteq> hs_cr3 (host_state vcpu)
                then (vmcs_writel HOST_CR3 (hw_cr3 r) vcpu)\<lparr>host_state := (host_state vcpu)\<lparr>hs_cr3 := hw_cr3 r\<rparr>\<rparr>
                else vcpu);
          v2 = (if hw_cr4 r \<noteq> hs_cr4 (host_state v1)
                then (vmcs_writel HOST_CR4 (hw_cr4 r) v1)\<lparr>host_state := (host_state v1)\<lparr>hs_cr4 := hw_cr4 r\<rparr>\<rparr>
                else v1);
          v3 = v2\<lparr>host_state := (host_state v2)\<lparr>hs_ldt_sel := hw_ldt r, hs_gs_ldt_reload_needed := hw_ldt r \<noteq> 0,
                 hs_fs_sel := hw_fs r\<rparr>\<rparr>;
          v4 = (if hw_fs r AND 7 = 0
                then (vmcs_write16 HOST_FS_SELECTOR (hw_fs r) v3)\<lparr>host_state := (host_state v3)\<lparr>hs_fs_reload_needed := False\<rparr>\<rparr>
                else (vmcs_write16 HOST_FS_SELECTOR 0 v3)\<lparr>host_state := (host_state v3)\<lparr>hs_fs_reload_needed := True\<rparr>\<rparr>);
          v5 = v4\<lparr>host_state := (host_state v4)\<lparr>hs_gs_sel := hw_gs r\<rparr>\<rparr>
      in if hw_gs r AND 7 = 0 then vmcs_write16 HOST_GS_SELECTOR (hw_gs r) v5
         else (vmcs_write16 HOST_GS_SELECTOR 0 v5)\<lparr>host_state := (host_state v5)\<lparr>hs_gs_ldt_reload_needed := True\<rparr>\<rparr>)"

section \<open>Around an entry\<close>

abbreviation (input) EXIT_REASON_EXCEPTION_NMI :: int where "EXIT_REASON_EXCEPTION_NMI \<equiv> 0"
abbreviation (input) EXIT_REASON_EXTERNAL_INTERRUPT :: int where "EXIT_REASON_EXTERNAL_INTERRUPT \<equiv> 1"
abbreviation (input) EXIT_REASON_INTERRUPT_WINDOW :: int where "EXIT_REASON_INTERRUPT_WINDOW \<equiv> 7"
abbreviation (input) EXIT_REASON_CPUID :: int where "EXIT_REASON_CPUID \<equiv> 10"
abbreviation (input) EXIT_REASON_HLT :: int where "EXIT_REASON_HLT \<equiv> 12"
abbreviation (input) EXIT_REASON_VMCALL :: int where "EXIT_REASON_VMCALL \<equiv> 18"
abbreviation (input) EXIT_REASON_MSR_READ :: int where "EXIT_REASON_MSR_READ \<equiv> 31"
abbreviation (input) EXIT_REASON_MSR_WRITE :: int where "EXIT_REASON_MSR_WRITE \<equiv> 32"
abbreviation (input) EXIT_REASON_MCE_DURING_VMENTRY :: int where "EXIT_REASON_MCE_DURING_VMENTRY \<equiv> 41"
abbreviation (input) EXIT_REASON_EPT_VIOLATION :: int where "EXIT_REASON_EPT_VIOLATION \<equiv> 48"
abbreviation (input) EXIT_REASON_EPT_MISCONFIG :: int where "EXIT_REASON_EPT_MISCONFIG \<equiv> 49"
abbreviation (input) EXIT_REASON_XSETBV :: int where "EXIT_REASON_XSETBV \<equiv> 55"

text \<open>The exits after which most MSRs keep the guest's values.\<close>

definition fast_exit :: "int \<Rightarrow> bool" where
  "fast_exit reason \<longleftrightarrow> reason \<in> {EXIT_REASON_VMCALL, EXIT_REASON_EPT_VIOLATION, EXIT_REASON_EXTERNAL_INTERRUPT}"

definition enter_switch :: "bool \<Rightarrow> u64 \<Rightarrow> int \<Rightarrow> vmx_vcpu \<times> cpu_regs \<Rightarrow> vmx_vcpu \<times> cpu_regs" where
  "enter_switch xs host_xcr0 last_vmexit = (\<lambda>(vcpu, r).
     if scheded vcpu then
       (let (v1, r1) = vmx_load_guest_msrs (vmx_load_guest_xcr0 xs host_xcr0 (vcpu, r)) in (v1\<lparr>scheded := False\<rparr>, r1))
     else if fast_exit last_vmexit then
       (vcpu, load_guest_msr vcpu MSR_KERNEL_GS_BASE (load_guest_msr vcpu MSR_EFER r))
     else if last_vmexit = EXIT_REASON_XSETBV then vmx_load_guest_msrs (vmx_load_guest_xcr0 xs host_xcr0 (vcpu, r))
     else vmx_load_guest_msrs (vcpu, r))"

definition exit_switch :: "int \<Rightarrow> vmx_vcpu \<times> cpu_regs \<Rightarrow> vmx_vcpu \<times> cpu_regs" where
  "exit_switch reason = (\<lambda>(vcpu, r).
     let v1 = save_guest_msr r MSR_KERNEL_GS_BASE vcpu in
     if fast_exit reason then
       (v1\<lparr>vflags := vmcs_readl v1 GUEST_RFLAGS\<rparr>, load_host_msr v1 MSR_KERNEL_GS_BASE (load_host_msr v1 MSR_EFER r))
     else vmx_load_host_msrs (v1, r))"

section \<open>Positions in the tables\<close>

text \<open>The entries a register leaves in the tables when it can be read and written.\<close>

definition msr_ent :: "(u32 \<Rightarrow> u64 option) \<Rightarrow> u32 \<Rightarrow> msr_entry" where
  "msr_ent rd m = \<lparr>msr_idx = m, msr_reserved = 0, msr_data = (case rd m of None \<Rightarrow> 0 | Some d \<Rightarrow> d)\<rparr>"

definition usable :: "(u32 \<Rightarrow> u64 option) \<Rightarrow> (u32 \<Rightarrow> bool) \<Rightarrow> u32 \<Rightarrow> bool" where
  "usable rd wr m \<longleftrightarrow> rd m \<noteq> None \<and> wr m"

definition put_table :: "msr_entry list \<Rightarrow> vmx_vcpu \<Rightarrow> vmx_vcpu" where
  "put_table es v = v\<lparr>host_msrs := es @ drop (length es) (host_msrs v), guest_msrs := es @ drop (length es) (guest_msrs v),
     nmsrs := length es\<rparr>"

lemma put_table_append:
  assumes "length es < length (host_msrs v)" "length es < length (guest_msrs v)"
  shows "append_msr m d (put_table es v) = put_table (es @ [\<lparr>msr_idx = m, msr_reserved = 0, msr_data = d\<rparr>]) v"
proof -
  have upd: "(es @ drop (length es) xs)[length es := e] = es @ e # drop (Suc (length es)) xs" if "length es < length xs" for xs and e :: msr_entry
    using that by (simp add: list_update_append Cons_nth_drop_Suc [symmetric])
  show ?thesis using assms by (simp add: append_msr_def put_table_def Let_def upd)
qed

lemma init_fold:
  assumes "length es + length ms < length (host_msrs v)" "length es + length ms < length (guest_msrs v)"
  shows "fold (init_shared_msr rd wr) ms (put_table es v) = put_table (es @ map (msr_ent rd) (filter (usable rd wr) ms)) v"
  using assms
proof (induction ms arbitrary: es)
  case (Cons m ms)
  show ?case
  proof (cases "usable rd wr m")
    case True
    then obtain d where d: "rd m = Some d" "wr m" by (auto simp: usable_def)
    have "fold (init_shared_msr rd wr) (m # ms) (put_table es v) = fold (init_shared_msr rd wr) ms (put_table (es @ [msr_ent rd m]) v)"
      using put_table_append [of es v m d] Cons.prems d by (simp add: init_shared_msr_def msr_ent_def)
    then show ?thesis using Cons.IH [of "es @ [msr_ent rd m]"] Cons.prems True by simp
  next
    case False
    then have "init_shared_msr rd wr m (put_table es v) = put_table es v"
      by (auto simp: init_shared_msr_def usable_def split: option.splits)
    then show ?thesis using Cons False by simp
  qed
qed simp

lemma init_msrs_table:
  assumes "length (host_msrs v) = NR_MSRS" "length (guest_msrs v) = NR_MSRS" "nmsrs v = 0"
  shows "init_msrs rd wr v = put_table (map (msr_ent rd) (filter (usable rd wr) vmx_shared_msrs @ [MSR_PLATFORM_INFO])) v"
proof -
  let ?es = "map (msr_ent rd) (filter (usable rd wr) vmx_shared_msrs)"
  have v: "v = put_table [] v" using assms(3) by (simp add: put_table_def)
  have len: "length vmx_shared_msrs = 6" by (simp add: vmx_shared_msrs_def)
  have "length ?es \<le> 6" unfolding length_map len [symmetric] by (rule length_filter_le)
  then have "append_msr MSR_PLATFORM_INFO (case rd MSR_PLATFORM_INFO of None \<Rightarrow> 0 | Some d \<Rightarrow> d) (put_table ?es v)
      = put_table (?es @ [msr_ent rd MSR_PLATFORM_INFO]) v"
    using assms by (simp add: put_table_append msr_ent_def)
  moreover have "fold (init_shared_msr rd wr) vmx_shared_msrs v = put_table ?es v"
    using init_fold [of "[]" vmx_shared_msrs v rd wr] v len assms by simp
  ultimately show ?thesis by (simp add: init_msrs_def)
qed

lemma find_msr_from_add: "find_msr_from (map (msr_ent rd) ms) m k = (if m \<in> set ms then int (k + length (takeWhile (\<lambda>x. x \<noteq> m) ms)) else - 1)"
  by (induction ms arbitrary: k) (auto simp: msr_ent_def)

text \<open>The position of a register in the order of \<open>vmx_shared_msrs\<close>.\<close>

lemma takeWhile_filter:
  assumes "m \<notin> set xs" "P m"
  shows "takeWhile (\<lambda>x. x \<noteq> m) (filter P (xs @ m # ys) @ zs) = filter P xs"
  using assms by (simp add: takeWhile_append)

lemma find_put_table [simp]:
  "find_msr_index (put_table (map (msr_ent rd) ms) v) m = (if m \<in> set ms then int (length (takeWhile (\<lambda>x. x \<noteq> m) ms)) else - 1)"
  by (simp add: find_msr_index_def put_table_def find_msr_from_add)

lemma put_table_fields [simp]:
  "(put_table es v)\<lparr>msr_index := x\<rparr> = put_table es (v\<lparr>msr_index := x\<rparr>)"
  "(put_table es v)\<lparr>save_nmsrs := n\<rparr> = put_table es (v\<lparr>save_nmsrs := n\<rparr>)"
  "msr_index (put_table es v) = msr_index v" "save_nmsrs (put_table es v) = save_nmsrs v"
  "nmsrs (put_table es v) = length es"
  by (simp_all add: put_table_def)

text \<open>An entry that is already at the position the counter has reached stays, a missing one changes
  nothing.\<close>

lemma setup_in_place:
  "find_msr_index v m = int n \<Longrightarrow> setup_one_msr m (v, n) = (int n, v, Suc n)"
  "find_msr_index v m = - 1 \<Longrightarrow> setup_one_msr m (v, n) = (- 1, v, n)"
  by (simp_all add: setup_one_msr_def move_msr_up_def Let_def)

lemma setup_ordered:
  assumes "m \<notin> set xs" "m \<notin> set ys" "m \<notin> set zs" "n = length (filter P xs)"
  shows "setup_one_msr m (put_table (map (msr_ent rd) (filter P (xs @ m # ys) @ zs)) v, n)
    = (if P m then int n else - 1, put_table (map (msr_ent rd) (filter P (xs @ m # ys) @ zs)) v, length (filter P (xs @ [m])))"
proof (cases "P m")
  case True
  have "find_msr_index (put_table (map (msr_ent rd) (filter P (xs @ m # ys) @ zs)) v) m = int n"
    using takeWhile_filter [of m xs P, OF assms(1) True, of ys zs] True assms(4) unfolding find_put_table by simp
  from setup_in_place(1) [OF this] show ?thesis using True assms(4) by simp
next
  case False
  then have "find_msr_index (put_table (map (msr_ent rd) (filter P (xs @ m # ys) @ zs)) v) m = - 1"
    using assms unfolding find_put_table by simp
  from setup_in_place(2) [OF this] show ?thesis using False assms(4) by simp
qed

lemma move_last:
  "move_msr_up (put_table (xs @ [a, b]) v) (Suc (length xs)) (length xs) = put_table (xs @ [b, a]) v"
  by (simp add: move_msr_up_def put_table_def Let_def nth_append list_update_append)

definition five_msrs :: "u32 list" where
  "five_msrs = [MSR_SYSCALL_MASK, MSR_LSTAR, MSR_KERNEL_GS_BASE, MSR_EFER, MSR_STAR]"

text \<open>The last two registers: when both are there they change places.\<close>

lemma setup_last_two:
  fixes P rd
  defines "ms \<equiv> filter P five_msrs"
  defines "ms' \<equiv> ms @ (if P MSR_MISC_FEATURES_ENABLES then [MSR_PLATFORM_INFO, MSR_MISC_FEATURES_ENABLES] else [MSR_PLATFORM_INFO])"
  shows "setup_one_msr MSR_PLATFORM_INFO
      (put_table (map (msr_ent rd) (ms @ (if P MSR_MISC_FEATURES_ENABLES then [MSR_MISC_FEATURES_ENABLES] else []) @ [MSR_PLATFORM_INFO])) v, length ms)
    = (int (length ms' - 1), put_table (map (msr_ent rd) ms') v, Suc (length ms))"
    "setup_one_msr MSR_MISC_FEATURES_ENABLES (put_table (map (msr_ent rd) ms') v, Suc (length ms))
    = (if P MSR_MISC_FEATURES_ENABLES then int (Suc (length ms)) else - 1, put_table (map (msr_ent rd) ms') v, length ms')"
proof -
  have n: "MSR_PLATFORM_INFO \<notin> set ms" "MSR_MISC_FEATURES_ENABLES \<notin> set ms" by (simp_all add: ms_def five_msrs_def)
  have tw: "takeWhile (\<lambda>x. x \<noteq> m) (ms @ ys) = ms @ takeWhile (\<lambda>x. x \<noteq> m) ys" if "m \<notin> set ms" for m ys
    using that by (simp add: takeWhile_append)
  show "setup_one_msr MSR_MISC_FEATURES_ENABLES (put_table (map (msr_ent rd) ms') v, Suc (length ms))
    = (if P MSR_MISC_FEATURES_ENABLES then int (Suc (length ms)) else - 1, put_table (map (msr_ent rd) ms') v, length ms')"
  proof (cases "P MSR_MISC_FEATURES_ENABLES")
    case True
    then have "find_msr_index (put_table (map (msr_ent rd) ms') v) MSR_MISC_FEATURES_ENABLES = int (Suc (length ms))"
      using n unfolding find_put_table by (simp add: ms'_def tw)
    from setup_in_place(1) [OF this] show ?thesis using True by (simp add: ms'_def)
  next
    case False
    then have "find_msr_index (put_table (map (msr_ent rd) ms') v) MSR_MISC_FEATURES_ENABLES = - 1"
      using n unfolding find_put_table by (simp add: ms'_def)
    from setup_in_place(2) [OF this] show ?thesis using False by (simp add: ms'_def)
  qed
  show "setup_one_msr MSR_PLATFORM_INFO
      (put_table (map (msr_ent rd) (ms @ (if P MSR_MISC_FEATURES_ENABLES then [MSR_MISC_FEATURES_ENABLES] else []) @ [MSR_PLATFORM_INFO])) v, length ms)
    = (int (length ms' - 1), put_table (map (msr_ent rd) ms') v, Suc (length ms))"
  proof (cases "P MSR_MISC_FEATURES_ENABLES")
    case True
    let ?v = "put_table (map (msr_ent rd) (ms @ [MSR_MISC_FEATURES_ENABLES, MSR_PLATFORM_INFO])) v"
    have f: "find_msr_index ?v MSR_PLATFORM_INFO = int (Suc (length ms))"
      using n unfolding find_put_table by (simp add: tw)
    have "move_msr_up ?v (Suc (length ms)) (length ms) = put_table (map (msr_ent rd) ms') v"
      using move_last [of "map (msr_ent rd) ms"] True by (simp add: ms'_def)
    then have "setup_one_msr MSR_PLATFORM_INFO (?v, length ms) = (int (Suc (length ms)), put_table (map (msr_ent rd) ms') v, Suc (length ms))"
      unfolding setup_one_msr_def prod.case Let_def f by (simp del: of_nat_Suc)
    then show ?thesis using True by (simp add: ms'_def)
  next
    case False
    have "find_msr_index (put_table (map (msr_ent rd) (ms @ [MSR_PLATFORM_INFO])) v) MSR_PLATFORM_INFO = int (length ms)"
      using n unfolding find_put_table by (simp add: tw)
    from setup_in_place(1) [OF this] show ?thesis using False by (simp add: ms'_def)
  qed
qed

definition final_msrs :: "(u32 \<Rightarrow> bool) \<Rightarrow> u32 list" where
  "final_msrs P = filter P five_msrs
     @ (if P MSR_MISC_FEATURES_ENABLES then [MSR_PLATFORM_INFO, MSR_MISC_FEATURES_ENABLES] else [MSR_PLATFORM_INFO])"

definition msr_pos :: "(u32 \<Rightarrow> bool) \<Rightarrow> u32 \<Rightarrow> u32 list \<Rightarrow> int" where
  "msr_pos P m xs = (if P m then int (length (filter P xs)) else - 1)"

definition final_index :: "(u32 \<Rightarrow> bool) \<Rightarrow> vmx_msr_index \<Rightarrow> vmx_msr_index" where
  "final_index P x = x\<lparr>mi_sys_call_mask := msr_pos P MSR_SYSCALL_MASK [], mi_lstar := msr_pos P MSR_LSTAR [MSR_SYSCALL_MASK],
     mi_kernel_gs_base := msr_pos P MSR_KERNEL_GS_BASE [MSR_SYSCALL_MASK, MSR_LSTAR],
     mi_efer := msr_pos P MSR_EFER [MSR_SYSCALL_MASK, MSR_LSTAR, MSR_KERNEL_GS_BASE],
     mi_star := msr_pos P MSR_STAR [MSR_SYSCALL_MASK, MSR_LSTAR, MSR_KERNEL_GS_BASE, MSR_EFER],
     mi_feature_enable := (if P MSR_MISC_FEATURES_ENABLES then int (Suc (length (filter P five_msrs))) else - 1)\<rparr>"

lemma setup_msr_table:
  fixes rd wr
  assumes "length (host_msrs v) = NR_MSRS" "length (guest_msrs v) = NR_MSRS" "nmsrs v = 0"
  defines "P \<equiv> usable rd wr"
  shows "\<exists>f. setup_msr pa (init_msrs rd wr v) = (put_table (map (msr_ent rd) (final_msrs P))
      (v\<lparr>msr_index := final_index P (msr_index v), save_nmsrs := length (final_msrs P)\<rparr>))\<lparr>vmcs := f\<rparr>"
proof -
  define T where "T = map (msr_ent rd) (filter P vmx_shared_msrs @ [MSR_PLATFORM_INFO])"
  have st: "setup_one_msr m (put_table T w, length (filter P xs))
      = (if P m then int (length (filter P xs)) else - 1, put_table T w, length (filter P (xs @ [m])))"
    if "vmx_shared_msrs = xs @ m # ys" "m \<notin> set xs" "m \<notin> set ys" "m \<noteq> MSR_PLATFORM_INFO" for xs m ys w
    using setup_ordered [OF that(2,3), of "[MSR_PLATFORM_INFO]" _ P rd w] that(4) unfolding T_def that(1) by simp
  have s1: "setup_one_msr MSR_SYSCALL_MASK (put_table T w, length (filter P []))
      = (msr_pos P MSR_SYSCALL_MASK [], put_table T w, length (filter P [MSR_SYSCALL_MASK]))" for w
    using st [of "[]" MSR_SYSCALL_MASK "[MSR_LSTAR, MSR_KERNEL_GS_BASE, MSR_EFER, MSR_STAR, MSR_MISC_FEATURES_ENABLES]" w] by (simp only: append.simps) (simp add: vmx_shared_msrs_def msr_pos_def del: filter.simps)
  have s2: "setup_one_msr MSR_LSTAR (put_table T w, length (filter P [MSR_SYSCALL_MASK]))
      = (msr_pos P MSR_LSTAR [MSR_SYSCALL_MASK], put_table T w, length (filter P [MSR_SYSCALL_MASK, MSR_LSTAR]))" for w
    using st [of "[MSR_SYSCALL_MASK]" MSR_LSTAR "[MSR_KERNEL_GS_BASE, MSR_EFER, MSR_STAR, MSR_MISC_FEATURES_ENABLES]" w] by (simp only: append.simps) (simp add: vmx_shared_msrs_def msr_pos_def del: filter.simps)
  have s3: "setup_one_msr MSR_KERNEL_GS_BASE (put_table T w, length (filter P [MSR_SYSCALL_MASK, MSR_LSTAR]))
      = (msr_pos P MSR_KERNEL_GS_BASE [MSR_SYSCALL_MASK, MSR_LSTAR], put_table T w, length (filter P [MSR_SYSCALL_MASK, MSR_LSTAR, MSR_KERNEL_GS_BASE]))" for w
    using st [of "[MSR_SYSCALL_MASK, MSR_LSTAR]" MSR_KERNEL_GS_BASE "[MSR_EFER, MSR_STAR, MSR_MISC_FEATURES_ENABLES]" w] by (simp only: append.simps) (simp add: vmx_shared_msrs_def msr_pos_def del: filter.simps)
  have s4: "setup_one_msr MSR_EFER (put_table T w, length (filter P [MSR_SYSCALL_MASK, MSR_LSTAR, MSR_KERNEL_GS_BASE]))
      = (msr_pos P MSR_EFER [MSR_SYSCALL_MASK, MSR_LSTAR, MSR_KERNEL_GS_BASE], put_table T w, length (filter P [MSR_SYSCALL_MASK, MSR_LSTAR, MSR_KERNEL_GS_BASE, MSR_EFER]))" for w
    using st [of "[MSR_SYSCALL_MASK, MSR_LSTAR, MSR_KERNEL_GS_BASE]" MSR_EFER "[MSR_STAR, MSR_MISC_FEATURES_ENABLES]" w] by (simp only: append.simps) (simp add: vmx_shared_msrs_def msr_pos_def del: filter.simps)
  have s5: "setup_one_msr MSR_STAR (put_table T w, length (filter P [MSR_SYSCALL_MASK, MSR_LSTAR, MSR_KERNEL_GS_BASE, MSR_EFER]))
      = (msr_pos P MSR_STAR [MSR_SYSCALL_MASK, MSR_LSTAR, MSR_KERNEL_GS_BASE, MSR_EFER], put_table T w, length (filter P [MSR_SYSCALL_MASK, MSR_LSTAR, MSR_KERNEL_GS_BASE, MSR_EFER, MSR_STAR]))" for w
    using st [of "[MSR_SYSCALL_MASK, MSR_LSTAR, MSR_KERNEL_GS_BASE, MSR_EFER]" MSR_STAR "[MSR_MISC_FEATURES_ENABLES]" w] by (simp only: append.simps) (simp add: vmx_shared_msrs_def msr_pos_def del: filter.simps)
  have T: "T = map (msr_ent rd) (filter P five_msrs
      @ (if P MSR_MISC_FEATURES_ENABLES then [MSR_MISC_FEATURES_ENABLES] else []) @ [MSR_PLATFORM_INFO])"
    by (simp add: T_def vmx_shared_msrs_def five_msrs_def)
  note s6 = setup_last_two [of rd P, folded T final_msrs_def]
  have "init_msrs rd wr v = put_table T v" using init_msrs_table [OF assms(1-3), of rd wr] by (simp add: T_def P_def)
  moreover have "\<exists>f. setup_msr pa (put_table T v) = (put_table (map (msr_ent rd) (final_msrs P))
      (v\<lparr>msr_index := final_index P (msr_index v), save_nmsrs := length (final_msrs P)\<rparr>))\<lparr>vmcs := f\<rparr>"
    unfolding setup_msr_def Let_def s1 [unfolded filter.simps(1) list.size(3)]
    by (simp only: prod.case put_table_fields s2 s3 s4 s5 s6 five_msrs_def [symmetric] vmcs_access)
      (rule exI, simp add: put_table_def final_index_def split del: if_split)
  ultimately show ?thesis by (simp only:)
qed

text \<open>The position recorded for a register leads to its entries in both tables.\<close>

definition msr_present :: "vmx_vcpu \<Rightarrow> u32 \<Rightarrow> bool" where
  "msr_present v m \<longleftrightarrow> 0 \<le> get_msr_index v m \<and> get_msr_index v m < int (save_nmsrs v)"

definition msr_table_ok :: "vmx_vcpu \<Rightarrow> bool" where
  "msr_table_ok v \<longleftrightarrow> (\<forall>m \<in> set vmx_shared_msrs. msr_present v m \<longrightarrow>
     nat (get_msr_index v m) < length (guest_msrs v) \<and> nat (get_msr_index v m) < length (host_msrs v)
     \<and> msr_idx (guest_msrs v ! nat (get_msr_index v m)) = m \<and> msr_idx (host_msrs v ! nat (get_msr_index v m)) = m)"

lemma final_position:
  assumes "m \<in> set vmx_shared_msrs"
  shows "get_msr_index (v\<lparr>msr_index := final_index P x\<rparr>) m
    = (if m \<in> set (final_msrs P) then int (length (takeWhile (\<lambda>y. y \<noteq> m) (final_msrs P))) else - 1)"
    "m \<in> set (final_msrs P) \<longleftrightarrow> P m"
proof -
  have five: "(if m \<in> set (final_msrs P) then int (length (takeWhile (\<lambda>y. y \<noteq> m) (final_msrs P))) else - 1) = msr_pos P m xs"
    if "five_msrs = xs @ m # ys" "m \<notin> set xs" "m \<noteq> MSR_PLATFORM_INFO" "m \<noteq> MSR_MISC_FEATURES_ENABLES" "m \<notin> set ys" for xs ys m
  proof (cases "P m")
    case True
    have "takeWhile (\<lambda>y. y \<noteq> m) (final_msrs P) = filter P xs"
      unfolding final_msrs_def that(1) by (rule takeWhile_filter [of m xs P, OF that(2) True])
    moreover have "m \<in> set (final_msrs P)" using True by (simp add: final_msrs_def that(1))
    ultimately show ?thesis using True by (simp add: msr_pos_def)
  next
    case False
    then show ?thesis using that by (simp add: final_msrs_def msr_pos_def)
  qed
  have n: "MSR_MISC_FEATURES_ENABLES \<notin> set (filter P five_msrs)" by (simp add: five_msrs_def)
  have misc: "takeWhile (\<lambda>y. y \<noteq> MSR_MISC_FEATURES_ENABLES) (final_msrs P) = filter P five_msrs @ [MSR_PLATFORM_INFO]"
    if "P MSR_MISC_FEATURES_ENABLES"
    using that n by (simp add: final_msrs_def takeWhile_append)
  show "get_msr_index (v\<lparr>msr_index := final_index P x\<rparr>) m
    = (if m \<in> set (final_msrs P) then int (length (takeWhile (\<lambda>y. y \<noteq> m) (final_msrs P))) else - 1)"
  proof -
    consider "m = MSR_SYSCALL_MASK" | "m = MSR_LSTAR" | "m = MSR_KERNEL_GS_BASE" | "m = MSR_EFER" | "m = MSR_STAR"
      | "m = MSR_MISC_FEATURES_ENABLES" using assms by (auto simp: vmx_shared_msrs_def)
    then show ?thesis
    proof cases
      case 1
      then show ?thesis using five [of "[]" m] by (simp add: get_msr_index_def final_index_def five_msrs_def)
    next
      case 2
      then show ?thesis using five [of "[MSR_SYSCALL_MASK]" m] by (simp add: get_msr_index_def final_index_def five_msrs_def)
    next
      case 3
      then show ?thesis using five [of "[MSR_SYSCALL_MASK, MSR_LSTAR]" m] by (simp add: get_msr_index_def final_index_def five_msrs_def)
    next
      case 4
      then show ?thesis using five [of "[MSR_SYSCALL_MASK, MSR_LSTAR, MSR_KERNEL_GS_BASE]" m]
        by (simp add: get_msr_index_def final_index_def five_msrs_def)
    next
      case 5
      then show ?thesis using five [of "[MSR_SYSCALL_MASK, MSR_LSTAR, MSR_KERNEL_GS_BASE, MSR_EFER]" m]
        by (simp add: get_msr_index_def final_index_def five_msrs_def)
    next
      case 6
      then show ?thesis using misc n by (auto simp: get_msr_index_def final_index_def final_msrs_def)
    qed
  qed
  show "m \<in> set (final_msrs P) \<longleftrightarrow> P m"
  proof -
    have "m \<in> set five_msrs \<or> m = MSR_MISC_FEATURES_ENABLES" "m \<noteq> MSR_PLATFORM_INFO" "MSR_MISC_FEATURES_ENABLES \<notin> set five_msrs"
      using assms by (auto simp: five_msrs_def vmx_shared_msrs_def)
    then show ?thesis by (auto simp: final_msrs_def)
  qed
qed

lemma takeWhile_mem:
  "m \<in> set xs \<Longrightarrow> length (takeWhile (\<lambda>x. x \<noteq> m) xs) < length xs \<and> xs ! length (takeWhile (\<lambda>x. x \<noteq> m) xs) = m"
  by (induction xs) auto

section \<open>Properties of the tables\<close>

text \<open>C28. The recorded positions are the searched ones.  Whatever registers the host can read and
  write, after the set-up the tables are not overrun, and for each shared register the position
  kept in \<open>msr_index\<close> is the one a search finds, although entries were moved after it was recorded.
  It is there exactly when the register is usable, and leads to its entries in both tables.\<close>

theorem msr_positions:
  assumes "length (host_msrs v) = NR_MSRS" "length (guest_msrs v) = NR_MSRS" "nmsrs v = 0"
  shows "let v' = setup_msr pa (init_msrs rd wr v) in
    nmsrs v' \<le> NR_MSRS \<and> msr_table_ok v'
    \<and> (\<forall>m \<in> set vmx_shared_msrs. get_msr_index v' m = find_msr_index v' m
         \<and> (msr_present v' m \<longleftrightarrow> rd m \<noteq> None \<and> wr m))"
proof -
  let ?P = "usable rd wr" and ?ms = "final_msrs (usable rd wr)"
  obtain f where "setup_msr pa (init_msrs rd wr v) = (put_table (map (msr_ent rd) ?ms)
      (v\<lparr>msr_index := final_index ?P (msr_index v), save_nmsrs := length ?ms\<rparr>))\<lparr>vmcs := f\<rparr>"
    using setup_msr_table [OF assms] by blast
  then obtain v' where v': "setup_msr pa (init_msrs rd wr v) = v'"
    "v' = (put_table (map (msr_ent rd) ?ms) (v\<lparr>msr_index := final_index ?P (msr_index v), save_nmsrs := length ?ms\<rparr>))\<lparr>vmcs := f\<rparr>"
    by blast
  have len: "length ?ms \<le> 7"
    using length_filter_le [of ?P five_msrs] by (simp add: final_msrs_def) (simp add: five_msrs_def)
  have find: "find_msr_index v' m = (if m \<in> set ?ms then int (length (takeWhile (\<lambda>x. x \<noteq> m) ?ms)) else - 1)" for m
    using find_put_table [of rd ?ms "v\<lparr>msr_index := final_index ?P (msr_index v), save_nmsrs := length ?ms\<rparr>" m]
    by (simp add: v'(2) find_msr_index_def)
  have get: "get_msr_index v' m = find_msr_index v' m" if "m \<in> set vmx_shared_msrs" for m
    using final_position(1) [OF that, where v = v and P = ?P and x = "msr_index v"] that unfolding find
    by (auto simp: v'(2) get_msr_index_def put_table_def vmx_shared_msrs_def split del: if_split)
  have tab: "guest_msrs v' ! i = msr_ent rd (?ms ! i)" "host_msrs v' ! i = msr_ent rd (?ms ! i)" if "i < length ?ms" for i
    using that by (simp_all add: v'(2) put_table_def nth_append)
  have lens: "length (guest_msrs v') = NR_MSRS" "length (host_msrs v') = NR_MSRS"
    using assms(1,2) len by (simp_all add: v'(2) put_table_def)
  have sv: "save_nmsrs v' = length ?ms" "nmsrs v' = length ?ms" by (simp_all add: v'(2) put_table_def)
  have pos: "length (takeWhile (\<lambda>x. x \<noteq> m) ?ms) < length ?ms" "?ms ! length (takeWhile (\<lambda>x. x \<noteq> m) ?ms) = m"
    if "m \<in> set ?ms" for m
    using takeWhile_mem [OF that] by simp_all
  have "msr_table_ok v'"
    unfolding msr_table_ok_def
  proof (intro ballI impI)
    fix m assume m: "m \<in> set vmx_shared_msrs" "msr_present v' m"
    then have i: "m \<in> set ?ms" using get find by (auto simp: msr_present_def split: if_splits)
    then have "nat (get_msr_index v' m) = length (takeWhile (\<lambda>x. x \<noteq> m) ?ms)" using get [OF m(1)] find by simp
    then show "nat (get_msr_index v' m) < length (guest_msrs v') \<and> nat (get_msr_index v' m) < length (host_msrs v')
      \<and> msr_idx (guest_msrs v' ! nat (get_msr_index v' m)) = m \<and> msr_idx (host_msrs v' ! nat (get_msr_index v' m)) = m"
      using pos [OF i] tab lens len by (simp add: msr_ent_def)
  qed
  moreover have "msr_present v' m \<longleftrightarrow> rd m \<noteq> None \<and> wr m" if "m \<in> set vmx_shared_msrs" for m
    using final_position(2) [OF that, of ?P] get [OF that] pos(1) [of m] find [of m]
    by (auto simp: msr_present_def sv usable_def)
  ultimately show ?thesis using get len by (simp add: v'(1) sv)
qed

theorem msr_positions_witness:
  "let v = vmx_vcpu_zero\<lparr>host_msrs := replicate NR_MSRS (msr_ent (\<lambda>_. None) 0), guest_msrs := replicate NR_MSRS (msr_ent (\<lambda>_. None) 0)\<rparr>;
       v' = setup_msr (0, 0, 0) (init_msrs (\<lambda>m. if m = MSR_LSTAR then None else Some 1) (\<lambda>_. True) v)
   in msr_table_ok v' \<and> get_msr_index v' MSR_MISC_FEATURES_ENABLES = find_msr_index v' MSR_MISC_FEATURES_ENABLES"
proof -
  let ?v = "vmx_vcpu_zero\<lparr>host_msrs := replicate NR_MSRS (msr_ent (\<lambda>_. None) 0), guest_msrs := replicate NR_MSRS (msr_ent (\<lambda>_. None) 0)\<rparr>"
  have l: "length (host_msrs ?v) = NR_MSRS" "length (guest_msrs ?v) = NR_MSRS" "nmsrs ?v = 0"
    by (simp_all add: vmx_vcpu_zero_def)
  show ?thesis
    using msr_positions [OF l, of "(0, 0, 0)" "\<lambda>m. if m = MSR_LSTAR then None else Some 1" "\<lambda>_. True"]
    unfolding Let_def by (simp add: vmx_shared_msrs_def)
qed

end
