(* ===== verification/Slim_Vmx_Switch.thy ===== *)
theory Slim_Vmx_Switch
  imports Slim_Vmx_Msr
begin

text \<open>
  What the switching of registers achieves: the guest runs with its own MSRs, the host gets its own
  back whenever the thread leaves the CPU, and the selectors and control registers survive an exit.
  XCR0 is restored only as long as the guest does not set it back to the host's value.
\<close>

section \<open>Reading the tables\<close>

definition gval :: "vmx_vcpu \<Rightarrow> u32 \<Rightarrow> u64" where
  "gval v m = msr_data (guest_msrs v ! nat (get_msr_index v m))"

definition hval :: "vmx_vcpu \<Rightarrow> u32 \<Rightarrow> u64" where
  "hval v m = msr_data (host_msrs v ! nat (get_msr_index v m))"

lemma msr_table_okD:
  assumes "msr_table_ok v" "m \<in> set vmx_shared_msrs" "msr_present v m"
  shows "nat (get_msr_index v m) < length (guest_msrs v)" "nat (get_msr_index v m) < length (host_msrs v)"
    "msr_idx (guest_msrs v ! nat (get_msr_index v m)) = m" "msr_idx (host_msrs v ! nat (get_msr_index v m)) = m"
  using assms by (auto simp: msr_table_ok_def)

lemma msr_positions_differ:
  assumes "msr_table_ok v" "m \<in> set vmx_shared_msrs" "msr_present v m" "k \<in> set vmx_shared_msrs" "msr_present v k" "m \<noteq> k"
  shows "nat (get_msr_index v m) \<noteq> nat (get_msr_index v k)"
  using msr_table_okD(3) [OF assms(1-3)] msr_table_okD(3) [OF assms(1,4,5)] assms(6) by auto

text \<open>For a shared register the position depends on \<open>msr_index\<close> alone.\<close>

lemma get_shared_index: "m \<in> set vmx_shared_msrs \<Longrightarrow> msr_index v = msr_index w \<Longrightarrow> get_msr_index v m = get_msr_index w m"
  by (auto simp: vmx_shared_msrs_def get_msr_index_def)

lemma get_index_tables [simp]:
  "m \<in> set vmx_shared_msrs \<Longrightarrow> get_msr_index (v\<lparr>guest_msrs := g\<rparr>) m = get_msr_index v m"
  "m \<in> set vmx_shared_msrs \<Longrightarrow> get_msr_index (v\<lparr>host_msrs := h\<rparr>) m = get_msr_index v m"
  by (rule get_shared_index; simp)+

section \<open>Single registers\<close>

lemma load_host_msr_eq:
  assumes "msr_table_ok v" "m \<in> set vmx_shared_msrs"
  shows "load_host_msr v m r = (if msr_present v m \<and> gval v m \<noteq> hval v m then wrmsrl m (hval v m) r else r)"
  using msr_table_okD [OF assms]
  by (auto simp: load_host_msr_def Let_def msr_present_def compare_msr_def gval_def hval_def)

lemma load_guest_msr_eq:
  assumes "msr_table_ok v" "m \<in> set vmx_shared_msrs"
  shows "load_guest_msr v m r = (if msr_present v m \<and> gval v m \<noteq> hval v m then wrmsrl m (gval v m) r else r)"
  using msr_table_okD [OF assms]
  by (auto simp: load_guest_msr_def Let_def msr_present_def compare_msr_def gval_def hval_def)

lemma fold_load:
  assumes "\<And>m r. m \<in> set ms \<Longrightarrow> f m r = (if c m then wrmsrl m (x m) r else r)"
  shows "hw_msrs (fold f ms r) k = (if k \<in> set ms \<and> c k then x k else hw_msrs r k)"
  using assms by (induction ms arbitrary: r) (auto simp: wrmsrl_def)

lemma load_host_msrs_result:
  assumes "msr_table_ok v" "vmx_load_host_msrs (v, r) = (v', r')"
  shows "v' = v\<lparr>guest_msrs_loaded := False\<rparr>"
    "hw_msrs r' k = (if guest_msrs_loaded v \<and> k \<in> set vmx_shared_msrs \<and> msr_present v k \<and> gval v k \<noteq> hval v k
       then hval v k else hw_msrs r k)"
proof -
  note f = fold_load [of vmx_shared_msrs "load_host_msr v" "\<lambda>m. msr_present v m \<and> gval v m \<noteq> hval v m" "hval v",
      OF load_host_msr_eq [OF assms(1)]]
  show "v' = v\<lparr>guest_msrs_loaded := False\<rparr>"
    using assms(2) by (cases "guest_msrs_loaded v") (auto simp: vmx_load_host_msrs_def)
  show "hw_msrs r' k = (if guest_msrs_loaded v \<and> k \<in> set vmx_shared_msrs \<and> msr_present v k \<and> gval v k \<noteq> hval v k
       then hval v k else hw_msrs r k)"
    using assms(2) f by (cases "guest_msrs_loaded v") (auto simp: vmx_load_host_msrs_def)
qed

lemma load_guest_msrs_result:
  assumes "msr_table_ok v" "vmx_load_guest_msrs (v, r) = (v', r')"
  shows "v' = v\<lparr>guest_msrs_loaded := True\<rparr>"
    "hw_msrs r' k = (if k \<in> set vmx_shared_msrs \<and> msr_present v k \<and> gval v k \<noteq> hval v k then gval v k else hw_msrs r k)"
  using fold_load [of vmx_shared_msrs "load_guest_msr v" "\<lambda>m. msr_present v m \<and> gval v m \<noteq> hval v m" "gval v",
      OF load_guest_msr_eq [OF assms(1)]] assms(2)
  by (auto simp: vmx_load_guest_msrs_def)

text \<open>What the vcpu is for the switching code.\<close>

definition msr_view :: "vmx_vcpu \<Rightarrow> msr_entry list \<times> msr_entry list \<times> vmx_msr_index \<times> nat \<times> bool \<times> bool" where
  "msr_view v = (guest_msrs v, host_msrs v, msr_index v, save_nmsrs v, guest_msrs_loaded v, scheded v)"

lemma view_shared:
  assumes "msr_view v = msr_view w"
  shows "m \<in> set vmx_shared_msrs \<Longrightarrow> get_msr_index v m = get_msr_index w m"
    "m \<in> set vmx_shared_msrs \<Longrightarrow> msr_present v m = msr_present w m"
    "m \<in> set vmx_shared_msrs \<Longrightarrow> gval v m = gval w m" "m \<in> set vmx_shared_msrs \<Longrightarrow> hval v m = hval w m"
    "msr_table_ok v = msr_table_ok w"
proof -
  show i: "get_msr_index v m = get_msr_index w m" if "m \<in> set vmx_shared_msrs" for m
    using assms by (intro get_shared_index [OF that]) (simp add: msr_view_def)
  show p: "msr_present v m = msr_present w m" if "m \<in> set vmx_shared_msrs" for m
    using i [OF that] assms by (simp add: msr_present_def msr_view_def)
  show "gval v m = gval w m" "hval v m = hval w m" if "m \<in> set vmx_shared_msrs" for m
    using i [OF that] assms by (simp_all add: gval_def hval_def msr_view_def)
  show "msr_table_ok v = msr_table_ok w"
    using i p assms by (simp add: msr_table_ok_def msr_view_def)
qed

text \<open>The guest's entry at one position gets a new value.\<close>

definition set_guest :: "nat \<Rightarrow> u64 \<Rightarrow> vmx_vcpu \<Rightarrow> vmx_vcpu" where
  "set_guest i x v = v\<lparr>guest_msrs := (guest_msrs v)[i := (guest_msrs v ! i)\<lparr>msr_data := x\<rparr>]\<rparr>"

lemma set_guest_shared:
  shows "m \<in> set vmx_shared_msrs \<Longrightarrow> msr_present (set_guest i x v) m = msr_present v m"
    "m \<in> set vmx_shared_msrs \<Longrightarrow> hval (set_guest i x v) m = hval v m"
    "msr_table_ok v \<Longrightarrow> msr_table_ok (set_guest i x v)"
    "msr_table_ok v \<Longrightarrow> m \<in> set vmx_shared_msrs \<Longrightarrow> msr_present v m \<Longrightarrow>
       gval (set_guest i x v) m = (if i = nat (get_msr_index v m) then x else gval v m)"
proof -
  show p: "msr_present (set_guest i x v) m = msr_present v m" if "m \<in> set vmx_shared_msrs" for m
    using that by (simp add: msr_present_def set_guest_def)
  show "hval (set_guest i x v) m = hval v m" if "m \<in> set vmx_shared_msrs"
    using that by (simp add: hval_def set_guest_def)
  show "gval (set_guest i x v) m = (if i = nat (get_msr_index v m) then x else gval v m)"
    if "msr_table_ok v" "m \<in> set vmx_shared_msrs" "msr_present v m"
    using msr_table_okD(1) [OF that] that(2) by (simp add: gval_def set_guest_def nth_list_update)
  show "msr_table_ok (set_guest i x v)" if ok: "msr_table_ok v"
    unfolding msr_table_ok_def
  proof (intro ballI impI)
    fix m assume m: "m \<in> set vmx_shared_msrs" "msr_present (set_guest i x v) m"
    then have "msr_present v m" using p by simp
    from msr_table_okD [OF ok m(1) this] m(1) show "nat (get_msr_index (set_guest i x v) m) < length (guest_msrs (set_guest i x v))
      \<and> nat (get_msr_index (set_guest i x v) m) < length (host_msrs (set_guest i x v))
      \<and> msr_idx (guest_msrs (set_guest i x v) ! nat (get_msr_index (set_guest i x v) m)) = m
      \<and> msr_idx (host_msrs (set_guest i x v) ! nat (get_msr_index (set_guest i x v) m)) = m"
      by (cases "i = nat (get_msr_index v m)") (simp_all add: set_guest_def)
  qed
qed

lemma save_guest_msr_eq:
  assumes "msr_table_ok v" "m \<in> set vmx_shared_msrs"
  shows "save_guest_msr r m v = (if msr_present v m then set_guest (nat (get_msr_index v m)) (hw_msrs r m) v else v)"
  using msr_table_okD(3) [OF assms]
  by (auto simp: save_guest_msr_def Let_def msr_present_def set_guest_def)

text \<open>Saving the host's values.\<close>

lemma save_host_fold:
  assumes "msr_table_ok v" "set ms \<subseteq> set vmx_shared_msrs"
  shows "msr_table_ok (fold (save_host_msr r) ms v)
    \<and> msr_view (fold (save_host_msr r) ms v) = msr_view (v\<lparr>host_msrs := host_msrs (fold (save_host_msr r) ms v)\<rparr>)
    \<and> (\<forall>m \<in> set vmx_shared_msrs. msr_present v m \<longrightarrow>
         hval (fold (save_host_msr r) ms v) m = (if m \<in> set ms then hw_msrs r m else hval v m))"
  using assms
proof (induction ms arbitrary: v)
  case (Cons k ms)
  then have k: "k \<in> set vmx_shared_msrs" by simp
  let ?i = "nat (get_msr_index v k)"
  let ?v = "if msr_present v k then v\<lparr>host_msrs := (host_msrs v)[?i := (host_msrs v ! ?i)\<lparr>msr_data := hw_msrs r k\<rparr>]\<rparr> else v"
  have s: "save_host_msr r k v = ?v"
    using msr_table_okD(4) [OF Cons.prems(1) k] by (auto simp: save_host_msr_def Let_def msr_present_def)
  have pres: "msr_present ?v m = msr_present v m" if "m \<in> set vmx_shared_msrs" for m
    using that by (simp add: msr_present_def)
  have idx: "get_msr_index ?v m = get_msr_index v m" if "m \<in> set vmx_shared_msrs" for m using that by simp
  have ok: "msr_table_ok ?v"
    unfolding msr_table_ok_def
  proof (intro ballI impI)
    fix m assume m: "m \<in> set vmx_shared_msrs" "msr_present ?v m"
    from msr_table_okD [OF Cons.prems(1) m(1)] pres [OF m(1)] m
    show "nat (get_msr_index ?v m) < length (guest_msrs ?v) \<and> nat (get_msr_index ?v m) < length (host_msrs ?v)
      \<and> msr_idx (guest_msrs ?v ! nat (get_msr_index ?v m)) = m \<and> msr_idx (host_msrs ?v ! nat (get_msr_index ?v m)) = m"
      unfolding idx [OF m(1)] by (cases "nat (get_msr_index v k) = nat (get_msr_index v m)") auto
  qed
  have hv: "hval ?v m = (if m = k then hw_msrs r m else hval v m)" if m: "m \<in> set vmx_shared_msrs" "msr_present v m" for m
  proof (cases "m = k")
    case True
    then show ?thesis using msr_table_okD(2) [OF Cons.prems(1) m] m by (simp add: hval_def)
  next
    case False
    then show ?thesis
      using msr_positions_differ [OF Cons.prems(1) k _ m, THEN not_sym] m by (auto simp: hval_def nth_list_update_neq)
  qed
  have "msr_view ?v = msr_view (v\<lparr>host_msrs := host_msrs ?v\<rparr>)" by (simp add: msr_view_def)
  moreover have "set ms \<subseteq> set vmx_shared_msrs" using Cons.prems by simp
  note Cons.IH [OF ok this]
  ultimately show ?case
    unfolding fold_simps s using hv pres by (auto simp: msr_view_def)
qed (simp add: msr_view_def)

lemma save_host_msrs_result:
  assumes "msr_table_ok v" "m \<in> set vmx_shared_msrs"
  shows "msr_table_ok (vmx_save_host_msrs r v)" "msr_present (vmx_save_host_msrs r v) m = msr_present v m"
    "msr_present v m \<Longrightarrow> hval (vmx_save_host_msrs r v) m = hw_msrs r m"
    "guest_msrs_loaded (vmx_save_host_msrs r v) = guest_msrs_loaded v"
proof -
  note f = save_host_fold [OF assms(1), of vmx_shared_msrs r, folded vmx_save_host_msrs_def]
  then have w: "msr_view (vmx_save_host_msrs r v) = msr_view (v\<lparr>host_msrs := host_msrs (vmx_save_host_msrs r v)\<rparr>)" by simp
  show "msr_table_ok (vmx_save_host_msrs r v)" "msr_present v m \<Longrightarrow> hval (vmx_save_host_msrs r v) m = hw_msrs r m"
    using f assms(2) by simp_all
  show "msr_present (vmx_save_host_msrs r v) m = msr_present v m"
    using view_shared(2) [OF w assms(2)] assms(2) by (simp add: msr_present_def)
  show "guest_msrs_loaded (vmx_save_host_msrs r v) = guest_msrs_loaded v" using w by (simp add: msr_view_def)
qed

section \<open>A run of a vcpu\<close>

text \<open>
  What happens to the MSRs while a thread runs a vcpu.  The state is the host's values on the CPU,
  the last exit, the vcpu and the registers of the CPU.  The guest may write \<^verbatim>\<open>MSR_KERNEL_GS_BASE\<close>, which
  is not intercepted, and other registers only through an exit, after which \<^verbatim>\<open>vmx_handle_msr_write\<close>
  changes the table.  The thread may be taken off the CPU and continue on another one.
\<close>

type_synonym msr_state = "(u32 \<Rightarrow> u64) \<times> int \<times> vmx_vcpu \<times> cpu_regs"

inductive msr_session :: "bool \<Rightarrow> u64 \<Rightarrow> msr_state \<Rightarrow> bool" for xs host_xcr0 where
  ms_load: "\<lbrakk>msr_table_ok v; \<not> guest_msrs_loaded v\<rbrakk>
     \<Longrightarrow> msr_session xs host_xcr0 (hw_msrs r, 0, (vmx_save_host_msrs r v)\<lparr>scheded := True\<rparr>, r)"
| ms_run: "\<lbrakk>msr_session xs host_xcr0 (host, lx, v, r); enter_switch xs host_xcr0 lx (v, r) = (v1, r1);
     msr_view v2 = msr_view v1; hw_msrs r2 = (hw_msrs r1)(MSR_KERNEL_GS_BASE := x);
     exit_switch reason (v2, r2) = (v3, r3)\<rbrakk> \<Longrightarrow> msr_session xs host_xcr0 (host, reason, v3, r3)"
| ms_other: "\<lbrakk>msr_session xs host_xcr0 (host, lx, v, r); msr_view v' = msr_view v; hw_msrs r' = hw_msrs r\<rbrakk>
     \<Longrightarrow> msr_session xs host_xcr0 (host, lx, v', r')"
| ms_write: "\<lbrakk>msr_session xs host_xcr0 (host, EXIT_REASON_MSR_WRITE, v, r)\<rbrakk>
     \<Longrightarrow> msr_session xs host_xcr0 (host, EXIT_REASON_MSR_WRITE, set_guest i x v, r)"
| ms_sched: "\<lbrakk>msr_session xs host_xcr0 (host, lx, v, r); vmx_load_host_msrs (v, r) = (v1, r1)\<rbrakk>
     \<Longrightarrow> msr_session xs host_xcr0 (hw_msrs r2, lx, (vmx_save_host_msrs r2 v1)\<lparr>scheded := True\<rparr>, r2)"

definition msr_inv :: "msr_state \<Rightarrow> bool" where
  "msr_inv st \<longleftrightarrow> (case st of (host, lx, v, r) \<Rightarrow> msr_table_ok v
     \<and> (\<not> fast_exit lx \<longrightarrow> \<not> guest_msrs_loaded v) \<and> (fast_exit lx \<and> \<not> scheded v \<longrightarrow> guest_msrs_loaded v)
     \<and> (\<forall>m \<in> set vmx_shared_msrs. msr_present v m \<longrightarrow> hval v m = host m
          \<and> (hw_msrs r m = host m \<or> hw_msrs r m = gval v m) \<and> (\<not> guest_msrs_loaded v \<longrightarrow> hw_msrs r m = host m)
          \<and> (fast_exit lx \<and> \<not> scheded v \<and> m \<noteq> MSR_EFER \<and> m \<noteq> MSR_KERNEL_GS_BASE \<longrightarrow> hw_msrs r m = gval v m)))"

lemma msr_invD:
  assumes "msr_inv (host, lx, v, r)"
  shows "msr_table_ok v" "\<not> fast_exit lx \<Longrightarrow> \<not> guest_msrs_loaded v" "fast_exit lx \<Longrightarrow> \<not> scheded v \<Longrightarrow> guest_msrs_loaded v"
    "m \<in> set vmx_shared_msrs \<Longrightarrow> msr_present v m \<Longrightarrow> hval v m = host m"
    "m \<in> set vmx_shared_msrs \<Longrightarrow> msr_present v m \<Longrightarrow> hw_msrs r m = host m \<or> hw_msrs r m = gval v m"
    "m \<in> set vmx_shared_msrs \<Longrightarrow> msr_present v m \<Longrightarrow> \<not> guest_msrs_loaded v \<Longrightarrow> hw_msrs r m = host m"
    "m \<in> set vmx_shared_msrs \<Longrightarrow> msr_present v m \<Longrightarrow> fast_exit lx \<Longrightarrow> \<not> scheded v \<Longrightarrow> m \<noteq> MSR_EFER \<Longrightarrow> m \<noteq> MSR_KERNEL_GS_BASE
       \<Longrightarrow> hw_msrs r m = gval v m"
  using assms by (auto simp: msr_inv_def)

lemma msr_inv_fresh:
  assumes "msr_table_ok v" "\<not> guest_msrs_loaded v"
  shows "msr_inv (hw_msrs r, lx, (vmx_save_host_msrs r v)\<lparr>scheded := True\<rparr>, r)"
proof -
  let ?v = "(vmx_save_host_msrs r v)\<lparr>scheded := True\<rparr>"
  have i: "get_msr_index ?v m = get_msr_index (vmx_save_host_msrs r v) m" if "m \<in> set vmx_shared_msrs" for m
    by (rule get_shared_index [OF that]) simp
  have ok: "msr_table_ok (vmx_save_host_msrs r v)" and ld: "\<not> guest_msrs_loaded (vmx_save_host_msrs r v)"
    using save_host_msrs_result(1,4) [OF assms(1), of MSR_EFER r] assms(2) by (simp_all add: vmx_shared_msrs_def)
  have pr: "msr_present ?v m = msr_present v m" "msr_present v m \<Longrightarrow> hval ?v m = hw_msrs r m" if "m \<in> set vmx_shared_msrs" for m
    using save_host_msrs_result(2,3) [OF assms(1) that, of r] i [OF that] by (simp_all add: msr_present_def hval_def)
  have "msr_table_ok ?v" using ok i by (simp add: msr_table_ok_def msr_present_def)
  then show ?thesis using pr ld by (simp add: msr_inv_def)
qed

text \<open>Entering: every register the tables know has the guest's value.\<close>

lemma xcr0_view:
  "vmx_load_guest_xcr0 xs h (v, r) = (v', r') \<Longrightarrow> msr_view v' = msr_view v \<and> hw_msrs r' = hw_msrs r"
  by (auto simp: vmx_load_guest_xcr0_def msr_view_def split: if_splits)

lemma enter_all:
  assumes inv: "msr_inv (host, lx, v, r)" and w: "msr_view w = msr_view v" "hw_msrs q = hw_msrs r"
    and l: "vmx_load_guest_msrs (w, q) = (v1, r1)"
  shows "msr_view v1 = (guest_msrs v, host_msrs v, msr_index v, save_nmsrs v, True, scheded v)"
    "m \<in> set vmx_shared_msrs \<Longrightarrow> msr_present v m \<Longrightarrow> hw_msrs r1 m = gval v m"
proof -
  note vw = view_shared [OF w(1)]
  have ok: "msr_table_ok w" using vw(5) msr_invD(1) [OF inv] by simp
  note res = load_guest_msrs_result [OF ok l]
  show "msr_view v1 = (guest_msrs v, host_msrs v, msr_index v, save_nmsrs v, True, scheded v)"
    using res(1) w(1) by (simp add: msr_view_def)
  show "hw_msrs r1 m = gval v m" if m: "m \<in> set vmx_shared_msrs" "msr_present v m"
    using res(2) [of m] msr_invD(4,5) [OF inv m] vw(2-4) [OF m(1)] m w(2) by auto
qed

lemma enter_result:
  assumes inv: "msr_inv (host, lx, v, r)" and e: "enter_switch xs hx lx (v, r) = (v1, r1)"
  shows "msr_view v1 = (guest_msrs v, host_msrs v, msr_index v, save_nmsrs v, True, False)"
    "m \<in> set vmx_shared_msrs \<Longrightarrow> msr_present v m \<Longrightarrow> hw_msrs r1 m = gval v m"
proof -
  obtain w q where x: "vmx_load_guest_xcr0 xs hx (v, r) = (w, q)" by fastforce
  note w = xcr0_view [OF x]
  have all: "msr_view v1 = (guest_msrs v, host_msrs v, msr_index v, save_nmsrs v, True, False)
      \<and> (\<forall>m \<in> set vmx_shared_msrs. msr_present v m \<longrightarrow> hw_msrs r1 m = gval v m)"
  proof (cases "scheded v")
    case True
    obtain v2 where l: "vmx_load_guest_msrs (w, q) = (v2, r1)" and v1: "v1 = v2\<lparr>scheded := False\<rparr>"
      using e True x by (auto simp: enter_switch_def split: prod.splits)
    show ?thesis using enter_all [OF inv _ _ l] w by (simp add: v1 msr_view_def)
  next
    case False
    show ?thesis
    proof (cases "fast_exit lx")
      case True
      have ok: "msr_table_ok v" by (rule msr_invD(1) [OF inv])
      have s: "MSR_EFER \<in> set vmx_shared_msrs" "MSR_KERNEL_GS_BASE \<in> set vmx_shared_msrs" by (simp_all add: vmx_shared_msrs_def)
      have v1: "v1 = v" "r1 = load_guest_msr v MSR_KERNEL_GS_BASE (load_guest_msr v MSR_EFER r)"
        using e True False by (auto simp: enter_switch_def)
      have "hw_msrs r1 m = gval v m" if m: "m \<in> set vmx_shared_msrs" "msr_present v m" for m
        using msr_invD(4,5) [OF inv m] msr_invD(7) [OF inv m True False] m
        unfolding v1(2) load_guest_msr_eq [OF ok s(1)] load_guest_msr_eq [OF ok s(2)] by (auto simp: wrmsrl_def)
      then show ?thesis using msr_invD(3) [OF inv True False] False by (simp add: v1(1) msr_view_def)
    next
      case nf: False
      obtain w' q' where l: "vmx_load_guest_msrs (w', q') = (v1, r1)" "msr_view w' = msr_view v" "hw_msrs q' = hw_msrs r"
        using e False nf x w by (auto simp: enter_switch_def split: if_splits)
      show ?thesis using enter_all [OF inv l(2,3,1)] False by simp
    qed
  qed
  then show "msr_view v1 = (guest_msrs v, host_msrs v, msr_index v, save_nmsrs v, True, False)" by blast
  show "m \<in> set vmx_shared_msrs \<Longrightarrow> msr_present v m \<Longrightarrow> hw_msrs r1 m = gval v m" using all by blast
qed

text \<open>Leaving: the invariant holds again.\<close>

lemma exit_result:
  assumes ok: "msr_table_ok v2" and fl: "guest_msrs_loaded v2" "\<not> scheded v2"
    and reg: "\<And>m. m \<in> set vmx_shared_msrs \<Longrightarrow> msr_present v2 m \<Longrightarrow> hval v2 m = host m \<and> (m \<noteq> MSR_KERNEL_GS_BASE \<longrightarrow> hw_msrs r2 m = gval v2 m)"
    and e: "exit_switch reason (v2, r2) = (v3, r3)"
  shows "msr_inv (host, reason, v3, r3)"
proof -
  have s: "MSR_EFER \<in> set vmx_shared_msrs" "MSR_KERNEL_GS_BASE \<in> set vmx_shared_msrs" by (simp_all add: vmx_shared_msrs_def)
  define u where "u = save_guest_msr r2 MSR_KERNEL_GS_BASE v2"
  have u: "u = (if msr_present v2 MSR_KERNEL_GS_BASE
      then set_guest (nat (get_msr_index v2 MSR_KERNEL_GS_BASE)) (hw_msrs r2 MSR_KERNEL_GS_BASE) v2 else v2)"
    unfolding u_def by (rule save_guest_msr_eq [OF ok s(2)])
  have uok: "msr_table_ok u" and ufl: "guest_msrs_loaded u" "\<not> scheded u"
    using ok fl set_guest_shared(3) by (auto simp: u set_guest_def)
  have A: "msr_present v2 m \<and> hval u m = host m \<and> hw_msrs r2 m = gval u m" if m: "m \<in> set vmx_shared_msrs" "msr_present u m" for m
  proof -
    have p: "msr_present v2 m" using m set_guest_shared(1) [OF m(1)] by (auto simp: u split: if_splits)
    show ?thesis
    proof (cases "m = MSR_KERNEL_GS_BASE")
      case True
      then show ?thesis using p reg [OF m(1) p] set_guest_shared(4) [OF ok m(1) p] set_guest_shared(2) [OF m(1)] by (simp add: u)
    next
      case False
      then show ?thesis
        using p reg [OF m(1) p] set_guest_shared(2) [OF m(1)] set_guest_shared(4) [OF ok m(1) p]
          msr_positions_differ [OF ok m(1) p s(2)] by (auto simp: u)
    qed
  qed
  show ?thesis
  proof (cases "fast_exit reason")
    case True
    have v3: "v3 = u\<lparr>vflags := vmcs_readl u GUEST_RFLAGS\<rparr>"
      "r3 = load_host_msr u MSR_KERNEL_GS_BASE (load_host_msr u MSR_EFER r2)"
      using e True by (auto simp: exit_switch_def Let_def u_def)
    have w: "msr_view v3 = msr_view u" by (simp add: v3(1) msr_view_def)
    note vw = view_shared [OF w]
    have "hval v3 m = host m \<and> (hw_msrs r3 m = host m \<or> hw_msrs r3 m = gval v3 m)
        \<and> (m \<noteq> MSR_EFER \<and> m \<noteq> MSR_KERNEL_GS_BASE \<longrightarrow> hw_msrs r3 m = gval v3 m)"
      if m: "m \<in> set vmx_shared_msrs" "msr_present v3 m" for m
      using A [OF m(1)] m vw(2-4) [OF m(1)]
      unfolding v3(2) load_host_msr_eq [OF uok s(1)] load_host_msr_eq [OF uok s(2)] by (auto simp: wrmsrl_def)
    then show ?thesis using True w ufl uok vw(5) by (auto simp: msr_inv_def msr_view_def)
  next
    case False
    have l: "vmx_load_host_msrs (u, r2) = (v3, r3)" using e False by (simp add: exit_switch_def Let_def u_def)
    note res = load_host_msrs_result [OF uok l]
    have sh: "get_msr_index v3 m = get_msr_index u m" if "m \<in> set vmx_shared_msrs" for m
      by (rule get_shared_index [OF that]) (simp add: res(1))
    have pr: "msr_present v3 m = msr_present u m" "gval v3 m = gval u m" "hval v3 m = hval u m" if "m \<in> set vmx_shared_msrs" for m
      using sh [OF that] by (simp_all add: msr_present_def gval_def hval_def res(1))
    have "msr_table_ok v3" using uok sh by (simp add: msr_table_ok_def msr_present_def res(1))
    moreover have "hval v3 m = host m \<and> hw_msrs r3 m = host m" if m: "m \<in> set vmx_shared_msrs" "msr_present v3 m" for m
      using A [OF m(1)] m res(2) [of m] pr [OF m(1)] ufl(1) by auto
    ultimately show ?thesis using False by (simp add: msr_inv_def res(1))
  qed
qed

lemma msr_session_inv: "msr_session xs hx st \<Longrightarrow> msr_inv st"
proof (induction rule: msr_session.induct)
  case (ms_load v r)
  then show ?case by (rule msr_inv_fresh)
next
  case (ms_run host lx v r v1 r1 v2 r2 x reason v3 r3)
  note inv = ms_run.IH
  note en = enter_result [OF inv ms_run(2)]
  have w: "msr_view v2 = msr_view (v\<lparr>guest_msrs_loaded := True, scheded := False\<rparr>)"
    using en(1) ms_run(3) by (simp add: msr_view_def)
  note vw = view_shared [OF w]
  let ?w = "v\<lparr>guest_msrs_loaded := True, scheded := False\<rparr>"
  have i: "get_msr_index ?w m = get_msr_index v m" if "m \<in> set vmx_shared_msrs" for m
    by (rule get_shared_index [OF that]) simp
  have pr: "msr_present v2 m = msr_present v m" "gval v2 m = gval v m" "hval v2 m = hval v m" if "m \<in> set vmx_shared_msrs" for m
    using vw(2-4) [OF that] i [OF that] by (simp_all add: msr_present_def gval_def hval_def)
  have ok: "msr_table_ok v2" using vw(5) msr_invD(1) [OF inv] i by (simp add: msr_table_ok_def msr_present_def)
  show ?case
  proof (rule exit_result [OF ok _ _ _ ms_run(5)])
    show "guest_msrs_loaded v2" "\<not> scheded v2" using w by (simp_all add: msr_view_def)
    show "hval v2 m = host m \<and> (m \<noteq> MSR_KERNEL_GS_BASE \<longrightarrow> hw_msrs r2 m = gval v2 m)"
      if m: "m \<in> set vmx_shared_msrs" "msr_present v2 m" for m
      using en(2) [OF m(1)] m pr [OF m(1)] msr_invD(4) [OF inv m(1)] ms_run(4) by simp
  qed
next
  case (ms_other host lx v r v' r')
  note vw = view_shared [OF ms_other(2)]
  have "guest_msrs_loaded v' = guest_msrs_loaded v" "scheded v' = scheded v" using ms_other(2) by (simp_all add: msr_view_def)
  then show ?case using ms_other.IH ms_other(3) vw by (simp add: msr_inv_def)
next
  case (ms_write host v r i x)
  have nf: "\<not> fast_exit EXIT_REASON_MSR_WRITE" by (simp add: fast_exit_def)
  have "guest_msrs_loaded (set_guest i x v) = guest_msrs_loaded v" by (simp add: set_guest_def)
  then show ?case
    using ms_write.IH msr_invD(2) [OF ms_write.IH nf] set_guest_shared(1-3) [where i = i and x = x and v = v] nf
    by (auto simp: msr_inv_def)
next
  case (ms_sched host lx v r v1 r1 r2)
  note inv = ms_sched.IH
  have v1: "v1 = v\<lparr>guest_msrs_loaded := False\<rparr>" by (rule load_host_msrs_result(1) [OF msr_invD(1) [OF inv] ms_sched(2)])
  have i: "get_msr_index v1 m = get_msr_index v m" if "m \<in> set vmx_shared_msrs" for m
    by (rule get_shared_index [OF that]) (simp add: v1)
  have "msr_table_ok v1" using msr_invD(1) [OF inv] i by (simp add: msr_table_ok_def msr_present_def v1)
  then show ?case by (rule msr_inv_fresh) (simp add: v1)
qed

text \<open>A vcpu that knows one register, and a CPU on which the host has 5 in it.\<close>

definition msr_example :: vmx_vcpu where
  "msr_example = vmx_vcpu_zero\<lparr>save_nmsrs := 1, nmsrs := 1,
     guest_msrs := [\<lparr>msr_idx = MSR_LSTAR, msr_reserved = 0, msr_data = 9\<rparr>],
     host_msrs := [\<lparr>msr_idx = MSR_LSTAR, msr_reserved = 0, msr_data = 0\<rparr>],
     msr_index := \<lparr>mi_sys_call_mask = - 1, mi_kernel_gs_base = - 1, mi_feature_enable = - 1, mi_lstar = 0, mi_efer = - 1, mi_star = - 1\<rparr>\<rparr>"

definition cpu_regs_example :: cpu_regs where
  "cpu_regs_example = \<lparr>hw_msrs = (\<lambda>_. 5), hw_xcr0 = 7, hw_cr3 = 0x1000, hw_cr4 = 0x20, hw_ldt = 0, hw_fs = 0x2b, hw_gs = 0\<rparr>"

lemma selector_cast: "ucast (ucast (x :: u16) :: u64) = x"
  by (rule bit_word_eqI) (auto simp: bit_simps)

section \<open>The processor's part of an exit\<close>

text \<open>An exit loads the control registers and selectors from the host area of the VMCS and an empty LDT.\<close>

definition vm_exit_regs :: "vmx_vcpu \<Rightarrow> cpu_regs \<Rightarrow> cpu_regs" where
  "vm_exit_regs v r = r\<lparr>hw_cr3 := vmcs_readl v HOST_CR3, hw_cr4 := vmcs_readl v HOST_CR4, hw_ldt := 0,
     hw_fs := vmcs_read16 v HOST_FS_SELECTOR, hw_gs := vmcs_read16 v HOST_GS_SELECTOR\<rparr>"

text \<open>The copies of CR3 and CR4 in the vcpu are what the VMCS holds, as far as the CPU can tell.\<close>

definition host_cached :: "cpu_regs \<Rightarrow> vmx_vcpu \<Rightarrow> bool" where
  "host_cached r v \<longleftrightarrow> (hs_cr3 (host_state v) = hw_cr3 r \<longrightarrow> vmcs_readl v HOST_CR3 = hw_cr3 r)
     \<and> (hs_cr4 (host_state v) = hw_cr4 r \<longrightarrow> vmcs_readl v HOST_CR4 = hw_cr4 r)"

lemma save_host_fields:
  assumes "host_cached r v"
  shows "vmcs_readl (vmx_save_host_state r v) HOST_CR3 = hw_cr3 r" "vmcs_readl (vmx_save_host_state r v) HOST_CR4 = hw_cr4 r"
    "vmcs_read16 (vmx_save_host_state r v) HOST_FS_SELECTOR = (if hw_fs r AND 7 = 0 then hw_fs r else 0)"
    "vmcs_read16 (vmx_save_host_state r v) HOST_GS_SELECTOR = (if hw_gs r AND 7 = 0 then hw_gs r else 0)"
    "hs_fs_reload_needed (host_state (vmx_save_host_state r v)) \<longleftrightarrow> hw_fs r AND 7 \<noteq> 0"
    "hs_fs_sel (host_state (vmx_save_host_state r v)) = hw_fs r"
    "hs_gs_ldt_reload_needed (host_state (vmx_save_host_state r v)) \<longleftrightarrow> hw_ldt r \<noteq> 0 \<or> hw_gs r AND 7 \<noteq> 0"
    "hs_gs_sel (host_state (vmx_save_host_state r v)) = hw_gs r" "hs_ldt_sel (host_state (vmx_save_host_state r v)) = hw_ldt r"
    "hs_cr3 (host_state (vmx_save_host_state r v)) = hw_cr3 r" "hs_cr4 (host_state (vmx_save_host_state r v)) = hw_cr4 r"
  using assms by (simp_all add: vmx_save_host_state_def host_cached_def Let_def vmcs_access selector_cast)

section \<open>Properties\<close>

text \<open>C29. Host and guest keep their own MSRs.  At any point of a run, over any exits, rescheduling and
  writes: entering the guest gives every register of the tables the guest's value, and giving the
  CPU up, by being scheduled out or by leaving the run, gives it back the value the host had on
  this CPU.  The short cut, which leaves most registers alone on frequent exits, is covered.\<close>

theorem msrs_isolated:
  assumes "msr_session xs hx (host, lx, v, r)" "m \<in> set vmx_shared_msrs" "msr_present v m"
  shows "hw_msrs (snd (enter_switch xs hx lx (v, r))) m = gval v m \<and> hw_msrs (snd (vmx_load_host_msrs (v, r))) m = host m"
proof
  note inv = msr_session_inv [OF assms(1)]
  obtain v1 r1 where e: "enter_switch xs hx lx (v, r) = (v1, r1)" by fastforce
  show "hw_msrs (snd (enter_switch xs hx lx (v, r))) m = gval v m"
    using enter_result(2) [OF inv e assms(2,3)] by (simp add: e)
  obtain v2 r2 where l: "vmx_load_host_msrs (v, r) = (v2, r2)" by fastforce
  show "hw_msrs (snd (vmx_load_host_msrs (v, r))) m = host m"
    using load_host_msrs_result(2) [OF msr_invD(1) [OF inv] l, of m] msr_invD(4-6) [OF inv assms(2,3)] assms(2,3)
    by (auto simp: l)
qed

theorem msrs_isolated_witness:
  "\<exists>v r. msr_session True 7 (\<lambda>_. 5, EXIT_REASON_VMCALL, v, r) \<and> hw_msrs r MSR_LSTAR = 9
    \<and> hw_msrs (snd (vmx_load_host_msrs (v, r))) MSR_LSTAR = 5"
proof -
  let ?v = "(vmx_save_host_msrs cpu_regs_example msr_example)\<lparr>scheded := True\<rparr>"
  note d = msr_example_def cpu_regs_example_def vmx_vcpu_zero_def vmx_shared_msrs_def get_msr_index_def
  have "msr_table_ok msr_example" "\<not> guest_msrs_loaded msr_example" by (simp_all add: d msr_table_ok_def msr_present_def)
  from ms_load [OF this, of True 7 cpu_regs_example]
  have s0: "msr_session True 7 (\<lambda>_. 5, 0, ?v, cpu_regs_example)" by (simp add: cpu_regs_example_def)
  obtain v1 r1 where e: "enter_switch True 7 0 (?v, cpu_regs_example) = (v1, r1)" by fastforce
  let ?r2 = "wrmsrl MSR_KERNEL_GS_BASE 3 r1"
  obtain v3 r3 where x: "exit_switch EXIT_REASON_VMCALL (v1, ?r2) = (v3, r3)" by fastforce
  have s: "msr_session True 7 (\<lambda>_. 5, EXIT_REASON_VMCALL, v3, r3)"
    by (rule ms_run [OF s0 e refl _ x]) (simp add: wrmsrl_def)
  note f = d fast_exit_def enter_switch_def vmx_load_guest_msrs_def vmx_load_guest_xcr0_def load_guest_msr_def Let_def
    compare_msr_def wrmsrl_def vmx_save_host_msrs_def save_host_msr_def
  have v1: "msr_view v1 = ([\<lparr>msr_idx = MSR_LSTAR, msr_reserved = 0, msr_data = 9\<rparr>], [\<lparr>msr_idx = MSR_LSTAR, msr_reserved = 0, msr_data = 5\<rparr>],
      msr_index msr_example, 1, True, False)" "hw_msrs r1 MSR_LSTAR = 9"
    using e by (auto simp: f msr_view_def)
  have "msr_present v3 MSR_LSTAR" "hw_msrs r3 MSR_LSTAR = 9"
    using x v1 by (auto simp: msr_view_def exit_switch_def fast_exit_def save_guest_msr_def load_host_msr_def Let_def
        get_msr_index_def msr_example_def wrmsrl_def msr_present_def)
  moreover have "MSR_LSTAR \<in> set vmx_shared_msrs" by (simp add: vmx_shared_msrs_def)
  ultimately show ?thesis using msrs_isolated [OF s, of MSR_LSTAR] s by blast
qed

text \<open>C30. An exit gives the host its selectors and control registers back.  Whatever selectors the
  host was using, saving the host state before an entry and loading it after the exit restores
  CR3, CR4, the LDT and the FS and GS selectors, also those the processor refuses to reload itself,
  and the copies in the vcpu stay right.\<close>

theorem host_state_restored:
  assumes "host_cached r v"
  shows "let v' = vmx_save_host_state r v; r' = vmx_load_host_state v' (vm_exit_regs v' g) in
    hw_cr3 r' = hw_cr3 r \<and> hw_cr4 r' = hw_cr4 r \<and> hw_ldt r' = hw_ldt r \<and> hw_fs r' = hw_fs r \<and> hw_gs r' = hw_gs r
    \<and> host_cached r' v'"
proof -
  note f = save_host_fields [OF assms]
  have gs: "hs_gs_ldt_reload_needed (host_state (vmx_save_host_state r v)) \<or> hw_ldt r = 0 \<and> hw_gs r AND 7 = 0" using f(7) by blast
  show ?thesis
    unfolding Let_def using gs
    by (auto simp: vmx_load_host_state_def vm_exit_regs_def host_cached_def Let_def f)
qed

theorem host_state_restored_witness:
  "let v = vmx_vcpu_zero; r = cpu_regs_example; v' = vmx_save_host_state r v; r' = vmx_load_host_state v' (vm_exit_regs v' r)
   in host_cached r v \<and> hw_fs r' = 0x2b \<and> hw_cr3 r' = 0x1000"
proof -
  have "host_cached cpu_regs_example vmx_vcpu_zero" by (simp add: host_cached_def cpu_regs_example_def vmx_vcpu_zero_def)
  with host_state_restored [OF this, of cpu_regs_example] show ?thesis
    unfolding Let_def by (simp add: cpu_regs_example_def)
qed

end
