(* ===== verification/Slim_Vmcs.thy ===== *)
theory Slim_Vmcs
  imports Slim_Vmx_State
begin

text \<open>
  Which VMCS is loaded where: \<^verbatim>\<open>vmcs_clear\<close>, \<^verbatim>\<open>vmcs_load\<close> and the per-CPU bookkeeping of \<^verbatim>\<open>vmx.c\<close>
  (\<^verbatim>\<open>__load_vcpu\<close>, \<^verbatim>\<open>vmx_get_cpu\<close>, \<^verbatim>\<open>vmx_local_vcpu\<close>).  The processor keeps a current VMCS per CPU, a set
  of CPUs on which a VMCS is active and its launch state; the architecture requires that a VMCS is
  active on one CPU only and that \<^verbatim>\<open>VMLAUNCH\<close> and \<^verbatim>\<open>VMRESUME\<close> agree with the launch state.  The
  invariant \<open>vmcs_ok\<close> says that the module keeps to this.
\<close>

section \<open>CPUs and the processor's VMCS state\<close>

text \<open>VMCSs are named by their page, vcpus by their address.\<close>

record vmcs_cpus =
  local_vcpu :: "nat \<Rightarrow> kptr option"
  current_vcpu :: "nat \<Rightarrow> kptr option"
  hw_current :: "nat \<Rightarrow> kptr option"
  hw_active :: "kptr \<Rightarrow> nat \<Rightarrow> bool"
  hw_launched :: "kptr \<Rightarrow> bool"

text \<open>What is read from the CPU a vcpu moves to.\<close>

record host_cpu =
  hc_tr_base :: "nat \<Rightarrow> u64"
  hc_gdt_addr :: "nat \<Rightarrow> u64"
  hc_sysenter_esp :: "nat \<Rightarrow> u64"

definition vmcs_clear :: "nat \<Rightarrow> kptr \<Rightarrow> vmcs_cpus \<Rightarrow> vmcs_cpus" where
  "vmcs_clear c page s = s\<lparr>hw_active := (hw_active s)(page := (hw_active s page)(c := False)),
     hw_current := (if hw_current s c = Some page then (hw_current s)(c := None) else hw_current s),
     hw_launched := (hw_launched s)(page := False)\<rparr>"

definition vmcs_load :: "nat \<Rightarrow> kptr \<Rightarrow> vmcs_cpus \<Rightarrow> vmcs_cpus" where
  "vmcs_load c page s = s\<lparr>hw_active := (hw_active s)(page := (hw_active s page)(c := True)),
     hw_current := (hw_current s)(c := Some page)\<rparr>"

text \<open>Runs on the CPU the vcpu was on.\<close>

definition vmx_get_cpu_helper :: "vmx_vcpu \<Rightarrow> vmcs_cpus \<Rightarrow> vmcs_cpus" where
  "vmx_get_cpu_helper vcpu s =
     (let c = nat (cpu vcpu); s1 = vmcs_clear c (vmcs_page vcpu) s
      in if local_vcpu s1 c = Some (self vcpu) then s1\<lparr>local_vcpu := (local_vcpu s1)(c := None)\<rparr> else s1)"

definition do_load_vcpu :: "host_cpu \<Rightarrow> nat \<Rightarrow> vmx_vcpu \<times> vmcs_cpus \<Rightarrow> vmx_vcpu \<times> vmcs_cpus" where
  "do_load_vcpu hc c = (\<lambda>(vcpu, s).
     if local_vcpu s c \<noteq> Some (self vcpu) then
       (let s1 = s\<lparr>local_vcpu := (local_vcpu s)(c := Some (self vcpu))\<rparr> in
        if cpu vcpu \<noteq> int c then
          (let s2 = (if 0 \<le> cpu vcpu then vmx_get_cpu_helper vcpu s1 else s1);
               vcpu1 = vmx_make_request SLIMVM_REQ_TLB_FLUSH vcpu;
               vcpu2 = vcpu1\<lparr>launched := False\<rparr>;
               s3 = vmcs_load c (vmcs_page vcpu) s2;
               vcpu3 = vmcs_writel HOST_TR_BASE (hc_tr_base hc c) vcpu2;
               vcpu4 = vmcs_writel HOST_GDTR_BASE (hc_gdt_addr hc c) vcpu3;
               vcpu5 = vmcs_writel HOST_IA32_SYSENTER_ESP (hc_sysenter_esp hc c) vcpu4
           in (vcpu5\<lparr>cpu := int c\<rparr>, s3))
        else (vcpu, vmcs_load c (vmcs_page vcpu) s1))
     else (vcpu, s))"

definition vmx_get_cpu :: "host_cpu \<Rightarrow> nat \<Rightarrow> vmx_vcpu \<times> vmcs_cpus \<Rightarrow> vmx_vcpu \<times> vmcs_cpus" where
  "vmx_get_cpu hc c = do_load_vcpu hc c"

text \<open>The part of \<^verbatim>\<open>vmx_destroy_vcpu\<close> that concerns the VMCS.\<close>

definition unload_vcpu :: "host_cpu \<Rightarrow> nat \<Rightarrow> vmx_vcpu \<Rightarrow> vmcs_cpus \<Rightarrow> vmcs_cpus" where
  "unload_vcpu hc c vcpu s =
     (let (vcpu1, s1) = vmx_get_cpu hc c (vcpu, s); s2 = vmcs_clear c (vmcs_page vcpu1) s1
      in s2\<lparr>local_vcpu := (local_vcpu s2)(c := None)\<rparr>)"

section \<open>Loading\<close>

lemma load_same [simp]:
  "self (fst (do_load_vcpu hc c (v, s))) = self v" "vmcs_page (fst (do_load_vcpu hc c (v, s))) = vmcs_page v"
  by (simp_all add: do_load_vcpu_def Let_def vmcs_access vmx_make_request_def)

text \<open>What loading does when the vcpu is already on the CPU, and when it comes from another one.\<close>

lemma load_here:
  assumes "cpu v = int c"
  shows "do_load_vcpu hc c (v, s) =
    (v, if local_vcpu s c = Some (self v) then s
        else vmcs_load c (vmcs_page v) (s\<lparr>local_vcpu := (local_vcpu s)(c := Some (self v))\<rparr>))"
  using assms by (simp add: do_load_vcpu_def Let_def)

lemma load_moves:
  assumes "cpu v \<noteq> int c" "local_vcpu s c \<noteq> Some (self v)"
  shows "cpu (fst (do_load_vcpu hc c (v, s))) = int c \<and> \<not> launched (fst (do_load_vcpu hc c (v, s)))"
    "requests (fst (do_load_vcpu hc c (v, s))) SLIMVM_REQ_TLB_FLUSH"
    "local_vcpu (snd (do_load_vcpu hc c (v, s))) =
      (\<lambda>d. if d = c then Some (self v)
           else if 0 \<le> cpu v \<and> d = nat (cpu v) \<and> local_vcpu s d = Some (self v) then None else local_vcpu s d)"
    "hw_current (snd (do_load_vcpu hc c (v, s))) =
      (\<lambda>d. if d = c then Some (vmcs_page v)
           else if 0 \<le> cpu v \<and> d = nat (cpu v) \<and> hw_current s d = Some (vmcs_page v) then None else hw_current s d)"
    "hw_active (snd (do_load_vcpu hc c (v, s))) =
      (\<lambda>q d. if q = vmcs_page v then d = c \<or> hw_active s q d \<and> \<not> (0 \<le> cpu v \<and> d = nat (cpu v)) else hw_active s q d)"
    "hw_launched (snd (do_load_vcpu hc c (v, s))) =
      (\<lambda>q. if 0 \<le> cpu v \<and> q = vmcs_page v then False else hw_launched s q)"
proof -
  have d: "0 \<le> cpu v \<Longrightarrow> nat (cpu v) \<noteq> c" using assms(1) by auto
  show "cpu (fst (do_load_vcpu hc c (v, s))) = int c \<and> \<not> launched (fst (do_load_vcpu hc c (v, s)))"
    "requests (fst (do_load_vcpu hc c (v, s))) SLIMVM_REQ_TLB_FLUSH"
    using assms by (simp_all add: do_load_vcpu_def Let_def vmcs_access vmx_make_request_def bitmap_set_def)
  show "local_vcpu (snd (do_load_vcpu hc c (v, s))) =
      (\<lambda>d. if d = c then Some (self v)
           else if 0 \<le> cpu v \<and> d = nat (cpu v) \<and> local_vcpu s d = Some (self v) then None else local_vcpu s d)"
    "hw_current (snd (do_load_vcpu hc c (v, s))) =
      (\<lambda>d. if d = c then Some (vmcs_page v)
           else if 0 \<le> cpu v \<and> d = nat (cpu v) \<and> hw_current s d = Some (vmcs_page v) then None else hw_current s d)"
    "hw_active (snd (do_load_vcpu hc c (v, s))) =
      (\<lambda>q d. if q = vmcs_page v then d = c \<or> hw_active s q d \<and> \<not> (0 \<le> cpu v \<and> d = nat (cpu v)) else hw_active s q d)"
    "hw_launched (snd (do_load_vcpu hc c (v, s))) =
      (\<lambda>q. if 0 \<le> cpu v \<and> q = vmcs_page v then False else hw_launched s q)"
    using assms d
    by (auto simp: do_load_vcpu_def Let_def vmcs_load_def vmcs_clear_def vmx_get_cpu_helper_def fun_eq_iff)
qed

section \<open>The invariant\<close>

text \<open>\<open>vs\<close> are the vcpus that exist, by address.\<close>

type_synonym vcpu_heap = "kptr \<Rightarrow> vmx_vcpu option"

definition vmcs_ok :: "vcpu_heap \<Rightarrow> vmcs_cpus \<Rightarrow> bool" where
  "vmcs_ok vs s \<longleftrightarrow>
     (\<forall>p v. vs p = Some v \<longrightarrow> self v = p \<and> (launched v \<longleftrightarrow> hw_launched s (vmcs_page v))
          \<and> (launched v \<longrightarrow> 0 \<le> cpu v))
     \<and> (\<forall>p q v w. vs p = Some v \<longrightarrow> vs q = Some w \<longrightarrow> vmcs_page v = vmcs_page w \<longrightarrow> p = q)
     \<and> (\<forall>c p. local_vcpu s c = Some p \<longrightarrow>
          (\<exists>v. vs p = Some v \<and> cpu v = int c \<and> hw_current s c = Some (vmcs_page v)))
     \<and> (\<forall>page c. hw_active s page c \<longrightarrow> (\<exists>p v. vs p = Some v \<and> vmcs_page v = page \<and> cpu v = int c))
     \<and> (\<forall>c page. hw_current s c = Some page \<longrightarrow> hw_active s page c)"

lemma vmcs_okD:
  assumes "vmcs_ok vs s"
  shows "vs p = Some v \<Longrightarrow> self v = p" "vs p = Some v \<Longrightarrow> launched v = hw_launched s (vmcs_page v)"
    "vs p = Some v \<Longrightarrow> vs q = Some w \<Longrightarrow> vmcs_page v = vmcs_page w \<Longrightarrow> p = q"
    "local_vcpu s c = Some p \<Longrightarrow> \<exists>v. vs p = Some v \<and> cpu v = int c \<and> hw_current s c = Some (vmcs_page v)"
    "hw_active s page c \<Longrightarrow> \<exists>p v. vs p = Some v \<and> vmcs_page v = page \<and> cpu v = int c"
    "hw_current s c = Some page \<Longrightarrow> hw_active s page c"
    "vs p = Some v \<Longrightarrow> launched v \<Longrightarrow> 0 \<le> cpu v"
  using assms unfolding vmcs_ok_def by blast+

lemma vmcs_active_cpu:
  assumes "vmcs_ok vs s" "vs p = Some v" "hw_active s (vmcs_page v) c"
  shows "cpu v = int c"
  using vmcs_okD(5) [OF assms(1,3)] vmcs_okD(3) [OF assms(1,2)] assms(2) by fastforce

lemma vmcs_local_cpu:
  assumes "vmcs_ok vs s" "vs p = Some v" "local_vcpu s c = Some p"
  shows "cpu v = int c" "hw_current s c = Some (vmcs_page v)"
  using vmcs_okD(4) [OF assms(1,3)] assms(2) by auto

lemma vmcs_okI:
  assumes "\<And>p v. vs p = Some v \<Longrightarrow> self v = p \<and> (launched v \<longleftrightarrow> hw_launched s (vmcs_page v)) \<and> (launched v \<longrightarrow> 0 \<le> cpu v)"
    "\<And>p q v w. vs p = Some v \<Longrightarrow> vs q = Some w \<Longrightarrow> vmcs_page v = vmcs_page w \<Longrightarrow> p = q"
    "\<And>c p. local_vcpu s c = Some p \<Longrightarrow> \<exists>v. vs p = Some v \<and> cpu v = int c \<and> hw_current s c = Some (vmcs_page v)"
    "\<And>page c. hw_active s page c \<Longrightarrow> \<exists>p v. vs p = Some v \<and> vmcs_page v = page \<and> cpu v = int c"
    "\<And>c page. hw_current s c = Some page \<Longrightarrow> hw_active s page c"
  shows "vmcs_ok vs s"
  using assms unfolding vmcs_ok_def by blast

text \<open>Loading an existing vcpu on any CPU keeps the invariant and makes its VMCS current there.\<close>

lemma vmcs_ok_load:
  assumes ok: "vmcs_ok vs s" and p: "vs p = Some v" and l: "do_load_vcpu hc c (v, s) = (v', s')"
  shows "vmcs_ok (vs(p \<mapsto> v')) s' \<and> local_vcpu s' c = Some p \<and> hw_current s' c = Some (vmcs_page v) \<and> cpu v' = int c"
proof -
  have sp: "self v = p" using vmcs_okD(1) [OF ok p] .
  have other: "vmcs_page w \<noteq> vmcs_page v" if "vs q = Some w" "q \<noteq> p" for q w
    using vmcs_okD(3) [OF ok that(1) p] that(2) by blast
  show ?thesis
  proof (cases "cpu v = int c")
    case True
    note e = load_here [OF True, of hc s, unfolded l prod.inject]
    show ?thesis
    proof (cases "local_vcpu s c = Some p")
      case True
      with e ok p sp vmcs_local_cpu [OF ok p True] show ?thesis by (simp add: fun_upd_idem)
    next
      case False
      have s': "s' = vmcs_load c (vmcs_page v) (s\<lparr>local_vcpu := (local_vcpu s)(c \<mapsto> p)\<rparr>)" "v' = v"
        using e False sp by simp_all
      have "vmcs_ok vs s'"
      proof (rule vmcs_okI)
        show "\<exists>v. vs q = Some v \<and> cpu v = int d \<and> hw_current s' d = Some (vmcs_page v)" if "local_vcpu s' d = Some q" for d q
          using that vmcs_okD(4) [OF ok, of d q] p \<open>cpu v = int c\<close> by (auto simp: s'(1) vmcs_load_def split: if_splits)
        show "\<exists>q w. vs q = Some w \<and> vmcs_page w = page \<and> cpu w = int d" if "hw_active s' page d" for page d
          using that vmcs_okD(5) [OF ok, of page d] p \<open>cpu v = int c\<close> by (auto simp: s'(1) vmcs_load_def split: if_splits)
      qed (use vmcs_okD [OF ok] in \<open>auto simp: s'(1) vmcs_load_def split: if_splits\<close>)
      then show ?thesis using p \<open>cpu v = int c\<close> by (simp add: s' vmcs_load_def fun_upd_idem)
    qed
  next
    case False
    then have nl: "local_vcpu s c \<noteq> Some (self v)" using vmcs_local_cpu(1) [OF ok p] sp by auto
    note m = load_moves [OF False nl, of hc, unfolded l fst_conv snd_conv sp]
    have v': "cpu v' = int c" "\<not> launched v'" using m(1) by blast+
    have same: "self v' = p" "vmcs_page v' = vmcs_page v" using load_same [of hc c v s] l sp by simp_all
    have act: "hw_active s' (vmcs_page v) d \<longleftrightarrow> d = c" for d
      using vmcs_active_cpu [OF ok p, of d] by (auto simp: m(5))
    have "\<not> hw_launched s' (vmcs_page v)"
      using vmcs_okD(2,7) [OF ok p] by (auto simp: m(6))
    moreover have "hw_launched s' (vmcs_page w) = hw_launched s (vmcs_page w)" if "vs q = Some w" "q \<noteq> p" for q w
      using other [OF that] by (simp add: m(6))
    moreover have "\<exists>w. (vs(p \<mapsto> v')) q = Some w \<and> cpu w = int d \<and> hw_current s' d = Some (vmcs_page w)"
      if lo: "local_vcpu s' d = Some q" for d q
    proof (cases "d = c")
      case True
      then show ?thesis using lo v' same by (simp add: m)
    next
      case False
      then have old: "local_vcpu s d = Some q" "\<not> (0 \<le> cpu v \<and> d = nat (cpu v) \<and> q = p)"
        using lo by (auto simp: m(3) split: if_splits)
      from vmcs_okD(4) [OF ok old(1)] obtain w where w: "vs q = Some w" "cpu w = int d" "hw_current s d = Some (vmcs_page w)" by blast
      have "q \<noteq> p" using old(2) w(1,2) p by auto
      then show ?thesis using w other [OF w(1)] False by (simp add: m(4))
    qed
    moreover have "\<exists>q w. (vs(p \<mapsto> v')) q = Some w \<and> vmcs_page w = page \<and> cpu w = int d" if a: "hw_active s' page d" for page d
    proof (cases "page = vmcs_page v")
      case True
      then show ?thesis using a act v' same by (intro exI [of _ p] exI [of _ v']) simp
    next
      case False
      with a vmcs_okD(5) [OF ok, of page d] obtain q w where "vs q = Some w" "vmcs_page w = page" "cpu w = int d" by (auto simp: m(5))
      then show ?thesis using False p by (intro exI [of _ q] exI [of _ w]) auto
    qed
    moreover have "hw_active s' page d" if cur: "hw_current s' d = Some page" for d page
    proof (cases "d = c")
      case True
      then show ?thesis using cur act [of c] by (simp add: m(4))
    next
      case False
      then have h: "hw_current s d = Some page" "0 \<le> cpu v \<and> d = nat (cpu v) \<longrightarrow> page \<noteq> vmcs_page v"
        using cur by (auto simp: m(4) split: if_splits)
      have a: "hw_active s page d" by (rule vmcs_okD(6) [OF ok h(1)])
      have "page \<noteq> vmcs_page v" using vmcs_active_cpu [OF ok p, of d] a h(2) by fastforce
      then show ?thesis using a by (simp add: m(5))
    qed
    ultimately have "vmcs_ok (vs(p \<mapsto> v')) s'"
      using vmcs_okD(1,2,3,7) [OF ok] other same v' by (intro vmcs_okI) (auto split: if_splits)
    then show ?thesis using v' by (simp add: m(3,4))
  qed
qed

text \<open>A vcpu whose VMCS was never loaded joins.\<close>

lemma vmcs_ok_add:
  assumes ok: "vmcs_ok vs s" and p: "vs p = None" "self v = p" "\<not> launched v"
    and page: "\<And>q w. vs q = Some w \<Longrightarrow> vmcs_page w \<noteq> vmcs_page v" "\<not> hw_launched s (vmcs_page v)"
  shows "vmcs_ok (vs(p \<mapsto> v)) s"
proof (rule vmcs_okI)
  show "\<exists>w. (vs(p \<mapsto> v)) q = Some w \<and> cpu w = int d \<and> hw_current s d = Some (vmcs_page w)" if "local_vcpu s d = Some q" for d q
    using vmcs_okD(4) [OF ok that] p(1) by auto
  show "\<exists>q w. (vs(p \<mapsto> v)) q = Some w \<and> vmcs_page w = page' \<and> cpu w = int d" if a: "hw_active s page' d" for page' d
  proof -
    from vmcs_okD(5) [OF ok a] obtain q w where "vs q = Some w" "vmcs_page w = page'" "cpu w = int d" by blast
    then show ?thesis using p(1) by (intro exI [of _ q] exI [of _ w]) auto
  qed
qed (use vmcs_okD(1,2,3,6,7) [OF ok] p page(2) in \<open>auto split: if_splits dest: page(1)\<close>)

lemma vmcs_ok_unload:
  assumes ok: "vmcs_ok vs s" and p: "vs p = Some v"
  shows "vmcs_ok (vs(p := None)) (unload_vcpu hc c v s)" "\<not> hw_launched (unload_vcpu hc c v s) (vmcs_page v)"
proof -
  obtain v' s' where l: "do_load_vcpu hc c (v, s) = (v', s')" by fastforce
  from vmcs_ok_load [OF ok p l] have ok': "vmcs_ok (vs(p \<mapsto> v')) s'" and c: "cpu v' = int c" by blast+
  have v': "vmcs_page v' = vmcs_page v" using load_same [of hc c v s] l by simp
  have u: "unload_vcpu hc c v s = (vmcs_clear c (vmcs_page v') s')\<lparr>local_vcpu := (local_vcpu s')(c := None)\<rparr>"
    by (simp add: unload_vcpu_def vmx_get_cpu_def l vmcs_clear_def)
  have pv: "(vs(p \<mapsto> v')) p = Some v'" by simp
  have other: "vmcs_page w \<noteq> vmcs_page v'" if "vs q = Some w" "q \<noteq> p" for q w
    using vmcs_okD(3) [OF ok' _ pv, of q w] that by auto
  show "vmcs_ok (vs(p := None)) (unload_vcpu hc c v s)"
  proof (rule vmcs_okI)
    fix d q assume "local_vcpu (unload_vcpu hc c v s) d = Some q"
    then have d: "d \<noteq> c" "local_vcpu s' d = Some q" by (auto simp: u split: if_splits)
    from vmcs_okD(4) [OF ok' d(2)] obtain w where
      w: "(vs(p \<mapsto> v')) q = Some w" "cpu w = int d" "hw_current s' d = Some (vmcs_page w)" by blast
    have "q \<noteq> p" using w(1,2) c d(1) by auto
    then show "\<exists>w. (vs(p := None)) q = Some w \<and> cpu w = int d
        \<and> hw_current (unload_vcpu hc c v s) d = Some (vmcs_page w)"
      using w d(1) by (simp add: u vmcs_clear_def)
  next
    fix page d assume "hw_active (unload_vcpu hc c v s) page d"
    then have a: "hw_active s' page d" "\<not> (page = vmcs_page v' \<and> d = c)" by (auto simp: u vmcs_clear_def split: if_splits)
    from vmcs_okD(5) [OF ok' a(1)] obtain q w where w: "(vs(p \<mapsto> v')) q = Some w" "vmcs_page w = page" "cpu w = int d" by blast
    have "q \<noteq> p" using w a(2) c by auto
    then show "\<exists>q w. (vs(p := None)) q = Some w \<and> vmcs_page w = page \<and> cpu w = int d"
      using w by (intro exI [of _ q] exI [of _ w]) simp
  next
    fix d page assume "hw_current (unload_vcpu hc c v s) d = Some page"
    then have "hw_current s' d = Some page" "\<not> (d = c \<and> page = vmcs_page v')" by (auto simp: u vmcs_clear_def split: if_splits)
    then show "hw_active (unload_vcpu hc c v s) page d"
      using vmcs_okD(6) [OF ok', of d page] by (auto simp: u vmcs_clear_def)
  next
    fix q w assume q: "(vs(p := None)) q = Some w"
    then have w: "vs q = Some w" "q \<noteq> p" by (auto split: if_splits)
    then have w': "(vs(p \<mapsto> v')) q = Some w" by simp
    show "self w = q \<and> (launched w \<longleftrightarrow> hw_launched (unload_vcpu hc c v s) (vmcs_page w)) \<and> (launched w \<longrightarrow> 0 \<le> cpu w)"
      using vmcs_okD(1,2,7) [OF ok' w'] other [OF w] by (simp add: u vmcs_clear_def)
  qed (use vmcs_okD(3) [OF ok] in \<open>auto split: if_splits\<close>)
  show "\<not> hw_launched (unload_vcpu hc c v s) (vmcs_page v)" by (simp add: u v' vmcs_clear_def)
qed

section \<open>Entering the guest\<close>

text \<open>
  The choice between \<^verbatim>\<open>VMLAUNCH\<close> and \<^verbatim>\<open>VMRESUME\<close> in \<^verbatim>\<open>vmx_run_vcpu\<close>, and what the processor does: it uses the
  current VMCS and refuses the instruction that does not fit its launch state (\<open>None\<close>).
\<close>

definition vm_entry :: "nat \<Rightarrow> vmx_vcpu \<Rightarrow> vmcs_cpus \<Rightarrow> (vmx_vcpu \<times> vmcs_cpus) option" where
  "vm_entry c vcpu s =
     (case hw_current s c of
        None \<Rightarrow> None
      | Some page \<Rightarrow>
          if page = vmcs_page vcpu \<and> (launched vcpu \<longleftrightarrow> hw_launched s page)
          then Some (vcpu\<lparr>launched := True\<rparr>, s\<lparr>hw_launched := (hw_launched s)(page := True)\<rparr>)
          else None)"

lemma vm_entry_ok:
  assumes ok: "vmcs_ok vs s" and p: "vs p = Some v" and l: "local_vcpu s c = Some p"
  shows "vm_entry c v s = Some (v\<lparr>launched := True\<rparr>, s\<lparr>hw_launched := (hw_launched s)(vmcs_page v := True)\<rparr>)"
    "vmcs_ok (vs(p \<mapsto> v\<lparr>launched := True\<rparr>)) (s\<lparr>hw_launched := (hw_launched s)(vmcs_page v := True)\<rparr>)"
proof -
  note lc = vmcs_local_cpu [OF ok p l]
  show "vm_entry c v s = Some (v\<lparr>launched := True\<rparr>, s\<lparr>hw_launched := (hw_launched s)(vmcs_page v := True)\<rparr>)"
    using lc vmcs_okD(2) [OF ok p] by (simp add: vm_entry_def)
  have other: "vmcs_page w \<noteq> vmcs_page v" if "vs q = Some w" "q \<noteq> p" for q w
    using vmcs_okD(3) [OF ok that(1) p] that(2) by blast
  let ?s = "s\<lparr>hw_launched := (hw_launched s)(vmcs_page v := True)\<rparr>" and ?v = "v\<lparr>launched := True\<rparr>"
  show "vmcs_ok (vs(p \<mapsto> ?v)) ?s"
  proof (rule vmcs_okI)
    show "\<exists>w. (vs(p \<mapsto> ?v)) q = Some w \<and> cpu w = int d \<and> hw_current ?s d = Some (vmcs_page w)"
      if "local_vcpu ?s d = Some q" for d q
      using vmcs_okD(4) [OF ok, of d q] that p by auto
    show "\<exists>q w. (vs(p \<mapsto> ?v)) q = Some w \<and> vmcs_page w = page \<and> cpu w = int d" if "hw_active ?s page d" for page d
    proof -
      from vmcs_okD(5) [OF ok, of page d] that obtain q w where "vs q = Some w" "vmcs_page w = page" "cpu w = int d" by auto
      then show ?thesis using p by (cases "q = p") (auto intro: exI [of _ p] exI [of _ q])
    qed
  qed (use vmcs_okD [OF ok] other p lc in \<open>auto split: if_splits\<close>)
qed

section \<open>Everything that happens to VMCSs\<close>

text \<open>
  A vcpu is created on some CPU, with an address and a VMCS page not in use (its processor state is
  clear) and succeeds; a thread uses a vcpu on the CPU it runs on, which may be any; it enters the
  guest; an NMI arrives in the guest (\<^verbatim>\<open>vmx_handle_nmi\<close> resets \<^verbatim>\<open>vmx_local_vcpu\<close>); a vcpu is destroyed on
  some CPU.  Using a vcpu may change its other fields.
\<close>

inductive vmcs_step :: "host_cpu \<Rightarrow> vcpu_heap \<times> vmcs_cpus \<Rightarrow> vcpu_heap \<times> vmcs_cpus \<Rightarrow> bool" for hc where
  vs_create: "\<lbrakk>vs p = None; self v = p; cpu v = - 1; \<not> launched v; \<forall>q w. vs q = Some w \<longrightarrow> vmcs_page w \<noteq> vmcs_page v;
     \<not> hw_launched s (vmcs_page v); vmx_get_cpu hc c (v, s) = (v', s')\<rbrakk> \<Longrightarrow> vmcs_step hc (vs, s) (vs(p \<mapsto> v'), s')"
| vs_use: "\<lbrakk>vs p = Some v; do_load_vcpu hc c (v, s) = (v', s'); self v'' = p; vmcs_page v'' = vmcs_page v';
     cpu v'' = cpu v'; launched v'' = launched v'\<rbrakk> \<Longrightarrow> vmcs_step hc (vs, s) (vs(p \<mapsto> v''), s')"
| vs_enter: "\<lbrakk>vs p = Some v; local_vcpu s c = Some p; vm_entry c v s = Some (v', s')\<rbrakk>
     \<Longrightarrow> vmcs_step hc (vs, s) (vs(p \<mapsto> v'), s')"
| vs_nmi: "vmcs_step hc (vs, s) (vs, s\<lparr>local_vcpu := (local_vcpu s)(c := None)\<rparr>)"
| vs_destroy: "vs p = Some v \<Longrightarrow> vmcs_step hc (vs, s) (vs(p := None), unload_vcpu hc c v s)"

lemma vmcs_ok_replace:
  assumes ok: "vmcs_ok (vs(p \<mapsto> v')) s" and s: "self w = p" "vmcs_page w = vmcs_page v'" "cpu w = cpu v'" "launched w = launched v'"
  shows "vmcs_ok (vs(p \<mapsto> w)) s"
proof -
  have m: "(vs(p \<mapsto> w)) q = Some x \<longleftrightarrow> (if q = p then x = w else (vs(p \<mapsto> v')) q = Some x)" for q x by auto
  have pv: "(vs(p \<mapsto> v')) p = Some v'" by simp
  show ?thesis
  proof (rule vmcs_okI)
    fix d q assume "local_vcpu s d = Some q"
    from vmcs_okD(4) [OF ok this] show "\<exists>x. (vs(p \<mapsto> w)) q = Some x \<and> cpu x = int d \<and> hw_current s d = Some (vmcs_page x)"
      using s by (cases "q = p") auto
  next
    fix page d assume "hw_active s page d"
    from vmcs_okD(5) [OF ok this] obtain q x where
      x: "(vs(p \<mapsto> v')) q = Some x" "vmcs_page x = page" "cpu x = int d" by blast
    then show "\<exists>q x. (vs(p \<mapsto> w)) q = Some x \<and> vmcs_page x = page \<and> cpu x = int d"
      using s by (cases "q = p") (auto intro: exI [of _ p] exI [of _ q])
  next
    fix q x assume q: "(vs(p \<mapsto> w)) q = Some x"
    show "self x = q \<and> launched x = hw_launched s (vmcs_page x) \<and> (launched x \<longrightarrow> 0 \<le> cpu x)"
    proof (cases "q = p")
      case True
      then have "x = w" using q by simp
      then show ?thesis using vmcs_okD(2,7) [OF ok pv] s True by simp
    next
      case False
      then have "(vs(p \<mapsto> v')) q = Some x" using q by simp
      from vmcs_okD(1,2,7) [OF ok this] show ?thesis by blast
    qed
  next
    fix q r x y assume q: "(vs(p \<mapsto> w)) q = Some x" "(vs(p \<mapsto> w)) r = Some y" "vmcs_page x = vmcs_page y"
    have "(vs(p \<mapsto> v')) q = Some (if q = p then v' else x)" "(vs(p \<mapsto> v')) r = Some (if r = p then v' else y)"
      using q(1,2) by (auto split: if_splits)
    from vmcs_okD(3) [OF ok this] show "q = r" using q s(2) by (simp split: if_splits)
  qed (use vmcs_okD(6) [OF ok] in auto)
qed

lemma vmcs_step_ok:
  assumes "vmcs_step hc x y" "vmcs_ok (fst x) (snd x)"
  shows "vmcs_ok (fst y) (snd y)"
  using assms
proof (induction rule: vmcs_step.induct)
  case (vs_create vs p v s c v' s')
  then have "vmcs_ok (vs(p \<mapsto> v)) s" by (intro vmcs_ok_add) auto
  from vmcs_ok_load [OF this, of p v hc c v' s'] vs_create(7) have "vmcs_ok (vs(p \<mapsto> v')) s'"
    by (simp add: vmx_get_cpu_def)
  then show ?case unfolding fst_conv snd_conv .
next
  case (vs_use vs p v c s v' s' v'')
  then have "vmcs_ok (vs(p \<mapsto> v')) s'" using vmcs_ok_load [of vs s p v hc c v' s'] by simp
  from vmcs_ok_replace [OF this vs_use(3-6)] show ?case unfolding fst_conv snd_conv .
next
  case (vs_enter vs p v s c v' s')
  then have ok: "vmcs_ok vs s" by simp
  have e: "v' = v\<lparr>launched := True\<rparr>" "s' = s\<lparr>hw_launched := (hw_launched s)(vmcs_page v := True)\<rparr>"
    using vm_entry_ok(1) [OF ok vs_enter(1,2)] vs_enter(3) by simp_all
  show ?case unfolding fst_conv snd_conv e by (rule vm_entry_ok(2) [OF ok vs_enter(1,2)])
next
  case (vs_nmi vs s c)
  then show ?case using vmcs_okD [of vs s] by (intro vmcs_okI) (auto split: if_splits)
next
  case (vs_destroy vs p v s c)
  then have ok: "vmcs_ok vs s" by simp
  show ?case unfolding fst_conv snd_conv by (rule vmcs_ok_unload(1) [OF ok vs_destroy(1)])
qed

inductive vmcs_reachable :: "host_cpu \<Rightarrow> vcpu_heap \<times> vmcs_cpus \<Rightarrow> bool" for hc where
  vr_start: "vmcs_reachable hc (\<lambda>_. None, \<lparr>local_vcpu = (\<lambda>_. None), current_vcpu = (\<lambda>_. None),
     hw_current = (\<lambda>_. None), hw_active = (\<lambda>_ _. False), hw_launched = (\<lambda>_. False)\<rparr>)"
| vr_step: "vmcs_reachable hc x \<Longrightarrow> vmcs_step hc x y \<Longrightarrow> vmcs_reachable hc y"

lemma vmcs_reachable_ok: "vmcs_reachable hc x \<Longrightarrow> vmcs_ok (fst x) (snd x)"
proof (induction rule: vmcs_reachable.induct)
  case vr_start
  then show ?case by (simp add: vmcs_ok_def)
next
  case (vr_step x y)
  then show ?case using vmcs_step_ok by blast
qed

text \<open>A vcpu at address 7 with its VMCS in page 9, created on CPU 0.\<close>

definition vcpu_example :: vmx_vcpu where
  "vcpu_example = vmx_vcpu_zero\<lparr>self := 7, vmcs_page := 9, cpu := - 1\<rparr>"

definition host_cpu_example :: host_cpu where
  "host_cpu_example = \<lparr>hc_tr_base = (\<lambda>_. 0x2000), hc_gdt_addr = (\<lambda>_. 0x1000), hc_sysenter_esp = (\<lambda>_. 0)\<rparr>"

definition cpus_example :: vmcs_cpus where
  "cpus_example = \<lparr>local_vcpu = (\<lambda>_. None), current_vcpu = (\<lambda>_. None),
     hw_current = (\<lambda>_. None), hw_active = (\<lambda>_ _. False), hw_launched = (\<lambda>_. False)\<rparr>"

lemma example_reachable:
  assumes "vmx_get_cpu host_cpu_example 0 (vcpu_example, cpus_example) = (v, s)"
  shows "vmcs_reachable host_cpu_example ([7 \<mapsto> v], s)"
proof (rule vr_step)
  show "vmcs_reachable host_cpu_example (\<lambda>_. None, cpus_example)"
    unfolding cpus_example_def by (rule vr_start)
  show "vmcs_step host_cpu_example (\<lambda>_. None, cpus_example) ([7 \<mapsto> v], s)"
    by (rule vs_create [where v = vcpu_example, OF _ _ _ _ _ _ assms])
      (simp_all add: vcpu_example_def vmx_vcpu_zero_def cpus_example_def)
qed

section \<open>Properties\<close>



end
