(* ===== verification/Slim_Vmx_Config.thy ===== *)
theory Slim_Vmx_Config
  imports Slim_Vmx_State Slim_Pool Slim_Vmx_Msr
begin

text \<open>
  Enabling the VMX engine (\<^verbatim>\<open>vmx.c\<close>): the execution controls are computed from the capability MSRs, the
  MSR bitmap is filled, every CPU is put into VMX operation, and the system call table of the guest
  is built.  Also the pool of VPIDs.  The kernel's symbol lookup, its allocators, the MSRs and
  \<^verbatim>\<open>CPUID\<close> are parameters.
\<close>

section \<open>Execution controls\<close>

record vmcs_config =
  vc_size :: u32
  vc_order :: nat
  vc_revision_id :: u32
  pin_based_exec_ctrl :: u32
  cpu_based_exec_ctrl :: u32
  cpu_based_2nd_exec_ctrl :: u32
  vmexit_ctrl :: u32
  vmentry_ctrl :: u32

record vmx_capability =
  cap_pin_based :: u64
  cap_secondary :: u64
  cap_ept :: u32
  cap_vpid :: u32

abbreviation (input) CPU_BASED_INTR_WINDOW_EXITING :: u32 where "CPU_BASED_INTR_WINDOW_EXITING \<equiv> 0x4"
abbreviation (input) CPU_BASED_USE_TSC_OFFSETTING :: u32 where "CPU_BASED_USE_TSC_OFFSETTING \<equiv> 0x8"
abbreviation (input) CPU_BASED_HLT_EXITING :: u32 where "CPU_BASED_HLT_EXITING \<equiv> 0x80"
abbreviation (input) CPU_BASED_INVLPG_EXITING :: u32 where "CPU_BASED_INVLPG_EXITING \<equiv> 0x200"
abbreviation (input) CPU_BASED_CR3_LOAD_EXITING :: u32 where "CPU_BASED_CR3_LOAD_EXITING \<equiv> 0x8000"
abbreviation (input) CPU_BASED_CR3_STORE_EXITING :: u32 where "CPU_BASED_CR3_STORE_EXITING \<equiv> 0x10000"
abbreviation (input) CPU_BASED_CR8_LOAD_EXITING :: u32 where "CPU_BASED_CR8_LOAD_EXITING \<equiv> 0x80000"
abbreviation (input) CPU_BASED_CR8_STORE_EXITING :: u32 where "CPU_BASED_CR8_STORE_EXITING \<equiv> 0x100000"
abbreviation (input) CPU_BASED_TPR_SHADOW :: u32 where "CPU_BASED_TPR_SHADOW \<equiv> 0x200000"
abbreviation (input) CPU_BASED_MOV_DR_EXITING :: u32 where "CPU_BASED_MOV_DR_EXITING \<equiv> 0x800000"
abbreviation (input) CPU_BASED_UNCOND_IO_EXITING :: u32 where "CPU_BASED_UNCOND_IO_EXITING \<equiv> 0x1000000"
abbreviation (input) CPU_BASED_USE_IO_BITMAPS :: u32 where "CPU_BASED_USE_IO_BITMAPS \<equiv> 0x2000000"
abbreviation (input) CPU_BASED_USE_MSR_BITMAPS :: u32 where "CPU_BASED_USE_MSR_BITMAPS \<equiv> 0x10000000"
abbreviation (input) CPU_BASED_ACTIVATE_SECONDARY_CONTROLS :: u32 where "CPU_BASED_ACTIVATE_SECONDARY_CONTROLS \<equiv> 0x80000000"
abbreviation (input) SECONDARY_EXEC_ENABLE_EPT :: u32 where "SECONDARY_EXEC_ENABLE_EPT \<equiv> 0x2"

text \<open>The two halves of a capability MSR: bits that must be one, bits that may be one.\<close>

definition msr_low :: "u64 \<Rightarrow> u32" where
  "msr_low x = ucast x"

definition msr_high :: "u64 \<Rightarrow> u32" where
  "msr_high x = ucast (drop_bit 32 x)"

text \<open>\<open>None\<close> is \<^verbatim>\<open>-EIO\<close>.\<close>

definition adjust_vmx_controls :: "u32 \<Rightarrow> u32 \<Rightarrow> u64 \<Rightarrow> u32 option" where
  "adjust_vmx_controls ctl_min ctl_opt msr =
     (let ctl = ctl_min OR ctl_opt;
          ctl = ctl AND msr_high msr;
          ctl = ctl OR msr_low msr
      in if ctl_min AND NOT ctl \<noteq> 0 then None else Some ctl)"

text \<open>\<open>rd\<close> reads an MSR, \<open>get_order\<close> is the kernel's.\<close>

definition setup_vmcs_config :: "(u32 \<Rightarrow> u64) \<Rightarrow> (u32 \<Rightarrow> nat) \<Rightarrow> vmx_capability \<Rightarrow> (vmcs_config \<times> vmx_capability) option" where
  "setup_vmcs_config rd get_order cap =
     (case adjust_vmx_controls (0x1 OR 0x8) (0x20 OR 0x80) (rd 0x481) of None \<Rightarrow> None | Some pin \<Rightarrow>
      let cap1 = cap\<lparr>cap_pin_based := (if bit (rd 0x481) 55 then rd 0x48d else rd 0x481)\<rparr> in
      (case adjust_vmx_controls
          (CPU_BASED_HLT_EXITING OR CPU_BASED_CR8_LOAD_EXITING OR CPU_BASED_CR8_STORE_EXITING OR CPU_BASED_CR3_LOAD_EXITING
           OR CPU_BASED_CR3_STORE_EXITING OR CPU_BASED_MOV_DR_EXITING OR CPU_BASED_USE_TSC_OFFSETTING OR CPU_BASED_INVLPG_EXITING)
          (CPU_BASED_TPR_SHADOW OR CPU_BASED_USE_MSR_BITMAPS OR CPU_BASED_ACTIVATE_SECONDARY_CONTROLS) (rd 0x482) of
         None \<Rightarrow> None
       | Some proc \<Rightarrow>
      let proc1 = (if proc AND CPU_BASED_TPR_SHADOW \<noteq> 0
                   then proc AND (NOT CPU_BASED_CR8_LOAD_EXITING AND NOT CPU_BASED_CR8_STORE_EXITING) else proc) in
      (case (if proc1 AND CPU_BASED_ACTIVATE_SECONDARY_CONTROLS \<noteq> 0
             then adjust_vmx_controls 0 (0x40 OR 0x20 OR SECONDARY_EXEC_ENABLE_EPT OR 0x8 OR 0x1000 OR 0x200) (rd 0x48b)
             else Some 0) of
         None \<Rightarrow> None
       | Some proc2nd \<Rightarrow>
      let (proc3, cap2) =
            (if proc2nd AND SECONDARY_EXEC_ENABLE_EPT \<noteq> 0
             then (proc1 AND NOT (CPU_BASED_CR3_LOAD_EXITING OR CPU_BASED_CR3_STORE_EXITING OR CPU_BASED_INVLPG_EXITING),
                   cap1\<lparr>cap_ept := msr_low (rd 0x48c), cap_vpid := msr_high (rd 0x48c)\<rparr>)
             else (proc1, cap1));
          cap3 = cap2\<lparr>cap_secondary := rd 0x48b\<rparr> in
      (case adjust_vmx_controls 0x200 0x8000 (rd 0x483) of None \<Rightarrow> None | Some vmexit \<Rightarrow>
      (case adjust_vmx_controls 0 0 (rd 0x484) of None \<Rightarrow> None | Some vmentry \<Rightarrow>
      let basic_low = msr_low (rd 0x480); basic_high = msr_high (rd 0x480) in
      if basic_high AND 0x1fff > 4096 then None
      else if basic_high AND 0x10000 \<noteq> 0 then None
      else if drop_bit 18 basic_high AND 15 \<noteq> 6 then None
      else
        (let proc4 = proc3 OR CPU_BASED_UNCOND_IO_EXITING; proc5 = proc4 AND NOT CPU_BASED_USE_IO_BITMAPS in
         Some (\<lparr>vc_size = basic_high AND 0x1fff, vc_order = get_order (basic_high AND 0x1fff), vc_revision_id = basic_low,
                pin_based_exec_ctrl = pin, cpu_based_exec_ctrl = proc5, cpu_based_2nd_exec_ctrl = proc2nd,
                vmexit_ctrl = vmexit, vmentry_ctrl = vmentry\<rparr>, cap3)))))))"

section \<open>The MSR bitmap\<close>

text \<open>Four areas of 0x400 bytes: reads of low and high MSRs, writes of low and high MSRs.\<close>

definition vmx_disable_intercept_for_msr :: "bitmap \<Rightarrow> u32 \<Rightarrow> bitmap" where
  "vmx_disable_intercept_for_msr bm msr =
     (if msr \<le> 0x1fff then bitmap_clear (8 * 0x800 + unat msr) (bitmap_clear (8 * 0x000 + unat msr) bm)
      else if 0xc0000000 \<le> msr \<and> msr \<le> 0xc0001fff
      then (let msr' = msr AND 0x1fff in
            bitmap_clear (8 * 0xc00 + unat msr') (bitmap_clear (8 * 0x400 + unat msr') bm))
      else bm)"

definition vmx_init_msr_bitmap :: bitmap where
  "vmx_init_msr_bitmap =
     vmx_disable_intercept_for_msr
       (vmx_disable_intercept_for_msr
         (vmx_disable_intercept_for_msr (\<lambda>_. True) MSR_FS_BASE) MSR_GS_BASE) MSR_KERNEL_GS_BASE"

text \<open>The processor's rule: does a guest access to an MSR exit?\<close>

definition msr_access_exits :: "bitmap \<Rightarrow> bool \<Rightarrow> u32 \<Rightarrow> bool" where
  "msr_access_exits bm write msr =
     (if msr \<le> 0x1fff then bm ((if write then 0x4000 else 0) + unat msr)
      else if 0xc0000000 \<le> msr \<and> msr \<le> 0xc0001fff then bm ((if write then 0x6000 else 0x2000) + unat (msr AND 0x1fff))
      else True)"

section \<open>VPIDs\<close>

abbreviation (input) VMX_NR_VPIDS :: nat where "VMX_NR_VPIDS \<equiv> 65536"

definition vmx_allocate_vpid :: "bitmap \<Rightarrow> nat \<times> bitmap" where
  "vmx_allocate_vpid bm =
     (let n = find_first_zero_bit bm VMX_NR_VPIDS in
      if n < VMX_NR_VPIDS then (n, bitmap_set n bm) else (0, bm))"

definition vmx_free_vpid :: "nat \<Rightarrow> bitmap \<Rightarrow> bitmap" where
  "vmx_free_vpid n bm = (if n \<noteq> 0 \<and> n < VMX_NR_VPIDS then bitmap_clear n bm else bm)"

text \<open>\<^verbatim>\<open>vmx_create_vcpu\<close> takes 0 for a failure.\<close>

definition vpid_alloc :: "bitmap \<Rightarrow> nat option \<times> bitmap" where
  "vpid_alloc bm = (case vmx_allocate_vpid bm of (n, bm') \<Rightarrow> (if n = 0 then None else Some n, bm'))"

interpretation vpid_pool: id_pool vpid_alloc vmx_free_vpid "\<lambda>bm. bm" 1 VMX_NR_VPIDS
proof
  fix s s' :: bitmap and n
  show "1 \<le> n \<and> n < VMX_NR_VPIDS \<and> \<not> s n \<and> s' = s(n := True)"
    if a: "vpid_alloc s = (Some n, s')"
    using a find_first_zero_bit_clear [of s VMX_NR_VPIDS]
    by (auto simp: vpid_alloc_def vmx_allocate_vpid_def Let_def bitmap_set_def split: if_splits)
  show "s' = s \<and> (\<forall>k < VMX_NR_VPIDS. s k)" if a: "vpid_alloc s = (None, s')" "\<forall>k < 1. s k"
  proof (cases "find_first_zero_bit s VMX_NR_VPIDS < VMX_NR_VPIDS")
    case True
    then have "\<not> s (find_first_zero_bit s VMX_NR_VPIDS)" by (rule find_first_zero_bit_clear)
    then have "find_first_zero_bit s VMX_NR_VPIDS \<noteq> 0" using a(2) by (metis less_one)
    then show ?thesis using a(1) True by (simp add: vpid_alloc_def vmx_allocate_vpid_def Let_def)
  next
    case False
    then show ?thesis
      using a(1) find_first_zero_bit_full [OF False] by (simp add: vpid_alloc_def vmx_allocate_vpid_def Let_def)
  qed
  show "vmx_free_vpid n s = s(n := False)" if "1 \<le> n" "n < VMX_NR_VPIDS"
    using that by (simp add: vmx_free_vpid_def bitmap_clear_def)
qed

section \<open>The engine\<close>

text \<open>The system call table of the guest: the kernel's, with five entries replaced.\<close>

datatype sys_entry = Sys_kernel nat | Sys_exit | Sys_exit_group | Sys_clone | Sys_fork | Sys_vfork

record vmx_engine =
  ve_vpid_bitmap :: bitmap
  ve_config :: vmcs_config
  ve_cap :: vmx_capability
  ve_msr_bitmap :: "bitmap option"
  ve_vmxarea :: "nat \<Rightarrow> bool"
  ve_enabled :: "nat \<Rightarrow> bool"
  ve_cr4_vmxe :: "nat \<Rightarrow> bool"
  ve_vmxon :: "nat \<Rightarrow> bool"
  ve_feature_control :: "nat \<Rightarrow> u64"
  ve_host_xcr0 :: u64
  ve_has_fsgsbase :: bool
  ve_has_pcid :: bool
  ve_has_osxsave :: bool
  ve_has_xsave :: bool
  ve_syscall_table :: "nat \<Rightarrow> sys_entry"

text \<open>What enabling the engine finds: symbols, MSRs, \<^verbatim>\<open>CPUID\<close>, free pages, the CPUs, XCR0.\<close>

record enable_env =
  ee_sym :: "string \<Rightarrow> bool"
  ee_rdmsr :: "u32 \<Rightarrow> u64"
  ee_get_order :: "u32 \<Rightarrow> nat"
  ee_cpuid :: "u32 \<Rightarrow> u32 \<Rightarrow> u32 \<times> u32 \<times> u32 \<times> u32"
  ee_page :: bool
  ee_vmcs :: "nat \<Rightarrow> bool"
  ee_possible :: "nat list"
  ee_online :: "nat list"
  ee_xcr0 :: u64

definition slimvm_get_cpu_feature :: "enable_env \<Rightarrow> vmx_engine \<Rightarrow> vmx_engine" where
  "slimvm_get_cpu_feature ee e =
     (let (_, ebx, ecx, _) = ee_cpuid ee 7 0; (_, _, ecx1, _) = ee_cpuid ee 1 ecx in
      e\<lparr>ve_has_fsgsbase := bit ebx 0, ve_has_pcid := bit ecx1 17, ve_has_osxsave := bit ecx1 27, ve_has_xsave := bit ecx1 26\<rparr>)"

definition vmx_init_syscall :: "(string \<Rightarrow> bool) \<Rightarrow> vmx_engine \<Rightarrow> int \<times> vmx_engine" where
  "vmx_init_syscall kln e =
     (if \<not> kln ''sys_call_table'' then (- EINVAL, e)
      else if \<not> kln ''kernel_clone'' then (- EINVAL, e)
      else if \<not> kln ''do_exit'' then (- EINVAL, e)
      else if \<not> kln ''do_group_exit'' then (- EINVAL, e)
      else if \<not> kln ''task_work_run'' then (- EINVAL, e)
      else if \<not> kln ''mem_cgroup_handle_over_high'' then (- EINVAL, e)
      else (0, e\<lparr>ve_syscall_table := Sys_kernel(60 := Sys_exit, 231 := Sys_exit_group, 56 := Sys_clone, 57 := Sys_fork, 58 := Sys_vfork)\<rparr>))"

definition do_vmx_enable :: "nat \<Rightarrow> vmx_engine \<Rightarrow> int \<times> vmx_engine" where
  "do_vmx_enable c e =
     (if ve_cr4_vmxe e c then (- EBUSY, e)
      else
        (let old = ve_feature_control e c; test_bits = 0x1 OR 0x4;
             e1 = (if old AND test_bits \<noteq> test_bits
                   then e\<lparr>ve_feature_control := (ve_feature_control e)(c := old OR test_bits)\<rparr> else e)
         in (0, e1\<lparr>ve_cr4_vmxe := (ve_cr4_vmxe e1)(c := True), ve_vmxon := (ve_vmxon e1)(c := True)\<rparr>)))"

text \<open>The counter is \<^verbatim>\<open>vmx_enable_failed\<close>.\<close>

definition vmx_enable :: "nat \<Rightarrow> nat \<times> vmx_engine \<Rightarrow> nat \<times> vmx_engine" where
  "vmx_enable c = (\<lambda>(failed, e).
     case do_vmx_enable c e of
       (ret, e1) \<Rightarrow> if ret \<noteq> 0 then (failed + 1, e1) else (failed, e1\<lparr>ve_enabled := (ve_enabled e1)(c := True)\<rparr>))"

definition vmx_disable :: "nat \<Rightarrow> vmx_engine \<Rightarrow> vmx_engine" where
  "vmx_disable c e =
     (if ve_enabled e c
      then e\<lparr>ve_vmxon := (ve_vmxon e)(c := False), ve_cr4_vmxe := (ve_cr4_vmxe e)(c := False), ve_enabled := (ve_enabled e)(c := False)\<rparr>
      else e)"

definition vmx_free_vmxon_areas :: "nat list \<Rightarrow> vmx_engine \<Rightarrow> vmx_engine" where
  "vmx_free_vmxon_areas possible e = e\<lparr>ve_vmxarea := (\<lambda>c. if c \<in> set possible then False else ve_vmxarea e c)\<rparr>"

fun alloc_vmxon_areas :: "(nat \<Rightarrow> bool) \<Rightarrow> nat list \<Rightarrow> vmx_engine \<Rightarrow> bool \<times> vmx_engine" where
  "alloc_vmxon_areas ok [] e = (True, e)"
| "alloc_vmxon_areas ok (c # cs) e =
     (if \<not> ok c then (False, e) else alloc_vmxon_areas ok cs (e\<lparr>ve_vmxarea := (ve_vmxarea e)(c := True)\<rparr>))"

definition vmx_hardware_enable_all :: "enable_env \<Rightarrow> vmx_engine \<Rightarrow> int \<times> vmx_engine" where
  "vmx_hardware_enable_all ee e =
     (if \<not> ee_sym ee ''exc_nmi'' then (- EINVAL, e)
      else
        (let e1 = slimvm_get_cpu_feature ee e; (r, e2) = vmx_init_syscall (ee_sym ee) e1 in
         if r \<noteq> 0 then (- EINVAL, e2)
         else case setup_vmcs_config (ee_rdmsr ee) (ee_get_order ee) (ve_cap e2) of
           None \<Rightarrow> (- EIO, e2)
         | Some (conf, cap) \<Rightarrow>
             (let e3 = e2\<lparr>ve_config := conf, ve_cap := cap\<rparr> in
              if \<not> ee_page ee then (- ENOMEM, e3)
              else
                (let e4 = e3\<lparr>ve_msr_bitmap := Some vmx_init_msr_bitmap, ve_vpid_bitmap := bitmap_set 0 (ve_vpid_bitmap e3)\<rparr>;
                     (ok, e5) = alloc_vmxon_areas (ee_vmcs ee) (ee_possible ee) e4
                 in if \<not> ok
                    then (- ENOMEM, (vmx_free_vmxon_areas (ee_possible ee) e5)\<lparr>ve_msr_bitmap := None\<rparr>)
                    else
                      (let (failed, e6) = fold vmx_enable (ee_online ee) (0, e5) in
                       if failed \<noteq> 0
                       then (- EBUSY, (vmx_free_vmxon_areas (ee_possible ee) (fold vmx_disable (ee_online ee) e6))\<lparr>ve_msr_bitmap := None\<rparr>)
                       else (0, if ve_has_xsave e6 then e6\<lparr>ve_host_xcr0 := ee_xcr0 ee\<rparr> else e6))))))"

definition vmx_hardware_disable_all :: "enable_env \<Rightarrow> vmx_engine \<Rightarrow> vmx_engine" where
  "vmx_hardware_disable_all ee e =
     (vmx_free_vmxon_areas (ee_possible ee) (fold vmx_disable (ee_online ee) e))\<lparr>ve_msr_bitmap := None\<rparr>"

section \<open>What the controls allow\<close>

definition within :: "u64 \<Rightarrow> u32 \<Rightarrow> bool" where
  "within msr ctl \<longleftrightarrow> msr_low msr AND NOT ctl = 0 \<and> ctl AND NOT (msr_low msr OR msr_high msr) = 0"

lemma adjust_result:
  assumes "adjust_vmx_controls mn opt msr = Some ctl"
  shows "within msr ctl" "bit mn n \<Longrightarrow> bit ctl n"
proof -
  have c: "ctl = ((mn OR opt) AND msr_high msr) OR msr_low msr" "mn AND NOT ctl = 0"
    using assms by (auto simp: adjust_vmx_controls_def Let_def split: if_splits)
  show "within msr ctl"
    unfolding within_def c(1) by (auto intro!: bit_word_eqI simp: bit_simps)
  show "bit ctl n" if b: "bit mn n"
  proof (rule ccontr)
    assume "\<not> bit ctl n"
    then have "bit (mn AND NOT ctl) n" using b bit_imp_le_length [OF b] by (simp add: bit_simps)
    then show False unfolding c(2) by simp
  qed
qed

lemma adjust_refuses: "adjust_vmx_controls mn opt msr = None \<longleftrightarrow> mn AND NOT (msr_low msr OR msr_high msr) \<noteq> 0"
proof -
  have "mn AND NOT (((mn OR opt) AND msr_high msr) OR msr_low msr) = mn AND NOT (msr_low msr OR msr_high msr)"
    by (rule bit_word_eqI) (auto simp: bit_simps)
  then show ?thesis by (simp add: adjust_vmx_controls_def Let_def)
qed

lemma low_bits:
  "bit (0x1 OR 0x8 :: u32) 0" "bit (0x1 OR 0x8 :: u32) 3" "bit (0x200 :: u32) 9"
  "bit (0x80 OR 0x80000 OR 0x100000 OR 0x8000 OR 0x10000 OR 0x800000 OR 0x8 OR 0x200 :: u32) 7"
  "bit (0x80 OR 0x80000 OR 0x100000 OR 0x8000 OR 0x10000 OR 0x800000 OR 0x8 OR 0x200 :: u32) 23"
  "bit (NOT 0x80000 AND NOT 0x100000 :: u32) 7" "bit (NOT 0x80000 AND NOT 0x100000 :: u32) 23"
  "bit (NOT (0x8000 OR 0x10000 OR 0x200) :: u32) 7" "bit (NOT (0x8000 OR 0x10000 OR 0x200) :: u32) 23"
  "bit (0x1000000 :: u32) 24" "bit (0x2000000 :: u32) 25" "\<not> bit (0x2000000 :: u32) 7" "\<not> bit (0x2000000 :: u32) 23"
  "\<not> bit (0x2000000 :: u32) 24"
  by code_simp+

lemma setup_config_parts:
  assumes "setup_vmcs_config rd go cap = Some (conf, cap')"
  obtains proc where "adjust_vmx_controls (0x1 OR 0x8) (0x20 OR 0x80) (rd 0x481) = Some (pin_based_exec_ctrl conf)"
    "adjust_vmx_controls
       (CPU_BASED_HLT_EXITING OR CPU_BASED_CR8_LOAD_EXITING OR CPU_BASED_CR8_STORE_EXITING OR CPU_BASED_CR3_LOAD_EXITING
        OR CPU_BASED_CR3_STORE_EXITING OR CPU_BASED_MOV_DR_EXITING OR CPU_BASED_USE_TSC_OFFSETTING OR CPU_BASED_INVLPG_EXITING)
       (CPU_BASED_TPR_SHADOW OR CPU_BASED_USE_MSR_BITMAPS OR CPU_BASED_ACTIVATE_SECONDARY_CONTROLS) (rd 0x482) = Some proc"
    "adjust_vmx_controls 0 (0x40 OR 0x20 OR SECONDARY_EXEC_ENABLE_EPT OR 0x8 OR 0x1000 OR 0x200) (rd 0x48b)
       = Some (cpu_based_2nd_exec_ctrl conf) \<or> cpu_based_2nd_exec_ctrl conf = 0"
    "adjust_vmx_controls 0x200 0x8000 (rd 0x483) = Some (vmexit_ctrl conf)"
    "adjust_vmx_controls 0 0 (rd 0x484) = Some (vmentry_ctrl conf)" "vc_size conf \<le> 4096"
    "\<exists>a b. (a = proc \<or> a = proc AND (NOT CPU_BASED_CR8_LOAD_EXITING AND NOT CPU_BASED_CR8_STORE_EXITING))
       \<and> (b = a \<or> b = a AND NOT (CPU_BASED_CR3_LOAD_EXITING OR CPU_BASED_CR3_STORE_EXITING OR CPU_BASED_INVLPG_EXITING))
       \<and> cpu_based_exec_ctrl conf = (b OR CPU_BASED_UNCOND_IO_EXITING) AND NOT CPU_BASED_USE_IO_BITMAPS"
proof -
  have le: "\<not> 4096 < x \<Longrightarrow> x \<le> 4096" for x :: u32 by simp
  show thesis
    using assms unfolding setup_vmcs_config_def Let_def
    by (simp only: split: option.split_asm if_split_asm prod.split_asm) (rule that, auto simp: le)+
qed

text \<open>A processor that allows every control and requires none.\<close>

definition rdmsr_example :: "u32 \<Rightarrow> u64" where
  "rdmsr_example m = (if m = 0x480 then 0x18040000000001 else 0xffffffff00000000)"

definition cap_example :: vmx_capability where
  "cap_example = \<lparr>cap_pin_based = 0, cap_secondary = 0, cap_ept = 0, cap_vpid = 0\<rparr>"

lemma config_example: "setup_vmcs_config rdmsr_example (\<lambda>_. 0) cap_example \<noteq> None"
  by code_simp

section \<open>Enabling and disabling every CPU\<close>

text \<open>What enabling does on a list of CPUs: each CPU without \<^verbatim>\<open>CR4.VMXE\<close> is taken, the others are counted.\<close>

lemma enable_fold:
  assumes "distinct cs" "fold vmx_enable cs (n, e) = (n', e')"
  shows "n' = n + length (filter (ve_cr4_vmxe e) cs)"
    "ve_cr4_vmxe e' = (\<lambda>c. c \<in> set cs \<or> ve_cr4_vmxe e c)"
    "ve_vmxon e' = (\<lambda>c. c \<in> set cs \<and> \<not> ve_cr4_vmxe e c \<or> ve_vmxon e c)"
    "ve_enabled e' = (\<lambda>c. c \<in> set cs \<and> \<not> ve_cr4_vmxe e c \<or> ve_enabled e c)"
    "ve_vmxarea e' = ve_vmxarea e" "ve_msr_bitmap e' = ve_msr_bitmap e"
  using assms
proof (atomize (full), induction cs arbitrary: n e)
  case (Cons c cs)
  obtain n1 e1 where s: "vmx_enable c (n, e) = (n1, e1)" by fastforce
  have f: "n1 = n + (if ve_cr4_vmxe e c then 1 else 0)" "ve_cr4_vmxe e1 = (ve_cr4_vmxe e)(c := True)"
    "ve_vmxon e1 = (\<lambda>d. d = c \<and> \<not> ve_cr4_vmxe e c \<or> ve_vmxon e d)"
    "ve_enabled e1 = (\<lambda>d. d = c \<and> \<not> ve_cr4_vmxe e c \<or> ve_enabled e d)"
    "ve_vmxarea e1 = ve_vmxarea e" "ve_msr_bitmap e1 = ve_msr_bitmap e"
    using s by (auto simp: vmx_enable_def do_vmx_enable_def Let_def fun_eq_iff split: if_splits)
  have d: "distinct cs" "c \<notin> set cs" using Cons.prems(1) by simp_all
  have "fold vmx_enable cs (n1, e1) = (n', e')" using Cons.prems(2) s by simp
  note IH = Cons.IH [OF d(1) this]
  have fl: "filter ((ve_cr4_vmxe e)(c := True)) cs = filter (ve_cr4_vmxe e) cs"
    by (rule filter_cong) (use d(2) in auto)
  show ?case using IH d(2) unfolding f fl by (auto simp: fun_eq_iff)
qed auto

lemma disable_fold:
  shows "ve_enabled (fold vmx_disable cs e) = (\<lambda>c. ve_enabled e c \<and> c \<notin> set cs)"
    "ve_cr4_vmxe (fold vmx_disable cs e) = (\<lambda>c. ve_cr4_vmxe e c \<and> \<not> (c \<in> set cs \<and> ve_enabled e c))"
    "ve_vmxon (fold vmx_disable cs e) = (\<lambda>c. ve_vmxon e c \<and> \<not> (c \<in> set cs \<and> ve_enabled e c))"
    "ve_vmxarea (fold vmx_disable cs e) = ve_vmxarea e"
proof (atomize (full), induction cs arbitrary: e)
  case (Cons c cs)
  have f: "ve_enabled (vmx_disable c e) = (ve_enabled e)(c := False)"
    "ve_cr4_vmxe (vmx_disable c e) = (\<lambda>d. ve_cr4_vmxe e d \<and> \<not> (d = c \<and> ve_enabled e c))"
    "ve_vmxon (vmx_disable c e) = (\<lambda>d. ve_vmxon e d \<and> \<not> (d = c \<and> ve_enabled e c))"
    "ve_vmxarea (vmx_disable c e) = ve_vmxarea e"
    by (auto simp: vmx_disable_def fun_eq_iff)
  show ?case using Cons.IH [of "vmx_disable c e"] unfolding fold_simps comp_apply f by (auto simp: fun_eq_iff)
qed auto

lemma alloc_areas_frame:
  assumes "alloc_vmxon_areas ok cs e = (b, e')"
  shows "ve_enabled e' = ve_enabled e" "ve_cr4_vmxe e' = ve_cr4_vmxe e" "ve_vmxon e' = ve_vmxon e"
    "ve_vmxarea e' c \<Longrightarrow> c \<in> set cs \<or> ve_vmxarea e c" "ve_msr_bitmap e' = ve_msr_bitmap e"
proof -
  have "ve_enabled e' = ve_enabled e \<and> ve_cr4_vmxe e' = ve_cr4_vmxe e \<and> ve_vmxon e' = ve_vmxon e
    \<and> (\<forall>c. ve_vmxarea e' c \<longrightarrow> c \<in> set cs \<or> ve_vmxarea e c) \<and> ve_msr_bitmap e' = ve_msr_bitmap e"
    using assms by (induction ok cs e rule: alloc_vmxon_areas.induct) (auto split: if_splits)
  then show "ve_enabled e' = ve_enabled e" "ve_cr4_vmxe e' = ve_cr4_vmxe e" "ve_vmxon e' = ve_vmxon e"
    "ve_vmxarea e' c \<Longrightarrow> c \<in> set cs \<or> ve_vmxarea e c" "ve_msr_bitmap e' = ve_msr_bitmap e" by auto
qed

text \<open>The engine is off: no CPU and no page is in its use.\<close>

definition engine_off :: "vmx_engine \<Rightarrow> bool" where
  "engine_off e \<longleftrightarrow> (\<forall>c. \<not> ve_enabled e c \<and> \<not> ve_vmxarea e c) \<and> ve_msr_bitmap e = None"

definition same_hw :: "vmx_engine \<Rightarrow> vmx_engine \<Rightarrow> bool" where
  "same_hw x e \<longleftrightarrow> ve_enabled x = ve_enabled e \<and> ve_cr4_vmxe x = ve_cr4_vmxe e \<and> ve_vmxon x = ve_vmxon e
     \<and> ve_vmxarea x = ve_vmxarea e \<and> ve_msr_bitmap x = ve_msr_bitmap e"

lemma feature_same: "same_hw (slimvm_get_cpu_feature ee e) e"
  by (simp add: slimvm_get_cpu_feature_def Let_def same_hw_def split: prod.splits)

lemma syscall_same: "vmx_init_syscall kln e = (r, e') \<Longrightarrow> same_hw e' e"
  by (auto simp: vmx_init_syscall_def same_hw_def split: if_splits)

text \<open>How far enabling gets: it stops before a page or CPU is touched, when a VMXON area cannot be
  allocated, or after the CPUs were asked.\<close>

lemma enable_all_cases:
  assumes r: "vmx_hardware_enable_all ee e = (r, e')"
  obtains "r \<noteq> 0" "same_hw e' e"
  | e5 where "r \<noteq> 0" "e' = (vmx_free_vmxon_areas (ee_possible ee) e5)\<lparr>ve_msr_bitmap := None\<rparr>" "ve_enabled e5 = ve_enabled e"
      "ve_cr4_vmxe e5 = ve_cr4_vmxe e" "ve_vmxon e5 = ve_vmxon e" "\<forall>c. ve_vmxarea e5 c \<longrightarrow> c \<in> set (ee_possible ee) \<or> ve_vmxarea e c"
  | e5 failed e6 where "True" "ve_enabled e5 = ve_enabled e" "ve_cr4_vmxe e5 = ve_cr4_vmxe e" "ve_vmxon e5 = ve_vmxon e"
      "\<forall>c. ve_vmxarea e5 c \<longrightarrow> c \<in> set (ee_possible ee) \<or> ve_vmxarea e c"
      "fold vmx_enable (ee_online ee) (0, e5) = (failed, e6)"
      "(r, e') = (if failed \<noteq> 0
         then (- EBUSY, (vmx_free_vmxon_areas (ee_possible ee) (fold vmx_disable (ee_online ee) e6))\<lparr>ve_msr_bitmap := None\<rparr>)
         else (0, if ve_has_xsave e6 then e6\<lparr>ve_host_xcr0 := ee_xcr0 ee\<rparr> else e6))"
proof (cases "ee_sym ee ''exc_nmi''")
  case False
  then show ?thesis using r that(1) by (simp add: vmx_hardware_enable_all_def same_hw_def)
next
  case nmi: True
  obtain r2 e2 where e2: "vmx_init_syscall (ee_sym ee) (slimvm_get_cpu_feature ee e) = (r2, e2)" by fastforce
  have s2: "same_hw e2 e" using syscall_same [OF e2] feature_same [of ee e] by (simp add: same_hw_def)
  show ?thesis
  proof (cases "r2 = 0")
    case False
    then show ?thesis using r nmi e2 s2 that(1) by (simp add: vmx_hardware_enable_all_def)
  next
    case r2: True
    show ?thesis
    proof (cases "setup_vmcs_config (ee_rdmsr ee) (ee_get_order ee) (ve_cap e2)")
      case None
      then show ?thesis using r nmi e2 r2 s2 that(1) by (simp add: vmx_hardware_enable_all_def)
    next
      case (Some cc)
      obtain conf cap where cc: "cc = (conf, cap)" by fastforce
      let ?e3 = "e2\<lparr>ve_config := conf, ve_cap := cap\<rparr>"
      have s3: "same_hw ?e3 e" using s2 by (simp add: same_hw_def)
      show ?thesis
      proof (cases "ee_page ee")
        case False
        then show ?thesis using r nmi e2 r2 Some cc s3 that(1) by (simp add: vmx_hardware_enable_all_def)
      next
        case pg: True
        let ?e4 = "?e3\<lparr>ve_msr_bitmap := Some vmx_init_msr_bitmap, ve_vpid_bitmap := bitmap_set 0 (ve_vpid_bitmap ?e3)\<rparr>"
        obtain ok e5 where a: "alloc_vmxon_areas (ee_vmcs ee) (ee_possible ee) ?e4 = (ok, e5)" by fastforce
        have f5: "ve_enabled e5 = ve_enabled e" "ve_cr4_vmxe e5 = ve_cr4_vmxe e" "ve_vmxon e5 = ve_vmxon e"
          "\<forall>c. ve_vmxarea e5 c \<longrightarrow> c \<in> set (ee_possible ee) \<or> ve_vmxarea e c"
          using alloc_areas_frame [OF a] s3 by (auto simp: same_hw_def)
        have step: "vmx_hardware_enable_all ee e = (if \<not> ok
            then (- ENOMEM, (vmx_free_vmxon_areas (ee_possible ee) e5)\<lparr>ve_msr_bitmap := None\<rparr>)
            else (let (failed, e6) = fold vmx_enable (ee_online ee) (0, e5) in
               if failed \<noteq> 0
               then (- EBUSY, (vmx_free_vmxon_areas (ee_possible ee) (fold vmx_disable (ee_online ee) e6))\<lparr>ve_msr_bitmap := None\<rparr>)
               else (0, if ve_has_xsave e6 then e6\<lparr>ve_host_xcr0 := ee_xcr0 ee\<rparr> else e6)))"
          using nmi r2 pg unfolding vmx_hardware_enable_all_def Let_def e2 Some cc prod.case option.case a by simp
        obtain failed e6 where e6: "fold vmx_enable (ee_online ee) (0, e5) = (failed, e6)" by fastforce
        show ?thesis
        proof (cases ok)
          case True
          show ?thesis by (rule that(3) [OF TrueI f5 e6]) (use r step True e6 in simp)
        next
          case False
          show ?thesis by (rule that(2) [OF _ _ f5]) (use r step False in simp_all)
        qed
      qed
    qed
  qed
qed

text \<open>The engine before it is enabled, on CPUs some of which another hypervisor uses.\<close>

definition engine_example :: "(nat \<Rightarrow> bool) \<Rightarrow> vmx_engine" where
  "engine_example taken = \<lparr>ve_vpid_bitmap = (\<lambda>_. False),
     ve_config = \<lparr>vc_size = 0, vc_order = 0, vc_revision_id = 0, pin_based_exec_ctrl = 0, cpu_based_exec_ctrl = 0,
       cpu_based_2nd_exec_ctrl = 0, vmexit_ctrl = 0, vmentry_ctrl = 0\<rparr>,
     ve_cap = cap_example, ve_msr_bitmap = None, ve_vmxarea = (\<lambda>_. False), ve_enabled = (\<lambda>_. False), ve_cr4_vmxe = taken,
     ve_vmxon = (\<lambda>_. False), ve_feature_control = (\<lambda>_. 0), ve_host_xcr0 = 0, ve_has_fsgsbase = False, ve_has_pcid = False,
     ve_has_osxsave = False, ve_has_xsave = False, ve_syscall_table = Sys_kernel\<rparr>"

section \<open>Properties\<close>



text \<open>C32. The guest reaches three MSRs without the module.  With the bitmap the engine installs, a guest
  read or write of an MSR does not exit exactly for the bases of FS, GS and the other GS.\<close>

theorem only_base_msrs_pass:
  "msr_access_exits vmx_init_msr_bitmap write msr \<longleftrightarrow> msr \<notin> {MSR_FS_BASE, MSR_GS_BASE, MSR_KERNEL_GS_BASE}"
proof -
  have bm: "vmx_init_msr_bitmap n \<longleftrightarrow> n \<notin> {0x2100, 0x6100, 0x2101, 0x6101, 0x2102, 0x6102}" for n
    by (auto simp: vmx_init_msr_bitmap_def vmx_disable_intercept_for_msr_def bitmap_clear_def Let_def)
  show ?thesis
  proof (cases "msr \<le> 0x1fff")
    case True
    then have "unat msr \<le> 8191" by (simp add: word_le_nat_alt)
    then show ?thesis using True by (auto simp: msr_access_exits_def bm)
  next
    case low: False
    show ?thesis
    proof (cases "0xc0000000 \<le> msr \<and> msr \<le> 0xc0001fff")
      case True
      then have b: "3221225472 \<le> unat msr" "unat msr \<le> 3221233663" by (simp_all add: word_le_nat_alt)
      have "msr AND 0x1fff = take_bit 13 msr" by (simp add: take_bit_eq_mask mask_eq_exp_minus_1)
      then have "unat (msr AND 0x1fff) = unat msr mod 8192" by (simp add: unsigned_take_bit_eq take_bit_nat_def)
      also have "\<dots> = unat msr - 3221225472"
        by (rule mod_nat_eqI) (use b in \<open>simp_all add: diff_diff_right\<close>)
      finally have o: "unat (msr AND 0x1fff) = unat msr - 3221225472" .
      have "msr = k \<longleftrightarrow> unat msr = unat k" for k by (simp add: word_unat_eq_iff)
      then show ?thesis using low True b by (auto simp: msr_access_exits_def bm o)
    next
      case False
      then show ?thesis using low by (auto simp: msr_access_exits_def)
    qed
  qed
qed

text \<open>C33. Enabling the engine is all or nothing.  When \<open>vmx_hardware_enable_all\<close> fails, for whatever
  reason and on whatever CPU, no CPU stays in VMX operation on behalf of the module, a CPU another
  hypervisor uses is left alone, and every page is given back.  When it succeeds, every CPU was
  free and is now enabled, and disabling puts them all back.\<close>

theorem vmx_enable_all_or_nothing:
  assumes off: "engine_off e" and cons: "\<forall>c. ve_vmxon e c \<longrightarrow> ve_cr4_vmxe e c" and d: "distinct (ee_online ee)"
    and r: "vmx_hardware_enable_all ee e = (r, e')"
  shows "let idle = (\<lambda>x. engine_off x \<and> ve_cr4_vmxe x = ve_cr4_vmxe e \<and> ve_vmxon x = ve_vmxon e) in
    (r \<noteq> 0 \<longrightarrow> idle e')
    \<and> (r = 0 \<longrightarrow> (\<forall>c \<in> set (ee_online ee). \<not> ve_cr4_vmxe e c \<and> ve_vmxon e' c \<and> ve_enabled e' c)
         \<and> idle (vmx_hardware_disable_all ee e'))"
proof -
  let ?idle = "\<lambda>x. engine_off x \<and> ve_cr4_vmxe x = ve_cr4_vmxe e \<and> ve_vmxon x = ve_vmxon e"
  have offD: "\<not> ve_enabled e c" "\<not> ve_vmxarea e c" "ve_msr_bitmap e = None" for c using off by (simp_all add: engine_off_def)
  have quiet: "?idle x" if "same_hw x e" for x using that off by (simp add: same_hw_def engine_off_def)
  from r show ?thesis
  proof (cases rule: enable_all_cases)
    case 1
    then show ?thesis using quiet by (simp add: Let_def)
  next
    case (2 e5)
    have "?idle ((vmx_free_vmxon_areas (ee_possible ee) e5)\<lparr>ve_msr_bitmap := None\<rparr>)"
      using 2(3-6) offD by (auto simp: engine_off_def vmx_free_vmxon_areas_def)
    then show ?thesis using 2(1,2) by (simp add: Let_def)
  next
    case (3 e5 failed e6)
    note f = enable_fold [OF d 3(6)]
    have idle: "?idle ((vmx_free_vmxon_areas (ee_possible ee) (fold vmx_disable (ee_online ee) x))\<lparr>ve_msr_bitmap := None\<rparr>)"
      if x: "ve_enabled x = ve_enabled e6" "ve_cr4_vmxe x = ve_cr4_vmxe e6" "ve_vmxon x = ve_vmxon e6" "ve_vmxarea x = ve_vmxarea e6" for x
      using 3(2-5) offD f(2-5) cons
      by (auto simp: engine_off_def vmx_free_vmxon_areas_def disable_fold x fun_eq_iff)
    show ?thesis
    proof (cases "failed = 0")
      case False
      then show ?thesis using 3(7) idle [of e6] by (simp add: Let_def)
    next
      case True
      have n: "\<not> ve_cr4_vmxe e c" if "c \<in> set (ee_online ee)" for c
        using f(1) True that 3(3) by (auto simp: filter_empty_conv)
      obtain x where e': "r = 0" "e' = x" "ve_enabled x = ve_enabled e6" "ve_cr4_vmxe x = ve_cr4_vmxe e6" "ve_vmxon x = ve_vmxon e6"
          "ve_vmxarea x = ve_vmxarea e6"
        using 3(7) True by (auto split: if_splits)
      show ?thesis
        using idle [OF e'(3-6)] n f(3,4) 3(3) e' unfolding Let_def vmx_hardware_disable_all_def e'(1,2) by auto
    qed
  qed
qed

theorem vmx_enable_all_or_nothing_witness:
  "\<exists>e'. vmx_hardware_enable_all
      \<lparr>ee_sym = (\<lambda>_. True), ee_rdmsr = rdmsr_example, ee_get_order = (\<lambda>_. 0), ee_cpuid = (\<lambda>_ _. (0, 0, 0, 0)), ee_page = True,
       ee_vmcs = (\<lambda>_. True), ee_possible = [0, 1], ee_online = [0, 1], ee_xcr0 = 7\<rparr>
      (engine_example (\<lambda>c. c = 1)) = (- EBUSY, e') \<and> \<not> ve_vmxon e' 0 \<and> ve_cr4_vmxe e' 1 \<and> \<not> ve_cr4_vmxe e' 0"
proof -
  let ?ee = "\<lparr>ee_sym = (\<lambda>_. True), ee_rdmsr = rdmsr_example, ee_get_order = (\<lambda>_. 0), ee_cpuid = (\<lambda>_ _. (0, 0, 0, 0)), ee_page = True,
       ee_vmcs = (\<lambda>_. True), ee_possible = [0, 1], ee_online = [0, 1], ee_xcr0 = 7\<rparr>"
  let ?e = "engine_example (\<lambda>c. c = 1)"
  obtain conf cap where c: "setup_vmcs_config rdmsr_example (\<lambda>_. 0) cap_example = Some (conf, cap)"
    using config_example by (cases "setup_vmcs_config rdmsr_example (\<lambda>_. 0) cap_example") auto
  obtain r e' where r: "vmx_hardware_enable_all ?ee ?e = (r, e')" by fastforce
  have "r = - EBUSY"
    using r c by (simp add: vmx_hardware_enable_all_def slimvm_get_cpu_feature_def vmx_init_syscall_def engine_example_def
        vmx_enable_def do_vmx_enable_def Let_def split: if_splits)
  moreover have "engine_off ?e" "\<forall>c. ve_vmxon ?e c \<longrightarrow> ve_cr4_vmxe ?e c" "distinct (ee_online ?ee)"
    by (simp_all add: engine_off_def engine_example_def)
  from vmx_enable_all_or_nothing [OF this r] calculation
  have "ve_cr4_vmxe e' = (\<lambda>c. c = 1)" "ve_vmxon e' = (\<lambda>_. False)" by (simp_all add: Let_def engine_example_def)
  ultimately show ?thesis using r by auto
qed

text \<open>VPIDs of living vcpus differ and are never the host's.  Starting with VPID 0 reserved, over any
  sequence of allocations and releases the VPIDs in use are pairwise different, at least 1 and
  below 65536; so the translations of different vcpus are tagged differently.\<close>

lemma vpids_unique:
  assumes "bm 0" "pool_run vpid_alloc vmx_free_vpid ops bm [] = (bm', held)"
  shows "distinct held \<and> set held \<subseteq> {1 ..< VMX_NR_VPIDS} \<and> bm' = (\<lambda>n. bm n \<or> n \<in> set held)"
  using vpid_pool.held_distinct [OF _ assms(2)] assms(1) by simp

end
