(* ===== verification/Slim_Vmx_Setup.thy ===== *)
theory Slim_Vmx_Setup
  imports Slim_Vmcs Slim_Vmx_Config
begin

text \<open>
  Creating and destroying vcpus (\<^verbatim>\<open>vmx.c\<close>): the initial content of the VMCS, the registers, and the
  allocations with their error paths.  The allocators, the values read from the host and the CPU the
  thread runs on are arguments; \<open>kmem\<close> is the set of objects allocated.
\<close>

section \<open>The initial guest state\<close>

definition vmx_segment_access_rights :: "slimvm_segment \<Rightarrow> u32" where
  "vmx_segment_access_rights var =
     (if seg_unusable var \<noteq> 0 \<or> seg_present var = 0 then 0x10000
      else ucast (seg_type var AND 15)
        OR push_bit 4 (ucast (seg_s var AND 1))
        OR push_bit 5 (ucast (seg_dpl var AND 3))
        OR push_bit 7 (ucast (seg_present var AND 1))
        OR push_bit 12 (ucast (seg_avl var AND 1))
        OR push_bit 13 (ucast (seg_l var AND 1))
        OR push_bit 14 (ucast (seg_db var AND 1))
        OR push_bit 15 (ucast (seg_g var AND 1)))"

definition vmcs_writes :: "(vmcs_field \<times> u64) list \<Rightarrow> vmx_vcpu \<Rightarrow> vmx_vcpu" where
  "vmcs_writes ws vcpu = fold (\<lambda>(field, value). vmcs_writel field value) ws vcpu"

definition guest_state_writes :: "slimvm_sregs \<Rightarrow> (vmcs_field \<times> u64) list" where
  "guest_state_writes sr =
     [(GUEST_CR0, sr_cr0 sr OR 0x20), (CR0_READ_SHADOW, sr_cr0 sr), (GUEST_CR3, sr_cr3 sr),
      (GUEST_CR4, sr_cr4 sr OR 0x2000), (CR4_READ_SHADOW, sr_cr4 sr), (GUEST_IA32_EFER, sr_efer sr),
      (GUEST_GDTR_BASE, dt_base (sr_gdt sr)), (GUEST_GDTR_LIMIT, ucast (dt_limit (sr_gdt sr))),
      (GUEST_IDTR_BASE, dt_base (sr_idt sr)), (GUEST_IDTR_LIMIT, ucast (dt_limit (sr_idt sr))), (GUEST_DR7, 0),
      (GUEST_CS_BASE, seg_base (sr_cs sr)), (GUEST_DS_BASE, seg_base (sr_ds sr)),
      (GUEST_ES_BASE, seg_base (sr_es sr)), (GUEST_GS_BASE, seg_base (sr_gs sr)),
      (GUEST_SS_BASE, seg_base (sr_ss sr)), (GUEST_FS_BASE, seg_base (sr_fs sr)),
      (GUEST_TR_BASE, seg_base (sr_tr sr)), (GUEST_CS_AR_BYTES, ucast (vmx_segment_access_rights (sr_cs sr))),
      (GUEST_DS_AR_BYTES, ucast (vmx_segment_access_rights (sr_ds sr))),
      (GUEST_ES_AR_BYTES, ucast (vmx_segment_access_rights (sr_es sr))),
      (GUEST_FS_AR_BYTES, ucast (vmx_segment_access_rights (sr_fs sr))),
      (GUEST_GS_AR_BYTES, ucast (vmx_segment_access_rights (sr_gs sr))),
      (GUEST_SS_AR_BYTES, ucast (vmx_segment_access_rights (sr_ss sr))),
      (GUEST_TR_AR_BYTES, ucast (vmx_segment_access_rights (sr_tr sr))),
      (GUEST_CS_LIMIT, ucast (seg_limit (sr_cs sr))), (GUEST_DS_LIMIT, ucast (seg_limit (sr_ds sr))),
      (GUEST_ES_LIMIT, ucast (seg_limit (sr_es sr))), (GUEST_FS_LIMIT, ucast (seg_limit (sr_fs sr))),
      (GUEST_GS_LIMIT, ucast (seg_limit (sr_gs sr))), (GUEST_SS_LIMIT, ucast (seg_limit (sr_ss sr))),
      (GUEST_CS_SELECTOR, ucast (seg_selector (sr_cs sr))), (GUEST_DS_SELECTOR, ucast (seg_selector (sr_ds sr))),
      (GUEST_ES_SELECTOR, ucast (seg_selector (sr_es sr))), (GUEST_FS_SELECTOR, ucast (seg_selector (sr_fs sr))),
      (GUEST_GS_SELECTOR, ucast (seg_selector (sr_gs sr))), (GUEST_SS_SELECTOR, ucast (seg_selector (sr_ss sr))),
      (GUEST_TR_SELECTOR, ucast (seg_selector (sr_tr sr))),
      (GUEST_LDTR_SELECTOR, ucast (seg_selector (sr_ldt sr))),
      (GUEST_LDTR_AR_BYTES, ucast (vmx_segment_access_rights (sr_ldt sr))),
      (GUEST_LDTR_BASE, seg_base (sr_ldt sr)), (GUEST_LDTR_LIMIT, ucast (seg_limit (sr_ldt sr))),
      (GUEST_TR_BASE, seg_base (sr_tr sr)), (GUEST_TR_AR_BYTES, ucast (vmx_segment_access_rights (sr_tr sr))),
      (GUEST_TR_LIMIT, ucast (seg_limit (sr_tr sr))), (GUEST_SYSENTER_CS, 0), (GUEST_SYSENTER_ESP, 0),
      (GUEST_SYSENTER_EIP, 0), (GUEST_ACTIVITY_STATE, 0), (GUEST_INTERRUPTIBILITY_INFO, 0),
      (GUEST_PENDING_DBG_EXCEPTIONS, 0), (GUEST_IA32_DEBUGCTL, 0), (VM_ENTRY_INTR_INFO_FIELD, 0)]"

definition vmx_setup_initial_guest_state :: "vmx_engine \<Rightarrow> slimvm_config \<Rightarrow> vmx_vcpu \<Rightarrow> int \<times> vmx_vcpu" where
  "vmx_setup_initial_guest_state e conf vcpu =
     (let cr4 = sr_cr4 (sys_regs conf) in
      if \<not> ve_has_pcid e \<and> cr4 AND 0x20000 \<noteq> 0 then (- 1, vcpu)
      else if \<not> ve_has_osxsave e \<and> cr4 AND 0x40000 \<noteq> 0 then (- 1, vcpu)
      else if \<not> ve_has_fsgsbase e \<and> cr4 AND 0x10000 \<noteq> 0 then (- 1, vcpu)
      else (0, vmcs_writes (guest_state_writes (sys_regs conf)) vcpu))"

section \<open>The VMCS\<close>

text \<open>What is read from the host for the constant part of the host state.\<close>

record host_const =
  hk_cr0 :: u64
  hk_cr3 :: u64
  hk_cr4 :: u64
  hk_idt :: u64
  hk_rip :: u64
  hk_sysenter_cs :: u64
  hk_sysenter_eip :: u64
  hk_pat :: u64
  hk_fs_base :: u64
  hk_gs_base :: u64

abbreviation (input) VM_EXIT_LOAD_IA32_PAT :: u32 where "VM_EXIT_LOAD_IA32_PAT \<equiv> 0x80000"
abbreviation (input) VM_EXIT_LOAD_IA32_EFER :: u32 where "VM_EXIT_LOAD_IA32_EFER \<equiv> 0x200000"
abbreviation (input) VM_ENTRY_IA32E_MODE :: u32 where "VM_ENTRY_IA32E_MODE \<equiv> 0x200"
abbreviation (input) VM_ENTRY_LOAD_IA32_EFER :: u32 where "VM_ENTRY_LOAD_IA32_EFER \<equiv> 0x8000"

definition vmx_setup_constant_host_state :: "host_const \<Rightarrow> vmcs_config \<Rightarrow> vmx_vcpu \<Rightarrow> vmx_vcpu" where
  "vmx_setup_constant_host_state hk conf vcpu =
     vmcs_writes
      ([(HOST_CR0, hk_cr0 hk AND NOT 0x8), (HOST_CR4, hk_cr4 hk), (HOST_CR3, hk_cr3 hk),
        (HOST_CS_SELECTOR, 0x10), (HOST_DS_SELECTOR, 0x18), (HOST_ES_SELECTOR, 0x18), (HOST_SS_SELECTOR, 0x18),
        (HOST_TR_SELECTOR, 0x40), (HOST_IDTR_BASE, hk_idt hk), (HOST_RIP, hk_rip hk),
        (HOST_IA32_SYSENTER_CS, ucast (msr_low (hk_sysenter_cs hk))), (HOST_IA32_SYSENTER_EIP, hk_sysenter_eip hk)]
       @ (if vmexit_ctrl conf AND VM_EXIT_LOAD_IA32_PAT \<noteq> 0 then [(HOST_IA32_PAT, hk_pat hk)] else [])
       @ [(HOST_FS_SELECTOR, 0), (HOST_GS_SELECTOR, 0), (HOST_FS_BASE, hk_fs_base hk), (HOST_GS_BASE, hk_gs_base hk)]) vcpu"

definition cpu_has_secondary_exec_ctrls :: "vmcs_config \<Rightarrow> bool" where
  "cpu_has_secondary_exec_ctrls conf \<longleftrightarrow> cpu_based_exec_ctrl conf AND CPU_BASED_ACTIVATE_SECONDARY_CONTROLS \<noteq> 0"

text \<open>The set-up also changes the engine's configuration.\<close>

definition vmx_setup_vmcs :: "host_const \<Rightarrow> (u32 \<Rightarrow> u64 option) \<Rightarrow> (u32 \<Rightarrow> bool) \<Rightarrow> u64 \<times> u64 \<times> u64 \<Rightarrow> u64
    \<Rightarrow> vmcs_config \<Rightarrow> vmx_vcpu \<Rightarrow> vmcs_config \<times> vmx_vcpu" where
  "vmx_setup_vmcs hk rd wr pa eptp_value conf vcpu =
     (let v1 = vmcs_writes
            ([(VIRTUAL_PROCESSOR_ID, of_nat (vpid vcpu)), (VMCS_LINK_POINTER, - 1),
              (PIN_BASED_VM_EXEC_CONTROL, ucast (pin_based_exec_ctrl conf)),
              (CPU_BASED_VM_EXEC_CONTROL, ucast (cpu_based_exec_ctrl conf))]
             @ (if cpu_has_secondary_exec_ctrls conf
                then [(SECONDARY_VM_EXEC_CONTROL, ucast (cpu_based_2nd_exec_ctrl conf))] else [])
             @ [(EPT_POINTER, eptp_value), (PAGE_FAULT_ERROR_CODE_MASK, 0), (PAGE_FAULT_ERROR_CODE_MATCH, 0),
                (CR3_TARGET_COUNT, 0)]) vcpu;
          v2 = setup_msr pa (init_msrs rd wr v1);
          conf1 = conf\<lparr>vmentry_ctrl := (vmentry_ctrl conf OR VM_ENTRY_IA32E_MODE) AND NOT VM_ENTRY_LOAD_IA32_EFER,
                       vmexit_ctrl := vmexit_ctrl conf AND NOT VM_EXIT_LOAD_IA32_EFER\<rparr>;
          v3 = vmcs_writes
            [(VM_EXIT_CONTROLS, ucast (vmexit_ctrl conf1)), (VM_ENTRY_CONTROLS, ucast (vmentry_ctrl conf1)),
             (CR0_GUEST_HOST_MASK, - 1), (CR4_GUEST_HOST_MASK, - 1), (TSC_OFFSET, 0), (EXCEPTION_BITMAP, 0)] v2
      in (conf1, vmx_setup_constant_host_state hk conf1 v3))"

section \<open>Registers\<close>

definition vmx_setup_registers :: "slimvm_config \<Rightarrow> vmx_vcpu \<Rightarrow> vmx_vcpu" where
  "vmx_setup_registers conf vcpu =
     (let ur = user_regs conf in
      vmcs_writes [(GUEST_RIP, rip ur), (GUEST_RSP, rsp ur), (GUEST_RFLAGS, rflags ur)]
       (vcpu\<lparr>regs := (regs vcpu)(VCPU_REGS_RAX := rax ur, VCPU_REGS_RBX := rbx ur, VCPU_REGS_RCX := rcx ur, VCPU_REGS_RDX := rdx ur,
          VCPU_REGS_RSI := rsi ur, VCPU_REGS_RDI := rdi ur, VCPU_REGS_RBP := rbp ur, VCPU_REGS_R8 := r8 ur, VCPU_REGS_R9 := r9 ur,
          VCPU_REGS_R10 := r10 ur, VCPU_REGS_R11 := r11 ur, VCPU_REGS_R12 := r12 ur, VCPU_REGS_R13 := r13 ur,
          VCPU_REGS_R14 := r14 ur, VCPU_REGS_R15 := r15 ur)\<rparr>))"

text \<open>The instruction pointer, the stack pointer and the flags are in the VMCS, so the vcpu is loaded first.\<close>

definition vmx_copy_registers_to_conf :: "host_cpu \<Rightarrow> nat \<Rightarrow> vmx_vcpu \<times> vmcs_cpus \<Rightarrow> slimvm_config
    \<Rightarrow> slimvm_config \<times> vmx_vcpu \<times> vmcs_cpus" where
  "vmx_copy_registers_to_conf hc c = (\<lambda>(vcpu, s) conf.
     let rg = regs vcpu;
         conf1 = conf\<lparr>user_regs := (user_regs conf)\<lparr>rax := rg VCPU_REGS_RAX, rbx := rg VCPU_REGS_RBX, rcx := rg VCPU_REGS_RCX,
           rdx := rg VCPU_REGS_RDX, rsi := rg VCPU_REGS_RSI, rdi := rg VCPU_REGS_RDI, rbp := rg VCPU_REGS_RBP, r8 := rg VCPU_REGS_R8,
           r9 := rg VCPU_REGS_R9, r10 := rg VCPU_REGS_R10, r11 := rg VCPU_REGS_R11, r12 := rg VCPU_REGS_R12, r13 := rg VCPU_REGS_R13,
           r14 := rg VCPU_REGS_R14, r15 := rg VCPU_REGS_R15\<rparr>\<rparr>;
         (vcpu1, s1) = vmx_get_cpu hc c (vcpu, s)
     in (conf1\<lparr>user_regs := (user_regs conf1)\<lparr>rip := vmcs_readl vcpu1 GUEST_RIP, rsp := vmcs_readl vcpu1 GUEST_RSP,
           rflags := vmcs_readl vcpu1 GUEST_RFLAGS\<rparr>\<rparr>, vcpu1, s1))"

definition vmx_copy_status_to_conf :: "vmx_vcpu \<Rightarrow> slimvm_config \<Rightarrow> slimvm_config" where
  "vmx_copy_status_to_conf vcpu conf = conf\<lparr>conf_status := status vcpu\<rparr>"

text \<open>The privilege level of the guest, from the access rights of its stack segment.\<close>

definition vmx_read_guest_seg_ar :: "host_cpu \<Rightarrow> nat \<Rightarrow> vmx_vcpu \<times> vmcs_cpus \<Rightarrow> vmcs_field \<Rightarrow> u32 \<times> vmx_vcpu \<times> vmcs_cpus" where
  "vmx_read_guest_seg_ar hc c = (\<lambda>(vcpu, s) ar_bytes.
     let (vcpu1, s1) = vmx_get_cpu hc c (vcpu, s) in (vmcs_read32 vcpu1 ar_bytes, vcpu1, s1))"

definition vmx_get_cpl :: "host_cpu \<Rightarrow> nat \<Rightarrow> vmx_vcpu \<times> vmcs_cpus \<Rightarrow> u32 \<times> vmx_vcpu \<times> vmcs_cpus" where
  "vmx_get_cpl hc c x = (case vmx_read_guest_seg_ar hc c x GUEST_SS_AR_BYTES of (ar, y) \<Rightarrow> (drop_bit 5 ar AND 3, y))"

section \<open>Creation and destruction\<close>

text \<open>The outcome of each allocation (\<open>None\<close>: it fails; arrays come with what the memory holds), the MSRs, the
  CPU and the host's values.\<close>

record create_env =
  ce_vcpu :: "kptr option"
  ce_vmcs :: "kptr option"
  ce_guest_msrs :: "(kptr \<times> msr_entry list) option"
  ce_host_msrs :: "(kptr \<times> msr_entry list) option"
  ce_rdmsr :: "u32 \<Rightarrow> u64 option"
  ce_wrmsr :: "u32 \<Rightarrow> bool"
  ce_pa :: "u64 \<times> u64 \<times> u64"
  ce_cpu :: nat
  ce_host :: host_const
  ce_hc :: host_cpu

record vmx_kernel =
  vk_engine :: vmx_engine
  vk_cpus :: vmcs_cpus
  vk_mem :: "kptr set"

text \<open>Signals a vcpu thread takes: all but \<^verbatim>\<open>SIGKILL\<close>, \<^verbatim>\<open>SIGSTOP\<close>, \<^verbatim>\<open>SIG_BOUNCE\<close> and \<^verbatim>\<open>SIGPROF\<close> are blocked.\<close>

definition vcpu_sigset :: u64 where
  "vcpu_sigset = - 1 AND NOT (0x100 OR 0x40000 OR 0x10000 OR 0x4000000)"

definition kalloc :: "kptr \<Rightarrow> vmx_kernel \<Rightarrow> vmx_kernel" where
  "kalloc p k = k\<lparr>vk_mem := insert p (vk_mem k)\<rparr>"

definition kfree :: "kptr \<Rightarrow> vmx_kernel \<Rightarrow> vmx_kernel" where
  "kfree p k = k\<lparr>vk_mem := vk_mem k - {p}\<rparr>"

definition set_vpids :: "bitmap \<Rightarrow> vmx_kernel \<Rightarrow> vmx_kernel" where
  "set_vpids bm k = k\<lparr>vk_engine := (vk_engine k)\<lparr>ve_vpid_bitmap := bm\<rparr>\<rparr>"

text \<open>The labels the error paths jump to, from the last one up.\<close>

definition fail_vmcs :: "vmx_vcpu \<Rightarrow> vmx_kernel \<Rightarrow> vmx_kernel" where
  "fail_vmcs vcpu k = kfree (self vcpu) k"

definition fail_vpid :: "vmx_vcpu \<Rightarrow> vmx_kernel \<Rightarrow> vmx_kernel" where
  "fail_vpid vcpu k = fail_vmcs vcpu (kfree (vmcs_page vcpu) k)"

definition fail_guest_msrs :: "vmx_vcpu \<Rightarrow> vmx_kernel \<Rightarrow> vmx_kernel" where
  "fail_guest_msrs vcpu k = fail_vpid vcpu (set_vpids (vmx_free_vpid (vpid vcpu) (ve_vpid_bitmap (vk_engine k))) k)"

definition fail_host_msrs :: "vmx_vcpu \<Rightarrow> vmx_kernel \<Rightarrow> vmx_kernel" where
  "fail_host_msrs vcpu k = fail_guest_msrs vcpu (kfree (guest_msrs_at vcpu) k)"

definition fail_initial_guest_state :: "vmx_vcpu \<Rightarrow> vmx_kernel \<Rightarrow> vmx_kernel" where
  "fail_initial_guest_state vcpu k = fail_host_msrs vcpu (kfree (host_msrs_at vcpu) k)"

text \<open>From the allocations on: load the vcpu, fill the VMCS and the registers.\<close>

definition init_vcpu :: "create_env \<Rightarrow> slimvm_config \<Rightarrow> u64 \<Rightarrow> vmx_vcpu \<Rightarrow> vmx_kernel \<Rightarrow> vmx_vcpu option \<times> vmx_kernel" where
  "init_vcpu ce conf eptp_value vcpu k =
     (let (v1, s1) = vmx_get_cpu (ce_hc ce) (ce_cpu ce) (vcpu, vk_cpus k);
          (c1, v2) = vmx_setup_vmcs (ce_host ce) (ce_rdmsr ce) (ce_wrmsr ce) (ce_pa ce) eptp_value (ve_config (vk_engine k)) v1;
          k1 = k\<lparr>vk_cpus := s1, vk_engine := (vk_engine k)\<lparr>ve_config := c1\<rparr>\<rparr>;
          (r, v3) = vmx_setup_initial_guest_state (vk_engine k1) conf v2
      in if r \<noteq> 0 then (None, fail_initial_guest_state v3 k1)
         else (Some ((vmx_setup_registers conf v3)\<lparr>sigset_active := True, sigset := vcpu_sigset,
                 bounce_pending := False, nmi_pending := False\<rparr>), k1))"

definition vmx_create_vcpu :: "create_env \<Rightarrow> slimvm_config \<Rightarrow> u64 \<Rightarrow> nat \<Rightarrow> vmx_kernel \<Rightarrow> vmx_vcpu option \<times> vmx_kernel" where
  "vmx_create_vcpu ce conf eptp_value no k =
     (case ce_vcpu ce of
        None \<Rightarrow> (None, k)
      | Some p \<Rightarrow>
        (let v0 = vmx_vcpu_zero\<lparr>self := p, vcpu_no := no\<rparr>; k0 = kalloc p k in
         case ce_vmcs ce of
           None \<Rightarrow> (None, fail_vmcs v0 k0)
         | Some q \<Rightarrow>
           (let k1 = kalloc q k0;
                (n, bm) = vmx_allocate_vpid (ve_vpid_bitmap (vk_engine k1));
                v1 = v0\<lparr>vmcs_page := q, vpid := n\<rparr>;
                k2 = set_vpids bm k1
            in if n = 0 then (None, fail_vpid v1 k2)
               else
                 (let v2 = v1\<lparr>cpu := - 1\<rparr> in
                  case ce_guest_msrs ce of
                    None \<Rightarrow> (None, fail_guest_msrs v2 k2)
                  | Some (a, gm) \<Rightarrow>
                    (let v3 = v2\<lparr>guest_msrs_at := a, guest_msrs := gm\<rparr>; k3 = kalloc a k2 in
                     case ce_host_msrs ce of
                       None \<Rightarrow> (None, fail_host_msrs v3 k3)
                     | Some (b, hm) \<Rightarrow>
                         init_vcpu ce conf eptp_value (v3\<lparr>host_msrs_at := b, host_msrs := hm\<rparr>) (kalloc b k3))))))"

text \<open>The invalidation of the EPT context has no effect on the state modelled here.\<close>

definition vmx_destroy_vcpu :: "host_cpu \<Rightarrow> nat \<Rightarrow> vmx_vcpu \<Rightarrow> vmx_kernel \<Rightarrow> vmx_kernel" where
  "vmx_destroy_vcpu hc c vcpu k =
     (let k1 = k\<lparr>vk_cpus := unload_vcpu hc c vcpu (vk_cpus k)\<rparr>;
          k2 = set_vpids (vmx_free_vpid (vpid vcpu) (ve_vpid_bitmap (vk_engine k1))) k1
      in kfree (self vcpu) (kfree (guest_msrs_at vcpu) (kfree (host_msrs_at vcpu) (kfree (vmcs_page vcpu) k2))))"

section \<open>What setting up leaves alone\<close>

text \<open>The identity of a vcpu: where it, its VMCS and its tables are, and its VPID.\<close>

definition vcpu_id :: "vmx_vcpu \<Rightarrow> kptr \<times> kptr \<times> nat \<times> kptr \<times> kptr" where
  "vcpu_id v = (self v, vmcs_page v, vpid v, guest_msrs_at v, host_msrs_at v)"

lemma vmcs_writes_eq: "vmcs_writes ws v = v\<lparr>vmcs := fold (\<lambda>(f, x) m. m(f := x)) ws (vmcs v)\<rparr>"
  unfolding vmcs_writes_def by (induction ws arbitrary: v) (auto simp: vmcs_writel_def)

lemma vmcs_writes_other: "f \<notin> fst ` set ws \<Longrightarrow> vmcs (vmcs_writes ws v) f = vmcs v f"
  unfolding vmcs_writes_def by (induction ws arbitrary: v) (auto simp: vmcs_writel_def)

lemma vcpu_id_setup_one [simp]: "vcpu_id (fst (snd (setup_one_msr m (v, n)))) = vcpu_id v"
  by (simp add: vcpu_id_def setup_one_msr_def move_msr_up_def Let_def)

lemma vcpu_id_append [simp]: "vcpu_id (append_msr m d v) = vcpu_id v"
  by (simp add: vcpu_id_def append_msr_def Let_def)

lemma vcpu_id_init_fold: "vcpu_id (fold (init_shared_msr rd wr) ms v) = vcpu_id v"
  by (induction ms arbitrary: v) (auto simp: init_shared_msr_def split: option.splits)

lemma vcpu_id_init [simp]: "vcpu_id (init_msrs rd wr v) = vcpu_id v"
  by (simp add: init_msrs_def vcpu_id_init_fold)

lemma vcpu_id_update [simp]:
  "vcpu_id (v\<lparr>msr_index := x\<rparr>) = vcpu_id v" "vcpu_id (v\<lparr>save_nmsrs := n\<rparr>) = vcpu_id v" "vcpu_id (v\<lparr>vmcs := f\<rparr>) = vcpu_id v"
  "vcpu_id (v\<lparr>regs := r\<rparr>) = vcpu_id v"
  by (simp_all add: vcpu_id_def)

lemma vcpu_id_setup_msr [simp]: "vcpu_id (setup_msr pa v) = vcpu_id v"
proof -
  have one: "vcpu_id w' = vcpu_id w" if "setup_one_msr m (w, n) = (i, w', n')" for m w n i w' n'
    using vcpu_id_setup_one [of m w n] that by simp
  show ?thesis
    unfolding setup_msr_def Let_def
    by (simp only: vmcs_access split: prod.split) (auto dest!: one)
qed

lemma vcpu_id_writes [simp]: "vcpu_id (vmcs_writes ws v) = vcpu_id v"
  by (simp add: vmcs_writes_eq)

lemma vcpu_id_host_state [simp]: "vcpu_id (vmx_setup_constant_host_state hk conf v) = vcpu_id v"
  by (simp add: vmx_setup_constant_host_state_def)

lemma vcpu_id_vmcs [simp]: "vcpu_id (snd (vmx_setup_vmcs hk rd wr pa ep conf v)) = vcpu_id v"
  by (simp add: vmx_setup_vmcs_def Let_def)

lemma vcpu_id_initial [simp]: "vcpu_id (snd (vmx_setup_initial_guest_state e conf v)) = vcpu_id v"
  by (simp add: vmx_setup_initial_guest_state_def Let_def)

lemma vcpu_id_registers [simp]: "vcpu_id (vmx_setup_registers conf v) = vcpu_id v"
  by (simp add: vmx_setup_registers_def Let_def)

lemma vcpu_id_load [simp]: "vcpu_id (fst (do_load_vcpu hc c (v, s))) = vcpu_id v"
  by (simp add: do_load_vcpu_def Let_def vmcs_access vmx_make_request_def vcpu_id_def)

text \<open>Loading a vcpu changes none of the guest's registers.\<close>

lemma load_guest_regs:
  "regs (fst (do_load_vcpu hc c (v, s))) = regs v"
  "f \<notin> {HOST_TR_BASE, HOST_GDTR_BASE, HOST_IA32_SYSENTER_ESP} \<Longrightarrow> vmcs (fst (do_load_vcpu hc c (v, s))) f = vmcs v f"
  by (simp_all add: do_load_vcpu_def Let_def vmcs_access vmx_make_request_def)

section \<open>Creation, case by case\<close>

text \<open>What initialisation returns: a vcpu with the identity it was given, or everything freed.\<close>

lemma init_vcpu_result:
  assumes "init_vcpu ce conf ep v k = (res, k')"
  shows "res = None \<Longrightarrow> \<exists>w c1. vcpu_id w = vcpu_id v
      \<and> k' = fail_initial_guest_state w (k\<lparr>vk_cpus := snd (do_load_vcpu (ce_hc ce) (ce_cpu ce) (v, vk_cpus k)),
              vk_engine := (vk_engine k)\<lparr>ve_config := c1\<rparr>\<rparr>)"
    "res = Some w \<Longrightarrow> vcpu_id w = vcpu_id v \<and> vk_mem k' = vk_mem k
      \<and> ve_vpid_bitmap (vk_engine k') = ve_vpid_bitmap (vk_engine k)
      \<and> vk_cpus k' = snd (do_load_vcpu (ce_hc ce) (ce_cpu ce) (v, vk_cpus k))"
proof -
  obtain v1 s1 where l: "do_load_vcpu (ce_hc ce) (ce_cpu ce) (v, vk_cpus k) = (v1, s1)" by fastforce
  obtain c1 v2 where s: "vmx_setup_vmcs (ce_host ce) (ce_rdmsr ce) (ce_wrmsr ce) (ce_pa ce) ep (ve_config (vk_engine k)) v1 = (c1, v2)"
    by fastforce
  let ?e = "(vk_engine k)\<lparr>ve_config := c1\<rparr>"
  obtain r v3 where i: "vmx_setup_initial_guest_state ?e conf v2 = (r, v3)" by fastforce
  have id: "vcpu_id v3 = vcpu_id v"
    using vcpu_id_load [of "ce_hc ce" "ce_cpu ce" v "vk_cpus k"] l
      vcpu_id_vmcs [of "ce_host ce" "ce_rdmsr ce" "ce_wrmsr ce" "ce_pa ce" ep "ve_config (vk_engine k)" v1] s
      vcpu_id_initial [of ?e conf v2] i by simp
  have eq: "init_vcpu ce conf ep v k =
     (if r \<noteq> 0 then (None, fail_initial_guest_state v3 (k\<lparr>vk_cpus := s1, vk_engine := ?e\<rparr>))
      else (Some ((vmx_setup_registers conf v3)\<lparr>sigset_active := True, sigset := vcpu_sigset,
                 bounce_pending := False, nmi_pending := False\<rparr>), k\<lparr>vk_cpus := s1, vk_engine := ?e\<rparr>))"
    unfolding init_vcpu_def vmx_get_cpu_def l Let_def prod.case s by (simp add: i)
  show "\<exists>w c1. vcpu_id w = vcpu_id v
      \<and> k' = fail_initial_guest_state w (k\<lparr>vk_cpus := snd (do_load_vcpu (ce_hc ce) (ce_cpu ce) (v, vk_cpus k)),
              vk_engine := (vk_engine k)\<lparr>ve_config := c1\<rparr>\<rparr>)" if "res = None"
    using assms that id unfolding eq l by (intro exI [of _ v3] exI [of _ c1]) (auto split: if_splits)
  show "vcpu_id w = vcpu_id v \<and> vk_mem k' = vk_mem k \<and> ve_vpid_bitmap (vk_engine k') = ve_vpid_bitmap (vk_engine k)
      \<and> vk_cpus k' = snd (do_load_vcpu (ce_hc ce) (ce_cpu ce) (v, vk_cpus k))" if "res = Some w"
    using assms that id vcpu_id_registers [of conf v3] unfolding eq l by (auto simp: vcpu_id_def split: if_splits)
qed

lemma kalloc_simps [simp]:
  "vk_engine (kalloc p k) = vk_engine k" "vk_cpus (kalloc p k) = vk_cpus k" "vk_mem (kalloc p k) = insert p (vk_mem k)"
  "vk_engine (kfree p k) = vk_engine k" "vk_cpus (kfree p k) = vk_cpus k" "vk_mem (kfree p k) = vk_mem k - {p}"
  "vk_cpus (set_vpids bm k) = vk_cpus k" "vk_mem (set_vpids bm k) = vk_mem k"
  "ve_vpid_bitmap (vk_engine (set_vpids bm k)) = bm" "ve_config (vk_engine (set_vpids bm k)) = ve_config (vk_engine k)"
  by (simp_all add: kalloc_def kfree_def set_vpids_def)

lemmas fail_defs = fail_vmcs_def fail_vpid_def fail_guest_msrs_def fail_host_msrs_def fail_initial_guest_state_def

lemma vpid_taken:
  assumes "vmx_allocate_vpid bm = (n, bm')" "n \<noteq> 0"
  shows "\<not> bm n" "n < VMX_NR_VPIDS" "vmx_free_vpid n bm' = bm"
proof -
  have "n = find_first_zero_bit bm VMX_NR_VPIDS \<and> n < VMX_NR_VPIDS \<and> bm' = bitmap_set n bm"
    using assms by (auto simp: vmx_allocate_vpid_def Let_def split: if_splits)
  then show "\<not> bm n" "n < VMX_NR_VPIDS" "vmx_free_vpid n bm' = bm"
    using find_first_zero_bit_clear [of bm VMX_NR_VPIDS] assms(2)
    by (auto simp: vmx_free_vpid_def bitmap_set_def bitmap_clear_def fun_upd_idem)
qed

lemma vpid_refused: "bm 0 \<Longrightarrow> vmx_allocate_vpid bm = (0, bm') \<Longrightarrow> bm' = bm"
  using find_first_zero_bit_clear [of bm VMX_NR_VPIDS] by (auto simp: vmx_allocate_vpid_def Let_def split: if_splits)

text \<open>The addresses the allocators answer.\<close>

definition ce_addrs :: "create_env \<Rightarrow> kptr list" where
  "ce_addrs ce = (case ce_vcpu ce of None \<Rightarrow> [] | Some p \<Rightarrow> [p]) @ (case ce_vmcs ce of None \<Rightarrow> [] | Some q \<Rightarrow> [q])
     @ (case ce_guest_msrs ce of None \<Rightarrow> [] | Some (a, _) \<Rightarrow> [a]) @ (case ce_host_msrs ce of None \<Rightarrow> [] | Some (b, _) \<Rightarrow> [b])"

text \<open>Every way creation can go: it stops at an allocation with everything given back, or it initialises.\<close>

lemma vmx_create_vcpu_cases:
  assumes "ve_vpid_bitmap (vk_engine k) 0" "distinct (ce_addrs ce)" "set (ce_addrs ce) \<inter> vk_mem k = {}"
  obtains (stopped) k' where "vmx_create_vcpu ce conf ep no k = (None, k')" "vk_mem k' = vk_mem k"
      "ve_vpid_bitmap (vk_engine k') = ve_vpid_bitmap (vk_engine k)"
  | (inits) p q n bm a gm b hm where "ce_vcpu ce = Some p" "ce_vmcs ce = Some q" "ce_guest_msrs ce = Some (a, gm)"
      "ce_host_msrs ce = Some (b, hm)" "vmx_allocate_vpid (ve_vpid_bitmap (vk_engine k)) = (n, bm)" "n \<noteq> 0"
      "vmx_create_vcpu ce conf ep no k = init_vcpu ce conf ep
        (vmx_vcpu_zero\<lparr>self := p, vcpu_no := no, vmcs_page := q, vpid := n, cpu := - 1, guest_msrs_at := a, guest_msrs := gm,
           host_msrs_at := b, host_msrs := hm\<rparr>)
        (kalloc b (kalloc a (set_vpids bm (kalloc q (kalloc p k)))))"
proof -
  obtain n bm where a: "vmx_allocate_vpid (ve_vpid_bitmap (vk_engine k)) = (n, bm)" by fastforce
  note d = assms(2,3) [unfolded ce_addrs_def]
  show thesis
  proof (cases "ce_vcpu ce = None \<or> ce_vmcs ce = None \<or> n = 0 \<or> ce_guest_msrs ce = None \<or> ce_host_msrs ce = None")
    case True
    then have "fst (vmx_create_vcpu ce conf ep no k) = None \<and> vk_mem (snd (vmx_create_vcpu ce conf ep no k)) = vk_mem k
        \<and> ve_vpid_bitmap (vk_engine (snd (vmx_create_vcpu ce conf ep no k))) = ve_vpid_bitmap (vk_engine k)"
      using d a vpid_refused [of "ve_vpid_bitmap (vk_engine k)" bm] assms(1) vpid_taken(3) [OF a]
      by (auto simp: vmx_create_vcpu_def Let_def fail_defs split: option.splits)
    then show thesis by (intro stopped [of "snd (vmx_create_vcpu ce conf ep no k)"]) (auto simp: prod_eq_iff)
  next
    case False
    then obtain p q x y where e: "ce_vcpu ce = Some p" "ce_vmcs ce = Some q" "ce_guest_msrs ce = Some x" "ce_host_msrs ce = Some y"
      by auto
    show thesis
      by (rule inits [of p q "fst x" "snd x" "fst y" "snd y" n bm])
        (use e False a in \<open>auto simp: vmx_create_vcpu_def Let_def split: prod.splits\<close>)
  qed
qed

lemma destroy_result:
  "vk_mem (vmx_destroy_vcpu hc c v k) = vk_mem k - {self v, vmcs_page v, guest_msrs_at v, host_msrs_at v}"
  "ve_vpid_bitmap (vk_engine (vmx_destroy_vcpu hc c v k)) = vmx_free_vpid (vpid v) (ve_vpid_bitmap (vk_engine k))"
  by (auto simp: vmx_destroy_vcpu_def Let_def set_vpids_def kfree_def)

text \<open>A failed creation has given everything back.\<close>

lemma create_failed:
  assumes "ve_vpid_bitmap (vk_engine k) 0" "distinct (ce_addrs ce)" "set (ce_addrs ce) \<inter> vk_mem k = {}"
    and c: "vmx_create_vcpu ce conf ep no k = (None, k')"
  shows "vk_mem k' = vk_mem k \<and> ve_vpid_bitmap (vk_engine k') = ve_vpid_bitmap (vk_engine k)"
proof (cases rule: vmx_create_vcpu_cases [OF assms(1-3), where conf = conf and ep = ep and no = no])
  case (1 k1)
  then show ?thesis using c by simp
next
  case (2 p q n bm a gm b hm)
  have "distinct [p, q, a, b]" "{p, q, a, b} \<inter> vk_mem k = {}" using assms(2,3) 2 by (simp_all add: ce_addrs_def)
  with init_vcpu_result(1) [OF trans [OF 2(7) [symmetric] c] refl] vpid_taken(3) [OF 2(5,6)]
  show ?thesis by (auto simp: fail_defs vcpu_id_def)
qed

text \<open>The values an initialised vcpu starts with.\<close>

lemma init_vcpu_state:
  assumes "init_vcpu ce conf ep v k = (Some w, k')"
  shows "\<exists>x. w = (vmx_setup_registers conf (vmcs_writes (guest_state_writes (sys_regs conf)) x))
      \<lparr>sigset_active := True, sigset := vcpu_sigset, bounce_pending := False, nmi_pending := False\<rparr>"
  using assms
  by (auto simp: init_vcpu_def vmx_setup_initial_guest_state_def Let_def split: prod.splits if_splits)

lemma registers_written:
  "regs (vmx_setup_registers conf v) = (regs v)(VCPU_REGS_RAX := rax (user_regs conf), VCPU_REGS_RBX := rbx (user_regs conf),
     VCPU_REGS_RCX := rcx (user_regs conf), VCPU_REGS_RDX := rdx (user_regs conf), VCPU_REGS_RSI := rsi (user_regs conf),
     VCPU_REGS_RDI := rdi (user_regs conf), VCPU_REGS_RBP := rbp (user_regs conf), VCPU_REGS_R8 := r8 (user_regs conf),
     VCPU_REGS_R9 := r9 (user_regs conf), VCPU_REGS_R10 := r10 (user_regs conf), VCPU_REGS_R11 := r11 (user_regs conf),
     VCPU_REGS_R12 := r12 (user_regs conf), VCPU_REGS_R13 := r13 (user_regs conf), VCPU_REGS_R14 := r14 (user_regs conf),
     VCPU_REGS_R15 := r15 (user_regs conf))"
  "vmcs (vmx_setup_registers conf v) GUEST_RIP = rip (user_regs conf)"
  "vmcs (vmx_setup_registers conf v) GUEST_RSP = rsp (user_regs conf)"
  "vmcs (vmx_setup_registers conf v) GUEST_RFLAGS = rflags (user_regs conf)"
  "f \<notin> {GUEST_RIP, GUEST_RSP, GUEST_RFLAGS} \<Longrightarrow> vmcs (vmx_setup_registers conf v) f = vmcs v f"
  by (simp_all add: vmx_setup_registers_def Let_def vmcs_writes_eq)

lemma guest_crs_written:
  "vmcs (vmcs_writes (guest_state_writes sr) x) GUEST_CR0 = sr_cr0 sr OR 0x20"
  "vmcs (vmcs_writes (guest_state_writes sr) x) CR0_READ_SHADOW = sr_cr0 sr"
  "vmcs (vmcs_writes (guest_state_writes sr) x) GUEST_CR3 = sr_cr3 sr"
  "vmcs (vmcs_writes (guest_state_writes sr) x) GUEST_CR4 = sr_cr4 sr OR 0x2000"
  "vmcs (vmcs_writes (guest_state_writes sr) x) CR4_READ_SHADOW = sr_cr4 sr"
  "vmcs (vmcs_writes (guest_state_writes sr) x) GUEST_SS_AR_BYTES = ucast (vmx_segment_access_rights (sr_ss sr))"
  "vmcs (vmcs_writes (guest_state_writes sr) x) VM_ENTRY_INTR_INFO_FIELD = 0"
  by (simp_all add: vmcs_writes_eq guest_state_writes_def)

text \<open>Access rights: the privilege level is the segment's, and no reserved bit is set.\<close>

lemma access_rights_dpl:
  assumes "seg_unusable sg = 0" "seg_present sg \<noteq> 0"
  shows "drop_bit 5 (vmx_segment_access_rights sg) AND 3 = ucast (seg_dpl sg AND 3)"
proof (rule bit_word_eqI)
  fix n :: nat
  have three: "(3 :: u32) = mask 2" "(3 :: u8) = mask 2" by (simp_all add: mask_eq_decr_exp)
  have fifteen: "(15 :: u8) = mask 4" by (simp add: mask_eq_decr_exp)
  consider "n = 0" | "n = 1" | "2 \<le> n" by linarith
  then show "bit (drop_bit 5 (vmx_segment_access_rights sg) AND 3) n = bit (ucast (seg_dpl sg AND 3) :: u32) n"
    using assms
    by cases (simp_all add: vmx_segment_access_rights_def three fifteen bit_simps bit_1_iff)
qed

text \<open>The instances of the examples: an engine on a processor without PCID, and configurations that do and do not ask for it.\<close>

definition segment_example :: slimvm_segment where
  "segment_example = \<lparr>seg_base = 0, seg_limit = 0, seg_selector = 0, seg_type = 3, seg_present = 1, seg_dpl = 3, seg_db = 0, seg_s = 1,
     seg_l = 0, seg_g = 1, seg_avl = 0, seg_unusable = 0\<rparr>"

definition conf_example :: "u64 \<Rightarrow> slimvm_config" where
  "conf_example cr4 =
    \<lparr>user_regs = \<lparr>rax = 1, rbx = 2, rcx = 3, rdx = 4, rsi = 5, rdi = 6, rsp = 7, rbp = 8, r8 = 9, r9 = 10, r10 = 11, r11 = 12,
       r12 = 13, r13 = 14, r14 = 15, r15 = 16, rip = 17, rflags = 2\<rparr>,
     sys_regs = \<lparr>sr_cs = segment_example, sr_ds = segment_example, sr_es = segment_example, sr_fs = segment_example, sr_gs = segment_example,
       sr_ss = segment_example, sr_tr = segment_example, sr_ldt = segment_example, sr_gdt = \<lparr>dt_base = 0, dt_limit = 0\<rparr>,
       sr_idt = \<lparr>dt_base = 0, dt_limit = 0\<rparr>, sr_cr0 = 0x80000001, sr_cr2 = 0, sr_cr3 = 0x5000, sr_cr4 = cr4, sr_cr8 = 0,
       sr_efer = 0x500, sr_apic_base = 0\<rparr>,
     conf_sid = 0, conf_status = 0, conf_vcpu = 0, conf_page_fault_physical = 0, conf_mem_region_num = 0, conf_mem_region_addr = 0\<rparr>"

definition create_example :: "kptr \<Rightarrow> create_env" where
  "create_example q = \<lparr>ce_vcpu = Some 7, ce_vmcs = Some q,
     ce_guest_msrs = Some (20, replicate NR_MSRS \<lparr>msr_idx = 0, msr_reserved = 0, msr_data = 0\<rparr>),
     ce_host_msrs = Some (21, replicate NR_MSRS \<lparr>msr_idx = 0, msr_reserved = 0, msr_data = 0\<rparr>),
     ce_rdmsr = (\<lambda>_. None), ce_wrmsr = (\<lambda>_. False), ce_pa = (0, 0, 0), ce_cpu = 0,
     ce_host = \<lparr>hk_cr0 = 0, hk_cr3 = 0, hk_cr4 = 0, hk_idt = 0, hk_rip = 0, hk_sysenter_cs = 0, hk_sysenter_eip = 0, hk_pat = 0,
       hk_fs_base = 0, hk_gs_base = 0\<rparr>,
     ce_hc = host_cpu_example\<rparr>"

definition kernel_example :: vmx_kernel where
  "kernel_example = \<lparr>vk_engine = (engine_example (\<lambda>_. False))\<lparr>ve_vpid_bitmap := bitmap_set 0 (\<lambda>_. False)\<rparr>, vk_cpus = cpus_example, vk_mem = {}\<rparr>"

lemma vpid_example: "vmx_allocate_vpid (bitmap_set 0 (\<lambda>_. False)) = (1, bitmap_set 1 (bitmap_set 0 (\<lambda>_. False)))"
proof -
  let ?b = "bitmap_set 0 (\<lambda>_. False)" let ?n = "find_first_zero_bit ?b VMX_NR_VPIDS"
  have one: "(1 :: nat) < VMX_NR_VPIDS" by simp
  have "\<not> ?n < VMX_NR_VPIDS \<Longrightarrow> ?b 1" by (rule find_first_zero_bit_full [OF _ one])
  then have lt: "?n < VMX_NR_VPIDS" by (auto simp: bitmap_set_def)
  have "?b j \<longleftrightarrow> j = 0" for j by (simp add: bitmap_set_def)
  moreover have "\<not> ?b ?n" by (rule find_first_zero_bit_clear [OF lt])
  ultimately have "?n \<noteq> 0" "\<not> 1 < ?n" using find_first_zero_bit_below [of 1 ?b VMX_NR_VPIDS] by auto
  then have "?n = 1" by linarith
  then show ?thesis by (simp add: vmx_allocate_vpid_def Let_def)
qed

section \<open>Properties\<close>

text \<open>C34. Creating and destroying a vcpu balance.  Creation fails at any of its allocations, for want of a
  VPID or because of the configuration, and then every object and the VPID have been given back.
  When it succeeds, the vcpu owns four new objects and a VPID that was free and is not the host's,
  and destroying it, on any CPU, gives exactly these back.\<close>

theorem vcpu_create_destroy:
  assumes "ve_vpid_bitmap (vk_engine k) 0" "distinct (ce_addrs ce)" "set (ce_addrs ce) \<inter> vk_mem k = {}"
    and c: "vmx_create_vcpu ce conf ep no k = (res, k')"
  shows "case res of
      None \<Rightarrow> vk_mem k' = vk_mem k \<and> ve_vpid_bitmap (vk_engine k') = ve_vpid_bitmap (vk_engine k)
    | Some v \<Rightarrow> 0 < vpid v \<and> vpid v < VMX_NR_VPIDS \<and> \<not> ve_vpid_bitmap (vk_engine k) (vpid v) \<and> ve_vpid_bitmap (vk_engine k') (vpid v)
        \<and> vk_mem k' = vk_mem k \<union> set (ce_addrs ce) \<and> length (ce_addrs ce) = 4
        \<and> (\<forall>hc cp. vk_mem (vmx_destroy_vcpu hc cp v k') = vk_mem k
             \<and> ve_vpid_bitmap (vk_engine (vmx_destroy_vcpu hc cp v k')) = ve_vpid_bitmap (vk_engine k))"
proof (cases rule: vmx_create_vcpu_cases [OF assms(1-3), where conf = conf and ep = ep and no = no])
  case (1 k1)
  then show ?thesis using c by simp
next
  case (2 p q n bm a gm b hm)
  note t = vpid_taken [OF 2(5,6)]
  have bm: "bm n" using 2(5,6) by (auto simp: vmx_allocate_vpid_def Let_def bitmap_set_def split: if_splits)
  have addrs: "ce_addrs ce = [p, q, a, b]" by (simp add: ce_addrs_def 2)
  have d: "distinct [p, q, a, b]" "{p, q, a, b} \<inter> vk_mem k = {}" using assms(2,3) by (simp_all add: addrs)
  note r = init_vcpu_result [OF trans [OF 2(7) [symmetric] c]]
  show ?thesis
  proof (cases res)
    case None
    then show ?thesis using create_failed [OF assms(1-3)] c by simp
  next
    case (Some v)
    from r(2) [OF Some] show ?thesis
      using d t bm 2(6) by (auto simp: Some addrs vcpu_id_def destroy_result)
  qed
qed

theorem vcpu_create_destroy_witness:
  "\<exists>v k'. vmx_create_vcpu (create_example 9) (conf_example 0) 0 0 kernel_example = (Some v, k')
    \<and> vk_mem k' = {7, 9, 20, 21} \<and> vk_mem (vmx_destroy_vcpu host_cpu_example 1 v k') = {}"
proof -
  obtain res k' where c: "vmx_create_vcpu (create_example 9) (conf_example 0) 0 0 kernel_example = (res, k')" by fastforce
  have a: "ce_addrs (create_example 9) = [7, 9, 20, 21]" by (simp add: ce_addrs_def create_example_def)
  have b: "ve_vpid_bitmap (vk_engine kernel_example) 0" "vk_mem kernel_example = {}"
    by (simp_all add: kernel_example_def bitmap_set_def)
  have "fst (vmx_create_vcpu (create_example 9) (conf_example 0) 0 0 kernel_example) \<noteq> None"
    by (simp add: vmx_create_vcpu_def Let_def create_example_def kernel_example_def vpid_example init_vcpu_def
        vmx_setup_initial_guest_state_def conf_example_def split: prod.split)
  then obtain v where v: "res = Some v" using c by auto
  show ?thesis
    using vcpu_create_destroy [OF b(1) _ _ c] b(2) c by (simp add: a v)
qed



text \<open>C36. A creation that fails late leaves the CPU pointing at freed memory.  When the configuration is
  refused after the vcpu was loaded, the vcpu and its VMCS are freed but stay \<^verbatim>\<open>vmx_local_vcpu\<close> and the
  current VMCS of the CPU.  A vcpu created next on this CPU at the same address is taken for loaded:
  its own VMCS is not made current, and what is written into the VMCS goes to the freed page.\<close>

theorem failed_create_dangles:
  assumes "ve_vpid_bitmap (vk_engine k) 0" "distinct (ce_addrs ce)" "set (ce_addrs ce) \<inter> vk_mem k = {}"
    and "ce_vcpu ce = Some p" "ce_vmcs ce = Some q" "local_vcpu (vk_cpus k) (ce_cpu ce) \<noteq> Some p"
    and full: "fst (vmx_create_vcpu ce good ep no k) \<noteq> None"
    and c: "vmx_create_vcpu ce conf ep no k = (None, k1)"
    and again: "distinct (ce_addrs ce2)" "set (ce_addrs ce2) \<inter> vk_mem k1 = {}" "ce_vcpu ce2 = Some p" "ce_cpu ce2 = ce_cpu ce"
    and c2: "vmx_create_vcpu ce2 good ep2 no2 k1 = (Some v, k2)"
  shows "p \<notin> vk_mem k1 \<and> q \<notin> vk_mem k1
    \<and> local_vcpu (vk_cpus k1) (ce_cpu ce) = Some p \<and> hw_current (vk_cpus k1) (ce_cpu ce) = Some q
    \<and> hw_current (vk_cpus k2) (ce_cpu ce2) = Some q \<and> (ce_vmcs ce2 \<noteq> Some q \<longrightarrow> vmcs_page v \<noteq> q)"
proof (cases rule: vmx_create_vcpu_cases [OF assms(1-3), where conf = good and ep = ep and no = no])
  case (1 k')
  then show ?thesis using full by simp
next
  case (2 p' q' n bm a gm b hm)
  then have pq: "p' = p" "q' = q" using assms(4,5) by simp_all
  let ?v0 = "vmx_vcpu_zero\<lparr>self := p, vcpu_no := no, vmcs_page := q, vpid := n, cpu := - 1, guest_msrs_at := a, guest_msrs := gm,
      host_msrs_at := b, host_msrs := hm\<rparr>" and ?k0 = "kalloc b (kalloc a (set_vpids bm (kalloc q (kalloc p k))))"
  have "vmx_create_vcpu ce conf ep no k = init_vcpu ce conf ep ?v0 ?k0"
    using 2 by (simp add: vmx_create_vcpu_def Let_def pq)
  from init_vcpu_result(1) [OF trans [OF this [symmetric] c] refl] obtain w c1 where
    w: "vcpu_id w = vcpu_id ?v0" and k1: "k1 = fail_initial_guest_state w (?k0\<lparr>vk_cpus := snd (do_load_vcpu (ce_hc ce) (ce_cpu ce) (?v0, vk_cpus ?k0)),
      vk_engine := (vk_engine ?k0)\<lparr>ve_config := c1\<rparr>\<rparr>)" by blast
  have m: "vk_mem k1 = vk_mem k" and bm0: "ve_vpid_bitmap (vk_engine k1) 0"
    using create_failed [OF assms(1-3) c] assms(1) by simp_all
  have fr: "p \<notin> vk_mem k1" "q \<notin> vk_mem k1" using assms(3-5) by (auto simp: m ce_addrs_def)
  have s: "vk_cpus k1 = snd (do_load_vcpu (ce_hc ce) (ce_cpu ce) (?v0, vk_cpus k))"
    unfolding k1 by (simp add: fail_defs)
  have v0: "cpu ?v0 = - 1" "self ?v0 = p" "vmcs_page ?v0 = q" by simp_all
  have lo: "local_vcpu (vk_cpus k1) (ce_cpu ce) = Some p" "hw_current (vk_cpus k1) (ce_cpu ce) = Some q"
    unfolding s using load_moves(3,4) [of ?v0 "ce_cpu ce" "vk_cpus k" "ce_hc ce"] assms(6) by simp_all
  have "hw_current (vk_cpus k2) (ce_cpu ce2) = Some q \<and> (ce_vmcs ce2 \<noteq> Some q \<longrightarrow> vmcs_page v \<noteq> q)"
  proof (cases rule: vmx_create_vcpu_cases [OF bm0 again(1,2), where conf = good and ep = ep2 and no = no2])
    case (1 k')
    then show ?thesis using c2 by simp
  next
    case (2 p2 q2 n2 bm2 a2 gm2 b2 hm2)
    from init_vcpu_result(2) [OF trans [OF 2(7) [symmetric] c2] refl] show ?thesis
      using 2(1,2) again(3,4) lo by (auto simp: do_load_vcpu_def Let_def vcpu_id_def)
  qed
  then show ?thesis using fr lo by blast
qed

theorem failed_create_dangles_witness:
  "\<exists>k1 v k2. vmx_create_vcpu (create_example 9) (conf_example 0x20000) 0 0 kernel_example = (None, k1)
    \<and> vmx_create_vcpu (create_example 11) (conf_example 0) 0 0 k1 = (Some v, k2)
    \<and> vmcs_page v \<noteq> 9 \<and> hw_current (vk_cpus k2) 0 = Some 9 \<and> 9 \<notin> vk_mem k1"
proof -
  let ?c = "\<lambda>cr4. vmx_create_vcpu (create_example 9) (conf_example cr4) 0 0 kernel_example"
  note ev = vmx_create_vcpu_def Let_def create_example_def kernel_example_def vpid_example init_vcpu_def
    vmx_setup_initial_guest_state_def conf_example_def engine_example_def
  have a: "ce_addrs (create_example q) = [7, q, 20, 21]" for q by (simp add: ce_addrs_def create_example_def)
  have b: "ve_vpid_bitmap (vk_engine kernel_example) 0" "vk_mem kernel_example = {}"
    by (simp_all add: kernel_example_def bitmap_set_def)
  have good: "fst (?c 0) \<noteq> None" by (simp add: ev split: prod.split)
  have "fst (?c 0x20000) = None" by (simp add: ev set_vpids_def split: prod.split)
  then obtain k1 where c: "?c 0x20000 = (None, k1)" by (cases "?c 0x20000") auto
  have r: "vk_mem k1 = {}" "ve_vpid_bitmap (vk_engine k1) = bitmap_set 0 (\<lambda>_. False)"
    using create_failed [OF b(1) _ _ c] b(2) by (simp_all add: a) (simp add: kernel_example_def)
  have "fst (vmx_create_vcpu (create_example 11) (conf_example 0) 0 0 k1) \<noteq> None"
    using r by (simp add: vmx_create_vcpu_def Let_def create_example_def vpid_example init_vcpu_def
        vmx_setup_initial_guest_state_def conf_example_def split: prod.split)
  then obtain v k2 where c2: "vmx_create_vcpu (create_example 11) (conf_example 0) 0 0 k1 = (Some v, k2)"
    by (cases "vmx_create_vcpu (create_example 11) (conf_example 0) 0 0 k1") auto
  have "9 \<notin> vk_mem k1 \<and> hw_current (vk_cpus k2) 0 = Some 9 \<and> vmcs_page v \<noteq> 9"
    using failed_create_dangles [OF b(1) _ _ _ _ _ good c _ _ _ _ c2, of 7 9] b(2) r(1)
    by (simp add: a) (simp add: create_example_def kernel_example_def cpus_example_def)
  then show ?thesis using c c2 by blast
qed

end
