(* ===== verification/Slim_Exception.thy ===== *)
theory Slim_Exception
  imports Slim_Vmcs
begin

text \<open>
  \<^verbatim>\<open>exception.c\<close>: signals for a thread that runs a vcpu, and debug exceptions of the guest.  The part
  of the task the module touches is a record; \<open>task_pt_regs\<close> are the registers with which the
  thread returns to user mode.
\<close>

section \<open>Registers and tasks\<close>

record pt_regs =
  pt_r15 :: u64
  pt_r14 :: u64
  pt_r13 :: u64
  pt_r12 :: u64
  pt_bp :: u64
  pt_bx :: u64
  pt_r11 :: u64
  pt_r10 :: u64
  pt_r9 :: u64
  pt_r8 :: u64
  pt_ax :: u64
  pt_cx :: u64
  pt_dx :: u64
  pt_si :: u64
  pt_di :: u64
  pt_orig_ax :: u64
  pt_ip :: u64
  pt_cs :: u64
  pt_flags :: u64
  pt_sp :: u64
  pt_ss :: u64

definition pt_regs_zero :: pt_regs where
  "pt_regs_zero = \<lparr>pt_r15 = 0, pt_r14 = 0, pt_r13 = 0, pt_r12 = 0, pt_bp = 0, pt_bx = 0, pt_r11 = 0, pt_r10 = 0, pt_r9 = 0, pt_r8 = 0,
     pt_ax = 0, pt_cx = 0, pt_dx = 0, pt_si = 0, pt_di = 0, pt_orig_ax = 0, pt_ip = 0, pt_cs = 0, pt_flags = 0, pt_sp = 0, pt_ss = 0\<rparr>"

text \<open>Pending signals are those sent to the thread and those sent to the process; \<open>tk_sigpending\<close> is the
  thread flag.\<close>

record task =
  tk_pending :: bitmap
  tk_shared :: bitmap
  tk_blocked :: bitmap
  tk_sigpending :: bool
  tk_pt_regs :: pt_regs
  tk_trap_nr :: u64
  tk_error_code :: u64
  tk_virtual_dr6 :: u64
  tk_singlestep :: bool
  tk_blockstep :: bool

abbreviation (input) SIGTRAP :: nat where "SIGTRAP \<equiv> 5"
abbreviation (input) SIG_BOUNCE :: nat where "SIG_BOUNCE \<equiv> 17"
abbreviation (input) NSIG :: nat where "NSIG \<equiv> 64"

definition deliverable :: "task \<Rightarrow> bool" where
  "deliverable t \<longleftrightarrow> list_ex (\<lambda>n. (tk_pending t n \<or> tk_shared t n) \<and> \<not> tk_blocked t n) [1..<NSIG + 1]"

text \<open>The kernel's \<^verbatim>\<open>recalc_sigpending\<close>; \<open>keep\<close> says that the flag has another reason to stay (freezing, job control).\<close>

definition recalc_sigpending :: "bool \<Rightarrow> task \<Rightarrow> task" where
  "recalc_sigpending keep t = t\<lparr>tk_sigpending := deliverable t \<or> keep \<and> tk_sigpending t\<rparr>"

text \<open>\<^verbatim>\<open>send_sig_info\<close> to the thread itself.\<close>

definition send_sig :: "nat \<Rightarrow> task \<Rightarrow> task" where
  "send_sig n t = t\<lparr>tk_pending := (tk_pending t)(n := True), tk_sigpending := tk_sigpending t \<or> \<not> tk_blocked t n\<rparr>"

section \<open>The operations\<close>

abbreviation (input) INTR_INFO_VECTOR_MASK :: u32 where "INTR_INFO_VECTOR_MASK \<equiv> 0xff"
abbreviation (input) INTR_INFO_INTR_TYPE_MASK :: u32 where "INTR_INFO_INTR_TYPE_MASK \<equiv> 0x700"
abbreviation (input) INTR_INFO_VALID_MASK :: u32 where "INTR_INFO_VALID_MASK \<equiv> 0x80000000"
abbreviation (input) INTR_TYPE_EXT_INTR :: u32 where "INTR_TYPE_EXT_INTR \<equiv> 0"
abbreviation (input) INTR_TYPE_NMI_INTR :: u32 where "INTR_TYPE_NMI_INTR \<equiv> 0x200"
abbreviation (input) DB_VECTOR :: u32 where "DB_VECTOR \<equiv> 1"
abbreviation (input) NMI_VECTOR :: u32 where "NMI_VECTOR \<equiv> 2"
abbreviation (input) BP_VECTOR :: u32 where "BP_VECTOR \<equiv> 3"
abbreviation (input) VIRTUAL_EXCEPTION_VECTOR :: u64 where "VIRTUAL_EXCEPTION_VECTOR \<equiv> 20"

text \<open>\<open>backup\<close> is the global \<^verbatim>\<open>backup_regs\<close>, which no code assigns.\<close>

definition exceptions_restore_guest_regs :: "host_cpu \<Rightarrow> nat \<Rightarrow> pt_regs \<Rightarrow> vmx_vcpu \<times> vmcs_cpus \<Rightarrow> task
    \<Rightarrow> (vmx_vcpu \<times> vmcs_cpus) \<times> task" where
  "exceptions_restore_guest_regs hc c backup = (\<lambda>(vcpu, s) t.
     if \<not> debug_mode vcpu then ((vcpu, s), t)
     else
       (let ur = tk_pt_regs t;
            (v1, s1) = vmx_get_cpu hc c (vcpu, s);
            v2 = vmcs_writel GUEST_RFLAGS (pt_flags ur) (vmcs_writel GUEST_RSP (pt_sp ur) (vmcs_writel GUEST_RIP (pt_ip ur) v1))
        in ((v2\<lparr>debug_mode := False\<rparr>, s1), t\<lparr>tk_pt_regs := backup\<rparr>)))"

definition slimvm_inject_vector :: "host_cpu \<Rightarrow> nat \<Rightarrow> u64 \<Rightarrow> vmx_vcpu \<times> vmcs_cpus \<Rightarrow> vmx_vcpu \<times> vmcs_cpus" where
  "slimvm_inject_vector hc c vector x =
     (let irq_num = vector OR ucast INTR_INFO_VALID_MASK; (v1, s1) = vmx_get_cpu hc c x
      in (vmcs_write32 VM_ENTRY_INTR_INFO_FIELD (ucast irq_num) v1, s1))"

definition slimvm_signal_handler :: "bool \<Rightarrow> vmx_vcpu \<Rightarrow> task \<Rightarrow> int \<times> vmx_vcpu \<times> task" where
  "slimvm_signal_handler keep vcpu t =
     (let had_bounce = tk_pending t SIG_BOUNCE;
          t1 = (if had_bounce then recalc_sigpending keep (t\<lparr>tk_pending := (tk_pending t)(SIG_BOUNCE := False)\<rparr>) else t);
          v1 = (if had_bounce then vcpu\<lparr>bounce_pending := True\<rparr> else vcpu)
      in (if tk_sigpending t1 then - 1 else 0, v1, t1))"

text \<open>The code of the \<^verbatim>\<open>SIGTRAP\<close> for the conditions of a debug exception.\<close>

abbreviation (input) TRAP_BRKPT :: int where "TRAP_BRKPT \<equiv> 1"
abbreviation (input) TRAP_TRACE :: int where "TRAP_TRACE \<equiv> 2"
abbreviation (input) TRAP_HWBKPT :: int where "TRAP_HWBKPT \<equiv> 4"

definition slimvm_get_si_code :: "u64 \<Rightarrow> int" where
  "slimvm_get_si_code condition =
     (if condition AND 0x4000 \<noteq> 0 then TRAP_TRACE
      else if condition AND (1 OR 2 OR 4 OR 8) \<noteq> 0 then TRAP_HWBKPT
      else TRAP_BRKPT)"

text \<open>The result includes the code of the signal sent.\<close>

definition slimvm_do_debug :: "host_cpu \<Rightarrow> nat \<Rightarrow> vmx_vcpu \<times> vmcs_cpus \<Rightarrow> task \<Rightarrow> int \<times> (vmx_vcpu \<times> vmcs_cpus) \<times> task" where
  "slimvm_do_debug hc c x t =
     (let (v1, s1) = vmx_get_cpu hc c x;
          dr6 = vmcs_readl v1 EXIT_QUALIFICATION AND ucast (NOT (0xffff0ff0 :: u32));
          t1 = t\<lparr>tk_blockstep := False, tk_singlestep := True, tk_virtual_dr6 := dr6, tk_trap_nr := 1, tk_error_code := 0\<rparr>;
          si_code = slimvm_get_si_code dr6
      in (si_code, (v1\<lparr>debug_mode := True\<rparr>, s1), send_sig SIGTRAP t1))"

definition slimvm_do_int3 :: "vmx_vcpu \<Rightarrow> task \<Rightarrow> vmx_vcpu \<times> task" where
  "slimvm_do_int3 vcpu t = (vcpu\<lparr>debug_mode := True\<rparr>, send_sig SIGTRAP (t\<lparr>tk_trap_nr := 3, tk_error_code := 0\<rparr>))"

definition slimvm_exception_handler :: "host_cpu \<Rightarrow> nat \<Rightarrow> u32 \<Rightarrow> vmx_vcpu \<times> vmcs_cpus \<Rightarrow> task \<Rightarrow> (vmx_vcpu \<times> vmcs_cpus) \<times> task" where
  "slimvm_exception_handler hc c intr_info x t =
     (let ex_no = intr_info AND INTR_INFO_VECTOR_MASK in
      if ex_no = DB_VECTOR then snd (slimvm_do_debug hc c x t)
      else if ex_no = BP_VECTOR then (let (v1, t1) = slimvm_do_int3 (fst x) t in ((v1, snd x), t1))
      else (x, t))"

section \<open>Signals\<close>

text \<open>A bounce is taken out of the pending signals and remembered, and the thread stays with the vcpu
  exactly when no other signal wants it.\<close>

lemma signal_handler_result:
  assumes "slimvm_signal_handler keep v t = (r, v', t')"
  shows "bounce_pending v' \<longleftrightarrow> bounce_pending v \<or> tk_pending t SIG_BOUNCE" "\<not> tk_pending t' SIG_BOUNCE"
    "n \<noteq> SIG_BOUNCE \<Longrightarrow> tk_pending t' n = tk_pending t n" "r \<noteq> 0 \<longleftrightarrow> tk_sigpending t'" "v' = v\<lparr>bounce_pending := bounce_pending v'\<rparr>"
  using assms by (auto simp: slimvm_signal_handler_def recalc_sigpending_def Let_def split: if_splits)

lemma signal_handler_stays:
  assumes "slimvm_signal_handler False v t = (r, v', t')" "tk_pending t SIG_BOUNCE"
  shows "r = 0 \<longleftrightarrow> \<not> deliverable t'"
  using assms by (auto simp: slimvm_signal_handler_def recalc_sigpending_def Let_def deliverable_def)

end
