(* ===== verification/Slim_Vmx_Exit.thy ===== *)
theory Slim_Vmx_Exit
  imports Slim_Vmx_Setup Slim_Exception Slim_Ept
begin

text \<open>
  What a VMX vcpu does around an entry (\<^verbatim>\<open>vmx.c\<close>): requests, injection of NMIs and bounces, the entry itself,
  and the handlers of the exits.  A handler that runs with preemption enabled takes the CPU it
  finds itself on.  The guest, the host's system calls, \<^verbatim>\<open>CPUID\<close> and the interrupt handlers are
  arguments.
\<close>

type_synonym loaded = "vmx_vcpu \<times> vmcs_cpus"

section \<open>Before an entry\<close>

text \<open>The invalidation of the TLB for the instance; the result says whether it was done.\<close>

definition vmx_process_nmi :: "vmx_vcpu \<Rightarrow> vmx_vcpu" where
  "vmx_process_nmi vcpu = vcpu\<lparr>nmi_pending := True\<rparr>"

definition vmx_process_vcpu_requests :: "vmx_vcpu \<Rightarrow> bool \<times> vmx_vcpu" where
  "vmx_process_vcpu_requests vcpu =
     (let (flush, v1) = vmx_check_request SLIMVM_REQ_TLB_FLUSH vcpu;
          (nmi, v2) = vmx_check_request SLIMVM_REQ_NMI v1
      in (flush, if nmi then vmx_process_nmi v2 else v2))"

definition vmx_inject_nmi :: "vmx_vcpu \<Rightarrow> int \<times> vmx_vcpu" where
  "vmx_inject_nmi vcpu =
     (if vmcs_read32 vcpu GUEST_INTERRUPTIBILITY_INFO AND (GUEST_INTR_STATE_STI OR GUEST_INTR_STATE_MOV_SS) \<noteq> 0
      then (- EINVAL, vcpu)
      else (0, (vmcs_write32 VM_ENTRY_INTR_INFO_FIELD (INTR_TYPE_NMI_INTR OR INTR_INFO_VALID_MASK OR NMI_VECTOR) vcpu)\<lparr>nmi_pending := False\<rparr>))"

definition vmx_set_interrupt_window_exiting :: "bool \<Rightarrow> vmx_vcpu \<Rightarrow> vmx_vcpu" where
  "vmx_set_interrupt_window_exiting enable vcpu =
     (let exec_control = vmcs_read32 vcpu CPU_BASED_VM_EXEC_CONTROL in
      vmcs_write32 CPU_BASED_VM_EXEC_CONTROL
        (if enable then exec_control OR CPU_BASED_INTR_WINDOW_EXITING else exec_control AND NOT CPU_BASED_INTR_WINDOW_EXITING) vcpu)"

definition vmx_inject_bounce :: "host_cpu \<Rightarrow> nat \<Rightarrow> loaded \<Rightarrow> loaded" where
  "vmx_inject_bounce hc c = (\<lambda>(vcpu, s).
     if \<not> vmx_interrupt_allowed vcpu then (vmx_set_interrupt_window_exiting True vcpu, s)
     else
       (let (v1, s1) = slimvm_inject_vector hc c VIRTUAL_EXCEPTION_VECTOR (vmx_set_interrupt_window_exiting False vcpu, s)
        in (v1\<lparr>bounce_pending := False\<rparr>, s1)))"

text \<open>The two injections of \<^verbatim>\<open>vmx_launch\<close>, in its order.\<close>

definition inject_pending :: "host_cpu \<Rightarrow> nat \<Rightarrow> loaded \<Rightarrow> int \<times> loaded" where
  "inject_pending hc c x =
     (let (v1, s1) = (if bounce_pending (fst x) then vmx_inject_bounce hc c x else x) in
      if nmi_pending v1 then (let (r, v2) = vmx_inject_nmi v1 in (r, v2, s1)) else (0, v1, s1))"

section \<open>The entry\<close>

text \<open>
  \<open>guest\<close> runs the guest on its general registers, CR2 and the VMCS until it exits; the processor may also
  refuse the entry (\<open>None\<close>).  The result is the exit reason.
\<close>

type_synonym guest = "reg_file \<times> u64 \<times> vmcs \<Rightarrow> (reg_file \<times> u64 \<times> vmcs) option"

abbreviation (input) VMX_EXIT_REASONS_FAILED_VMENTRY :: u32 where "VMX_EXIT_REASONS_FAILED_VMENTRY \<equiv> 0x80000000"

definition vmx_run_vcpu :: "guest \<Rightarrow> nat \<Rightarrow> loaded \<Rightarrow> u32 \<times> loaded" where
  "vmx_run_vcpu guest c = (\<lambda>(vcpu, s).
     let out = (case vm_entry c vcpu s of
                  None \<Rightarrow> (vcpu\<lparr>fail := True\<rparr>, s)
                | Some (v1, s1) \<Rightarrow>
                    (case guest (regs v1, cr2 v1, vmcs v1) of
                       None \<Rightarrow> (vcpu\<lparr>fail := True\<rparr>, s)
                     | Some (rg, cr, f) \<Rightarrow> (v1\<lparr>regs := rg, cr2 := cr, vmcs := f, fail := False\<rparr>, s1)));
         v2 = (fst out)\<lparr>regs := (regs (fst out))(VCPU_REGS_RIP := vmcs_readl (fst out) GUEST_RIP)\<rparr>
     in if fail v2 then (VMX_EXIT_REASONS_FAILED_VMENTRY, v2\<lparr>status := SLIMVM_RET_FAIL_ENTRY\<rparr>, snd out)
        else (vmcs_read32 v2 VM_EXIT_REASON, v2\<lparr>launched := True\<rparr>, snd out))"

definition vmx_step_instruction :: "vmx_vcpu \<Rightarrow> vmx_vcpu" where
  "vmx_step_instruction vcpu =
     (let rp = vmcs_readl vcpu GUEST_RIP + ucast (vmcs_read32 vcpu VM_EXIT_INSTRUCTION_LEN);
          v1 = vmcs_writel GUEST_RIP rp vcpu
      in v1\<lparr>regs := (regs v1)(VCPU_REGS_RIP := rp)\<rparr>)"

definition vmx_process_step_instructions :: "int \<Rightarrow> vmx_vcpu \<Rightarrow> vmx_vcpu" where
  "vmx_process_step_instructions reason vcpu =
     (if reason \<in> {EXIT_REASON_VMCALL, EXIT_REASON_CPUID, EXIT_REASON_MSR_WRITE, EXIT_REASON_MSR_READ, EXIT_REASON_HLT, EXIT_REASON_XSETBV}
      then vmx_step_instruction vcpu else vcpu)"

section \<open>Registers for the host\<close>

text \<open>\<open>addr_ok\<close> is the kernel's test for a user address.\<close>

definition make_pt_regs :: "(u64 \<Rightarrow> bool) \<Rightarrow> host_cpu \<Rightarrow> nat \<Rightarrow> loaded \<Rightarrow> u64 \<Rightarrow> pt_regs \<times> loaded" where
  "make_pt_regs addr_ok hc c = (\<lambda>(vcpu, s) sysnr.
     let rg = regs vcpu;
         (v1, s1) = vmx_get_cpu hc c (vcpu, s);
         ip = vmcs_readl v1 GUEST_RIP
     in (\<lparr>pt_r15 = rg VCPU_REGS_R15, pt_r14 = rg VCPU_REGS_R14, pt_r13 = rg VCPU_REGS_R13, pt_r12 = rg VCPU_REGS_R12,
          pt_bp = rg VCPU_REGS_RBP, pt_bx = rg VCPU_REGS_RBX, pt_r11 = rg VCPU_REGS_R11, pt_r10 = rg VCPU_REGS_R10,
          pt_r9 = rg VCPU_REGS_R9, pt_r8 = rg VCPU_REGS_R8, pt_ax = scast (ucast sysnr :: u32), pt_cx = rg VCPU_REGS_RCX,
          pt_dx = rg VCPU_REGS_RDX, pt_si = rg VCPU_REGS_RSI, pt_di = rg VCPU_REGS_RDI, pt_orig_ax = rg VCPU_REGS_RAX,
          pt_ip = (if addr_ok ip then ip else rg VCPU_REGS_RCX), pt_cs = 0x33,
          pt_flags = vmcs_readl v1 GUEST_RFLAGS AND 0xff OR X86_EFLAGS_IF OR 2,
          pt_sp = vmcs_readl v1 GUEST_RSP, pt_ss = 0x2b\<rparr>, v1, s1))"

text \<open>The kernel's \<^verbatim>\<open>kernel_clone\<close> works on the registers of the calling task and the kernel state \<open>'k\<close>.\<close>

record kernel_clone_args =
  ka_flags :: u64
  ka_pidfd :: u64
  ka_child_tid :: u64
  ka_parent_tid :: u64
  ka_exit_signal :: u32
  ka_stack :: u64
  ka_stack_size :: u64
  ka_tls :: u64

type_synonym 'k kernel_clone = "kernel_clone_args \<Rightarrow> pt_regs \<Rightarrow> 'k \<Rightarrow> u64 \<times> pt_regs \<times> 'k"

definition slimvm_do_fork :: "'k kernel_clone \<Rightarrow> u64 \<Rightarrow> u64 \<Rightarrow> pt_regs \<Rightarrow> u64 \<Rightarrow> u64 \<Rightarrow> u64 \<Rightarrow> u64 \<Rightarrow> task \<times> 'k \<Rightarrow> u64 \<times> task \<times> 'k" where
  "slimvm_do_fork kernel_clone clone_flags stack_start rg stack_size parent_tidptr child_tidptr tls = (\<lambda>(t, k).
     let lo = ucast clone_flags :: u32;
         args = \<lparr>ka_flags = ucast (lo AND NOT 0xff), ka_pidfd = parent_tidptr, ka_child_tid = child_tidptr, ka_parent_tid = parent_tidptr,
                 ka_exit_signal = lo AND 0xff, ka_stack = stack_start, ka_stack_size = stack_size, ka_tls = tls\<rparr>;
         tmp = tk_pt_regs t;
         t1 = t\<lparr>tk_pt_regs := rg\<rparr>;
         (ret, me, k1) = kernel_clone args (tk_pt_regs t1) k
     in (ret, t1\<lparr>tk_pt_regs := tmp\<rparr>, k1))"

definition slimvm_sys_clone :: "'k kernel_clone \<Rightarrow> pt_regs \<Rightarrow> task \<times> 'k \<Rightarrow> u64 \<times> task \<times> 'k" where
  "slimvm_sys_clone kc rg = slimvm_do_fork kc (pt_di rg) (if pt_si rg = 0 then pt_sp rg else pt_si rg) rg 0 (pt_dx rg) (pt_r10 rg) (pt_r8 rg)"

text \<open>These two build the registers from the vcpu recorded as current on the CPU, which is the caller's.\<close>

definition slimvm_sys_fork :: "(u64 \<Rightarrow> bool) \<Rightarrow> host_cpu \<Rightarrow> nat \<Rightarrow> 'k kernel_clone \<Rightarrow> loaded \<times> task \<times> 'k \<Rightarrow> u64 \<times> loaded \<times> task \<times> 'k" where
  "slimvm_sys_fork addr_ok hc c kc = (\<lambda>(x, tk).
     if current_vcpu (snd x) c = None then (of_int (- ENOENT), x, tk)
     else (let (rg, x1) = make_pt_regs addr_ok hc c x 57; (r, tk1) = slimvm_do_fork kc 17 (pt_sp rg) rg 0 0 0 0 tk in (r, x1, tk1)))"

definition slimvm_sys_vfork :: "(u64 \<Rightarrow> bool) \<Rightarrow> host_cpu \<Rightarrow> nat \<Rightarrow> 'k kernel_clone \<Rightarrow> loaded \<times> task \<times> 'k \<Rightarrow> u64 \<times> loaded \<times> task \<times> 'k" where
  "slimvm_sys_vfork addr_ok hc c kc = (\<lambda>(x, tk).
     if current_vcpu (snd x) c = None then (of_int (- ENOENT), x, tk)
     else (let (rg, x1) = make_pt_regs addr_ok hc c x 58;
               (r, tk1) = slimvm_do_fork kc (0x4000 OR 0x100 OR 17) (pt_sp rg) rg 0 0 0 0 tk in (r, x1, tk1)))"

abbreviation (input) HIGHER_HALF_CANONICAL_ADDR :: u64 where "HIGHER_HALF_CANONICAL_ADDR \<equiv> 0xffff800000000000"

text \<open>The result holds the registers handed to the host's NMI handler, \<open>None\<close> when it runs through \<^verbatim>\<open>INT 2\<close>.\<close>

definition vmx_handle_nmi :: "(u64 \<Rightarrow> bool) \<Rightarrow> host_cpu \<Rightarrow> nat \<Rightarrow> loaded \<Rightarrow> pt_regs option \<times> loaded" where
  "vmx_handle_nmi addr_ok hc c = (\<lambda>(vcpu, s).
     let s1 = s\<lparr>local_vcpu := (local_vcpu s)(c := Some (self vcpu))\<rparr>;
         v1 = vcpu\<lparr>vflags := vmcs_readl vcpu GUEST_RFLAGS\<rparr>;
         done = (\<lambda>st. st\<lparr>local_vcpu := (local_vcpu st)(c := None)\<rparr>)
     in if vflags v1 AND X86_EFLAGS_IF \<noteq> 0 then (None, v1, done s1)
        else
          (let (rg, v2, s2) = make_pt_regs addr_ok hc c (v1, s1) (regs v1 VCPU_REGS_RAX)
           in (Some (rg\<lparr>pt_flags := vflags v1, pt_ip := regs v1 VCPU_REGS_RIP AND NOT HIGHER_HALF_CANONICAL_ADDR,
                        pt_bp := pt_bp rg AND NOT HIGHER_HALF_CANONICAL_ADDR, pt_sp := pt_sp rg AND NOT HIGHER_HALF_CANONICAL_ADDR\<rparr>),
               v2, done s2)))"

section \<open>Exits\<close>

text \<open>A misconfigured entry is only reported; the entry is read through the pointer the lookup delivers.  A lookup
  that fails leaves the pointer as it was, uninitialised: \<open>None\<close>.\<close>

definition vmx_handle_ept_misconfig :: "host_cpu \<Rightarrow> nat \<Rightarrow> vmx_inst \<Rightarrow> pt_heap \<Rightarrow> loaded \<Rightarrow> (int \<times> loaded) option" where
  "vmx_handle_ept_misconfig hc c instp h x =
     (let (v1, s1) = vmx_get_cpu hc c x; gpa = vmcs_readl v1 GUEST_PHYSICAL_ADDRESS in
      case vmx_do_ept_misconfig instp gpa h of
        Entry page idx \<Rightarrow> Some (0, v1, s1)
      | _ \<Rightarrow> None)"

definition vmx_handle_ept_violation :: "bool \<Rightarrow> page_alloc \<Rightarrow> (u64 \<Rightarrow> host_answers) \<Rightarrow> host_cpu \<Rightarrow> nat
    \<Rightarrow> loaded \<times> vmx_inst \<times> nested_mem \<Rightarrow> (int \<times> loaded \<times> vmx_inst \<times> nested_mem) option" where
  "vmx_handle_ept_violation ad galloc host hc c = (\<lambda>(x, instp, m).
     let (v1, s1) = vmx_get_cpu hc c x;
         exit_qual = vmcs_read32 v1 EXIT_QUALIFICATION;
         gpa = vmcs_readl v1 GUEST_PHYSICAL_ADDRESS
     in if exit_qual AND 0x40 \<noteq> 0 then Some (- EINVAL, (v1, s1), instp, m)
        else case vmx_do_ept_violation ad galloc host instp gpa (ucast exit_qual) m of
          None \<Rightarrow> None
        | Some (ret, instp1, m1) \<Rightarrow>
            Some (ret, (if ret \<in> {0, - ERESTARTSYS, - ENOMEM} then v1 else v1\<lparr>status := SLIMVM_RET_EPT_VIOLATION\<rparr>, s1), instp1, m1))"

text \<open>Setting the guest back before its call.\<close>

definition rewind_call :: "host_cpu \<Rightarrow> nat \<Rightarrow> loaded \<Rightarrow> loaded" where
  "rewind_call hc c x = (let (v1, s1) = vmx_get_cpu hc c x in (vmcs_writel GUEST_RIP (vmcs_readl v1 GUEST_RIP - 3) v1, s1))"

definition set_rax :: "u64 \<Rightarrow> loaded \<Rightarrow> loaded" where
  "set_rax a = (\<lambda>(vcpu, s). (vcpu\<lparr>regs := (regs vcpu)(VCPU_REGS_RAX := a)\<rparr>, s))"

text \<open>The end of \<^verbatim>\<open>vmx_handle_syscall\<close>: what becomes of an interrupted call; \<open>sp\<close> says whether a signal is pending.\<close>

definition finish_syscall :: "host_cpu \<Rightarrow> nat \<Rightarrow> bool \<Rightarrow> u64 \<Rightarrow> loaded \<Rightarrow> loaded" where
  "finish_syscall hc c sp orig_rax x =
     (let a = regs (fst x) VCPU_REGS_RAX in
      if sp then
        if a = of_int (- ERESTARTNOHAND) \<or> a = of_int (- ERESTART_RESTARTBLOCK) then set_rax (of_int (- EINTR)) x
        else if a = of_int (- ERESTARTSYS) \<and> (orig_rax = 202 \<or> orig_rax = 271) then set_rax (of_int (- EINTR)) x
        else if a = of_int (- ERESTARTSYS) \<or> a = of_int (- ERESTARTNOINTR) then rewind_call hc c (set_rax orig_rax x)
        else x
      else
        if a = of_int (- ERESTARTNOHAND) \<or> a = of_int (- ERESTARTSYS) \<or> a = of_int (- ERESTARTNOINTR)
        then rewind_call hc c (set_rax orig_rax x)
        else if a = of_int (- ERESTART_RESTARTBLOCK) then rewind_call hc c (set_rax 219 x)
        else x)"

text \<open>\<open>call\<close> is the system call table at the number of the call, \<open>None\<close> when the call does not return; \<open>'k\<close> is the
  state it works on.\<close>

definition vmx_handle_syscall :: "(u64 \<Rightarrow> bool) \<Rightarrow> host_cpu \<Rightarrow> nat \<Rightarrow> u64 \<Rightarrow> (nat \<Rightarrow> pt_regs \<Rightarrow> loaded \<times> 'k \<Rightarrow> (u64 \<times> loaded \<times> 'k) option)
    \<Rightarrow> ('k \<Rightarrow> bool) \<Rightarrow> loaded \<times> 'k \<Rightarrow> (loaded \<times> 'k) option" where
  "vmx_handle_syscall addr_ok hc c nr_syscalls call signal_pending = (\<lambda>(x, k).
     let orig_rax = regs (fst x) VCPU_REGS_RAX in
     if nr_syscalls \<le> orig_rax then Some (set_rax (of_int (- ENOSYS)) x, k)
     else
       (let (rg, x1) = make_pt_regs addr_ok hc c x orig_rax in
        case call (unat orig_rax) rg (x1, k) of
          None \<Rightarrow> None
        | Some (ret, x2, k2) \<Rightarrow> Some (finish_syscall hc c (signal_pending k2) orig_rax (set_rax ret x2), k2)))"

definition vmx_handle_cpuid :: "(u32 \<Rightarrow> u32 \<Rightarrow> u32 \<times> u32 \<times> u32 \<times> u32) \<Rightarrow> vmx_vcpu \<Rightarrow> vmx_vcpu" where
  "vmx_handle_cpuid cpuid vcpu =
     (let (eax, ebx, ecx, edx) = cpuid (ucast (regs vcpu VCPU_REGS_RAX)) (ucast (regs vcpu VCPU_REGS_RCX)) in
      vcpu\<lparr>regs := (regs vcpu)(VCPU_REGS_RAX := ucast eax, VCPU_REGS_RBX := ucast ebx, VCPU_REGS_RCX := ucast ecx, VCPU_REGS_RDX := ucast edx)\<rparr>)"

definition vmx_handle_nmi_exception :: "host_cpu \<Rightarrow> nat \<Rightarrow> loaded \<Rightarrow> task \<Rightarrow> int \<times> loaded \<times> task" where
  "vmx_handle_nmi_exception hc c x t =
     (let (v1, s1) = vmx_get_cpu hc c x; intr_info = vmcs_read32 v1 VM_EXIT_INTR_INFO in
      if intr_info AND INTR_INFO_INTR_TYPE_MASK = INTR_TYPE_NMI_INTR then (0, (v1, s1), t)
      else
        (let ((v2, s2), t2) = slimvm_exception_handler hc c intr_info (v1, s1) t
         in (0, (v2\<lparr>status := uint (intr_info AND INTR_INFO_VECTOR_MASK)\<rparr>, s2), t2)))"

text \<open>A pair of registers as the instructions that take 64-bit values use it.\<close>

definition edx_eax :: "vmx_vcpu \<Rightarrow> u64" where
  "edx_eax vcpu = (regs vcpu VCPU_REGS_RAX AND 0xffffffff) OR push_bit 32 (regs vcpu VCPU_REGS_RDX AND 0xffffffff)"

definition vmx_handle_msr_read :: "vmx_vcpu \<Rightarrow> int \<times> vmx_vcpu" where
  "vmx_handle_msr_read vcpu =
     (case find_msr_entry vcpu (ucast (regs vcpu VCPU_REGS_RCX)) of
        None \<Rightarrow> (- 1, vcpu)
      | Some i \<Rightarrow>
          (let d = msr_data (guest_msrs vcpu ! i) in
           (0, vcpu\<lparr>regs := (regs vcpu)(VCPU_REGS_RAX := d AND 0xffffffff, VCPU_REGS_RDX := drop_bit 32 d)\<rparr>)))"

definition vmx_handle_msr_write :: "vmx_vcpu \<Rightarrow> int \<times> vmx_vcpu" where
  "vmx_handle_msr_write vcpu =
     (let msr_addr = ucast (regs vcpu VCPU_REGS_RCX) in
      case find_msr_entry vcpu msr_addr of
        Some i \<Rightarrow> (0, vcpu\<lparr>guest_msrs := (guest_msrs vcpu)[i := (guest_msrs vcpu ! i)\<lparr>msr_data := edx_eax vcpu\<rparr>]\<rparr>)
      | None \<Rightarrow> if msr_addr = MSR_CSTAR then (0, vcpu) else (- 1, vcpu))"

text \<open>The vector whose host handler is called.\<close>

definition vmx_handle_external_interrupt :: "u32 \<Rightarrow> u32 option" where
  "vmx_handle_external_interrupt exit_intr_info =
     (if exit_intr_info AND (INTR_INFO_VALID_MASK OR INTR_INFO_INTR_TYPE_MASK) = INTR_INFO_VALID_MASK OR INTR_TYPE_EXT_INTR
      then Some (exit_intr_info AND INTR_INFO_VECTOR_MASK) else None)"

definition vmx_set_interrupt_shadow :: "u32 \<Rightarrow> vmx_vcpu \<Rightarrow> vmx_vcpu" where
  "vmx_set_interrupt_shadow msk vcpu =
     (let old = vmcs_read32 vcpu GUEST_INTERRUPTIBILITY_INFO;
          cleared = old AND NOT (GUEST_INTR_STATE_STI OR GUEST_INTR_STATE_MOV_SS);
          new = (if msk AND 1 \<noteq> 0 then cleared OR GUEST_INTR_STATE_MOV_SS
                 else if msk AND 2 \<noteq> 0 then cleared OR GUEST_INTR_STATE_STI else cleared)
      in if new \<noteq> old then vmcs_write32 GUEST_INTERRUPTIBILITY_INFO new vcpu else vcpu)"

definition skip_emulated_instruction :: "host_cpu \<Rightarrow> nat \<Rightarrow> loaded \<Rightarrow> loaded" where
  "skip_emulated_instruction hc c x = (let (v1, s1) = vmx_get_cpu hc c x in (vmx_set_interrupt_shadow 0 v1, s1))"

definition emulate_vcpu_halt :: "host_cpu \<Rightarrow> nat \<Rightarrow> loaded \<Rightarrow> int \<times> loaded" where
  "emulate_vcpu_halt hc c x = (let (v1, s1) = skip_emulated_instruction hc c x in (1, v1\<lparr>status := SLIMVM_RET_HLT\<rparr>, s1))"

definition handle_halt :: "host_cpu \<Rightarrow> nat \<Rightarrow> loaded \<Rightarrow> int \<times> loaded" where
  "handle_halt hc c x = emulate_vcpu_halt hc c x"

abbreviation (input) XFEATURE_MASK_FP :: u64 where "XFEATURE_MASK_FP \<equiv> 1"
abbreviation (input) XFEATURE_MASK_SSE :: u64 where "XFEATURE_MASK_SSE \<equiv> 2"
abbreviation (input) XFEATURE_MASK_YMM :: u64 where "XFEATURE_MASK_YMM \<equiv> 4"
abbreviation (input) XFEATURE_MASK_BNDREGS :: u64 where "XFEATURE_MASK_BNDREGS \<equiv> 8"
abbreviation (input) XFEATURE_MASK_BNDCSR :: u64 where "XFEATURE_MASK_BNDCSR \<equiv> 0x10"
abbreviation (input) XFEATURE_MASK_AVX512 :: u64 where "XFEATURE_MASK_AVX512 \<equiv> 0xe0"

definition handle_xsetbv :: "vmx_vcpu \<Rightarrow> int \<times> vmx_vcpu" where
  "handle_xsetbv vcpu =
     (let x = edx_eax vcpu; index = ucast (regs vcpu VCPU_REGS_RCX) :: u32 in
      if index \<noteq> 0 then (1, vcpu)
      else if x AND XFEATURE_MASK_FP = 0 then (1, vcpu)
      else if x AND XFEATURE_MASK_YMM \<noteq> 0 \<and> x AND XFEATURE_MASK_SSE = 0 then (1, vcpu)
      else if (x AND XFEATURE_MASK_BNDREGS = 0) \<noteq> (x AND XFEATURE_MASK_BNDCSR = 0) then (1, vcpu)
      else if x AND XFEATURE_MASK_AVX512 \<noteq> 0 \<and> x AND XFEATURE_MASK_YMM = 0 then (1, vcpu)
      else if x AND XFEATURE_MASK_AVX512 \<noteq> 0 \<and> x AND XFEATURE_MASK_AVX512 \<noteq> XFEATURE_MASK_AVX512 then (1, vcpu)
      else (0, vcpu\<lparr>xcr0 := x\<rparr>))"

section \<open>Loading does not disturb the guest\<close>

text \<open>The fields a handler reads or writes are not those that loading on another CPU rewrites.\<close>

lemma load_keeps [simp]:
  "f \<notin> {HOST_TR_BASE, HOST_GDTR_BASE, HOST_IA32_SYSENTER_ESP} \<Longrightarrow> vmcs (fst (vmx_get_cpu hc c (v, s))) f = vmcs v f"
  "regs (fst (vmx_get_cpu hc c (v, s))) = regs v" "bounce_pending (fst (vmx_get_cpu hc c (v, s))) = bounce_pending v"
  "nmi_pending (fst (vmx_get_cpu hc c (v, s))) = nmi_pending v"
  by (simp_all add: vmx_get_cpu_def load_guest_regs) (simp_all add: do_load_vcpu_def Let_def vmcs_access vmx_make_request_def)

lemma word_cast_32 [simp]: "ucast (ucast (x :: u32) :: u64) = x"
  by (rule bit_word_eqI) (simp add: bit_simps)

lemma window_exiting [simp]:
  "f \<noteq> CPU_BASED_VM_EXEC_CONTROL \<Longrightarrow> vmcs (vmx_set_interrupt_window_exiting b v) f = vmcs v f"
  "regs (vmx_set_interrupt_window_exiting b v) = regs v" "bounce_pending (vmx_set_interrupt_window_exiting b v) = bounce_pending v"
  "nmi_pending (vmx_set_interrupt_window_exiting b v) = nmi_pending v"
  by (simp_all add: vmx_set_interrupt_window_exiting_def Let_def vmcs_access)

lemma window_exiting_on: "bit (vmcs_read32 (vmx_set_interrupt_window_exiting b v) CPU_BASED_VM_EXEC_CONTROL) 2 = b"
  by (simp add: vmx_set_interrupt_window_exiting_def Let_def vmcs_access bit_simps)

section \<open>Injection\<close>

lemma inject_bounce_result:
  assumes "vmx_inject_bounce hc c (v, s) = (v', s')"
  shows "if vmx_interrupt_allowed v then vmcs_read32 v' VM_ENTRY_INTR_INFO_FIELD = 0x80000014 \<and> \<not> bounce_pending v'
      else bounce_pending v' = bounce_pending v \<and> bit (vmcs_read32 v' CPU_BASED_VM_EXEC_CONTROL) 2"
    "nmi_pending v' = nmi_pending v" "vmcs v' GUEST_INTERRUPTIBILITY_INFO = vmcs v GUEST_INTERRUPTIBILITY_INFO"
proof -
  let ?w = "vmx_set_interrupt_window_exiting False v"
  have c: "ucast (20 OR ucast (0x80000000 :: u32) :: u64) = (0x80000014 :: u32)" by code_simp
  obtain v1 s1 where l: "vmx_get_cpu hc c (?w, s) = (v1, s1)" by fastforce
  have v1: "nmi_pending v1 = nmi_pending v" "vmcs v1 GUEST_INTERRUPTIBILITY_INFO = vmcs v GUEST_INTERRUPTIBILITY_INFO"
    using load_keeps(1) [of GUEST_INTERRUPTIBILITY_INFO hc c ?w s] load_keeps(4) [of hc c ?w s] by (simp_all add: l)
  have eq: "v' = (if vmx_interrupt_allowed v
      then (vmcs_write32 VM_ENTRY_INTR_INFO_FIELD (ucast (20 OR ucast (0x80000000 :: u32) :: u64)) v1)\<lparr>bounce_pending := False\<rparr>
      else vmx_set_interrupt_window_exiting True v)"
    using assms by (auto simp: vmx_inject_bounce_def slimvm_inject_vector_def Let_def l split: if_splits)
  show "if vmx_interrupt_allowed v then vmcs_read32 v' VM_ENTRY_INTR_INFO_FIELD = 0x80000014 \<and> \<not> bounce_pending v'
      else bounce_pending v' = bounce_pending v \<and> bit (vmcs_read32 v' CPU_BASED_VM_EXEC_CONTROL) 2"
    unfolding eq c using window_exiting_on [of True v] by (simp add: vmcs_write32_def vmcs_writel_def) (simp add: vmcs_read32_def vmcs_readl_def)
  show "nmi_pending v' = nmi_pending v" "vmcs v' GUEST_INTERRUPTIBILITY_INFO = vmcs v GUEST_INTERRUPTIBILITY_INFO"
    by (simp_all add: eq v1 vmcs_write32_def vmcs_writel_def)
qed

lemma inject_nmi_result:
  assumes "vmcs_read32 v GUEST_INTERRUPTIBILITY_INFO AND (GUEST_INTR_STATE_STI OR GUEST_INTR_STATE_MOV_SS) = 0"
  shows "fst (vmx_inject_nmi v) = 0" "vmcs_read32 (snd (vmx_inject_nmi v)) VM_ENTRY_INTR_INFO_FIELD = 0x80000202"
    "\<not> nmi_pending (snd (vmx_inject_nmi v))" "bounce_pending (snd (vmx_inject_nmi v)) = bounce_pending v"
  using assms by (simp_all add: vmx_inject_nmi_def vmcs_access)

section \<open>MSR accesses\<close>

text \<open>What the guest writes into a register of its table is what it reads back.\<close>

lemma edx_eax_halves:
  "edx_eax v AND 0xffffffff = regs v VCPU_REGS_RAX AND 0xffffffff" "drop_bit 32 (edx_eax v) = regs v VCPU_REGS_RDX AND 0xffffffff"
proof -
  have m: "(0xffffffff :: u64) = mask 32" by (simp add: mask_eq_decr_exp)
  show "edx_eax v AND 0xffffffff = regs v VCPU_REGS_RAX AND 0xffffffff"
    unfolding edx_eax_def m by (rule bit_word_eqI) (auto simp: bit_simps)
  show "drop_bit 32 (edx_eax v) = regs v VCPU_REGS_RDX AND 0xffffffff"
    unfolding edx_eax_def m by (rule bit_word_eqI) (auto simp: bit_simps)
qed

lemma find_msr_from_bound: "find_msr_from es m k = i \<Longrightarrow> 0 \<le> i \<Longrightarrow> i < int (k + length es)"
  by (induction es m k rule: find_msr_from.induct) (auto split: if_splits)

lemma find_msr_from_cong: "map msr_idx es = map msr_idx fs \<Longrightarrow> find_msr_from es m k = find_msr_from fs m k"
proof (induction es arbitrary: fs k)
  case (Cons e es)
  then obtain f gs where "fs = f # gs" "msr_idx f = msr_idx e" "map msr_idx es = map msr_idx gs" by (cases fs) auto
  then show ?case using Cons.IH [of gs] by simp
qed simp

lemma msr_write_read:
  assumes "vmx_handle_msr_write v = (0, v1)" "ucast (regs v VCPU_REGS_RCX) \<noteq> MSR_CSTAR" "nmsrs v \<le> length (guest_msrs v)"
    and v2: "regs v2 VCPU_REGS_RCX = regs v VCPU_REGS_RCX" "guest_msrs v2 = guest_msrs v1" "nmsrs v2 = nmsrs v1"
  shows "\<exists>v3. vmx_handle_msr_read v2 = (0, v3) \<and> edx_eax v3 = edx_eax v"
proof -
  let ?m = "ucast (regs v VCPU_REGS_RCX) :: u32"
  obtain i where i: "find_msr_entry v ?m = Some i"
      "v1 = v\<lparr>guest_msrs := (guest_msrs v)[i := (guest_msrs v ! i)\<lparr>msr_data := edx_eax v\<rparr>]\<rparr>"
    using assms(1,2) by (auto simp: vmx_handle_msr_write_def Let_def split: option.splits if_splits)
  have lt: "i < length (guest_msrs v)"
    using i(1) find_msr_from_bound [of "take (nmsrs v) (guest_msrs v)" ?m 0] assms(3)
    by (auto simp: find_msr_entry_def find_msr_index_def Let_def split: if_splits)
  have "map msr_idx ((guest_msrs v)[i := (guest_msrs v ! i)\<lparr>msr_data := d\<rparr>]) = map msr_idx (guest_msrs v)" for d
    using lt by (simp add: map_update list_update_same_conv)
  then have "map msr_idx (take n (guest_msrs v2)) = map msr_idx (take n (guest_msrs v))" for n
    by (simp add: v2 i(2) flip: take_map)
  then have "find_msr_entry v2 ?m = Some i"
    using i find_msr_from_cong [of "take (nmsrs v) (guest_msrs v2)" "take (nmsrs v) (guest_msrs v)" ?m 0]
    by (simp add: find_msr_entry_def find_msr_index_def v2)
  moreover have "guest_msrs v2 ! i = (guest_msrs v ! i)\<lparr>msr_data := edx_eax v\<rparr>" using lt by (simp add: v2 i(2))
  moreover have "edx_eax (v2\<lparr>regs := (regs v2)(VCPU_REGS_RAX := d AND 0xffffffff, VCPU_REGS_RDX := drop_bit 32 d)\<rparr>) = d" for d
  proof -
    have m: "(0xffffffff :: u64) = mask 32" by (simp add: mask_eq_decr_exp)
    show ?thesis unfolding edx_eax_def m by (rule bit_word_eqI) (auto simp: bit_simps)
  qed
  ultimately show ?thesis by (simp add: vmx_handle_msr_read_def Let_def v2(1))
qed

section \<open>Properties\<close>

text \<open>C37. A bounce is injected, deferred or lost.  Without a pending NMI a pending bounce becomes the event
  of the next entry when the guest takes interrupts, and otherwise stays pending with the exit on
  the interrupt window requested.  With a pending NMI it is lost: the bounce is put into the VMCS and
  marked as done, and the NMI then replaces it.\<close>

theorem bounce_injection:
  assumes "inject_pending hc c (v, s) = (r, v', s')" "bounce_pending v"
    "vmcs_read32 v GUEST_INTERRUPTIBILITY_INFO AND (GUEST_INTR_STATE_STI OR GUEST_INTR_STATE_MOV_SS) = 0"
  shows "r = 0
    \<and> (\<not> nmi_pending v \<and> vmx_interrupt_allowed v \<longrightarrow> vmcs_read32 v' VM_ENTRY_INTR_INFO_FIELD = 0x80000014 \<and> \<not> bounce_pending v')
    \<and> (\<not> nmi_pending v \<and> \<not> vmx_interrupt_allowed v \<longrightarrow> bounce_pending v' \<and> bit (vmcs_read32 v' CPU_BASED_VM_EXEC_CONTROL) 2)
    \<and> (nmi_pending v \<longrightarrow> vmcs_read32 v' VM_ENTRY_INTR_INFO_FIELD = 0x80000202 \<and> \<not> nmi_pending v'
         \<and> (bounce_pending v' \<longleftrightarrow> \<not> vmx_interrupt_allowed v))"
proof -
  obtain v1 s1 where b: "vmx_inject_bounce hc c (v, s) = (v1, s1)" by fastforce
  note i = inject_bounce_result [OF b]
  have sh: "vmcs_read32 v1 GUEST_INTERRUPTIBILITY_INFO AND (GUEST_INTR_STATE_STI OR GUEST_INTR_STATE_MOV_SS) = 0"
    using assms(3) i(3) by (simp add: vmcs_read32_def vmcs_readl_def)
  note n = inject_nmi_result [OF sh]
  have eq: "(r, v', s') = (if nmi_pending v then (fst (vmx_inject_nmi v1), snd (vmx_inject_nmi v1), s1) else (0, v1, s1))"
    using assms(1,2) b i(2) by (simp add: inject_pending_def split: prod.splits if_splits)
  show ?thesis
  proof (cases "nmi_pending v")
    case True
    then show ?thesis using eq i(1) n assms(2) by (simp split: if_splits)
  next
    case False
    then show ?thesis using eq i(1) assms(2) by (simp split: if_splits)
  qed
qed

definition bounced_example :: "bool \<Rightarrow> vmx_vcpu" where
  "bounced_example nmi = vmcs_writel GUEST_RFLAGS 0x202 (vcpu_example\<lparr>bounce_pending := True, nmi_pending := nmi\<rparr>)"

theorem bounce_injection_witness:
  "\<exists>r v' s'. inject_pending host_cpu_example 0 (bounced_example True, cpus_example) = (r, v', s')
    \<and> vmcs_read32 v' VM_ENTRY_INTR_INFO_FIELD = 0x80000202 \<and> \<not> bounce_pending v'"
proof -
  obtain r v' s' where i: "inject_pending host_cpu_example 0 (bounced_example True, cpus_example) = (r, v', s')"
    using prod_cases3 by blast
  have b: "bounce_pending (bounced_example True)" "nmi_pending (bounced_example True)" "vmx_interrupt_allowed (bounced_example True)"
    "vmcs_read32 (bounced_example True) GUEST_INTERRUPTIBILITY_INFO AND (GUEST_INTR_STATE_STI OR GUEST_INTR_STATE_MOV_SS) = 0"
    by (simp_all add: bounced_example_def vmx_interrupt_allowed_def vmcs_access vcpu_example_def vmx_vcpu_zero_def)
  show ?thesis using bounce_injection [OF i b(1,4)] b i by blast
qed

text \<open>C38. XCR0 over an \<^verbatim>\<open>XSETBV\<close> of the guest.  A guest that runs with one XCR0 and sets another keeps running with
  the first one, and when the thread gives the CPU up, the host gets its own value back except when
  the guest has set the host's value: then the host continues with the guest's first value.\<close>

theorem xcr0_after_xsetbv:
  assumes "\<not> guest_xcr0_loaded v" "xcr0 v \<noteq> 0" "hw_xcr0 r = host"
    and "vmx_load_guest_xcr0 True host (v, r) = (v1, r1)"
    and "handle_xsetbv (v1\<lparr>regs := rg\<rparr>) = (0, v2)"
    and "vmx_load_guest_xcr0 True host (v2, r1) = (v3, r3)"
    and "vmx_put_guest_xcr0 True host (v3, r3) = (v4, r4)"
  shows "hw_xcr0 r1 = xcr0 v \<and> hw_xcr0 r3 = xcr0 v \<and> hw_xcr0 r4 = (if xcr0 v2 = host then xcr0 v else host)"
proof -
  have v1: "v1 = v\<lparr>guest_xcr0_loaded := True\<rparr>" "hw_xcr0 r1 = xcr0 v"
    using assms(1-4) by (auto simp: vmx_load_guest_xcr0_def split: if_splits)
  have v2: "guest_xcr0_loaded v2"
    using assms(5) by (auto simp: handle_xsetbv_def Let_def v1(1) split: if_splits)
  then have "v3 = v2" "r3 = r1" using assms(6) by (auto simp: vmx_load_guest_xcr0_def split: if_splits)
  then show ?thesis using assms(7) v1 v2 by (auto simp: vmx_put_guest_xcr0_def split: if_splits)
qed

definition xcr0_example :: "vmx_vcpu \<times> cpu_regs" where
  "xcr0_example = (vcpu_example\<lparr>xcr0 := 1\<rparr>, \<lparr>hw_msrs = (\<lambda>_. 0), hw_xcr0 = 7, hw_cr3 = 0, hw_cr4 = 0, hw_ldt = 0, hw_fs = 0, hw_gs = 0\<rparr>)"

theorem xcr0_after_xsetbv_witness:
  "\<exists>v1 r1 v2 v3 r3 v4 r4. vmx_load_guest_xcr0 True 7 xcr0_example = (v1, r1)
    \<and> handle_xsetbv (v1\<lparr>regs := (\<lambda>_. 0)(VCPU_REGS_RAX := 7)\<rparr>) = (0, v2)
    \<and> vmx_load_guest_xcr0 True 7 (v2, r1) = (v3, r3) \<and> vmx_put_guest_xcr0 True 7 (v3, r3) = (v4, r4)
    \<and> hw_xcr0 r4 = 1"
proof -
  obtain v r where e: "xcr0_example = (v, r)" by fastforce
  have v: "\<not> guest_xcr0_loaded v" "xcr0 v = 1" "hw_xcr0 r = 7"
    using e by (auto simp: xcr0_example_def vcpu_example_def vmx_vcpu_zero_def)
  obtain v1 r1 where l: "vmx_load_guest_xcr0 True 7 (v, r) = (v1, r1)" by fastforce
  obtain q v2 where x: "handle_xsetbv (v1\<lparr>regs := (\<lambda>_. 0)(VCPU_REGS_RAX := 7)\<rparr>) = (q, v2)" by fastforce
  then have q: "q = 0" "xcr0 v2 = 7" by (auto simp: handle_xsetbv_def edx_eax_def Let_def)
  obtain v3 r3 where l2: "vmx_load_guest_xcr0 True 7 (v2, r1) = (v3, r3)" by fastforce
  obtain v4 r4 where p: "vmx_put_guest_xcr0 True 7 (v3, r3) = (v4, r4)" by fastforce
  have "hw_xcr0 r4 = 1"
    using xcr0_after_xsetbv [OF v(1) _ v(3) l x [unfolded q] l2 p] v(2) q(2) by simp
  then show ?thesis using e l x q(1) l2 p by auto
qed

text \<open>C39. The guest never sees an internal restart code.  Whatever a system call returns, and whether or not a
  signal is pending, the guest finds no \<^verbatim>\<open>ERESTART\<close> code in RAX.\<close>

theorem restart_codes_hidden:
  assumes "vmx_handle_syscall addr_ok hc c nr call sp (x, k) = Some (x', k')" "nr \<le> 0x1000"
  shows "regs (fst x') VCPU_REGS_RAX
    \<notin> {of_int (- ERESTARTSYS), of_int (- ERESTARTNOINTR), of_int (- ERESTARTNOHAND), of_int (- ERESTART_RESTARTBLOCK)}"
proof (cases "nr \<le> regs (fst x) VCPU_REGS_RAX")
  case True
  then show ?thesis using assms(1) by (auto simp: vmx_handle_syscall_def set_rax_def split: prod.splits)
next
  case False
  let ?o = "regs (fst x) VCPU_REGS_RAX"
  have o: "?o < 0x1000" using False assms(2) by auto
  obtain rg x1 where m: "make_pt_regs addr_ok hc c x ?o = (rg, x1)" using prod.exhaust_sel by blast
  obtain ret x2 where "call (unat ?o) rg (x1, k) = Some (ret, x2, k')" and y: "x' = finish_syscall hc c (sp k') ?o (set_rax ret x2)"
    using assms(1) False by (simp add: vmx_handle_syscall_def Let_def m) (auto split: option.splits)
  have rw: "regs (fst (rewind_call hc c z)) = regs (fst z)" for z
    using load_keeps(2) [of hc c "fst z" "snd z"] by (auto simp: rewind_call_def vmcs_access split: prod.splits)
  have sr: "regs (fst (set_rax a z)) VCPU_REGS_RAX = a" for a z by (simp add: set_rax_def split: prod.splits)
  have no: "?o \<noteq> of_int (- ERESTARTSYS)" "?o \<noteq> of_int (- ERESTARTNOINTR)" "?o \<noteq> of_int (- ERESTARTNOHAND)" "?o \<noteq> of_int (- ERESTART_RESTARTBLOCK)"
    using o by auto
  show ?thesis unfolding y finish_syscall_def Let_def using no by (simp add: rw sr)
qed

theorem restart_codes_hidden_witness:
  "\<exists>x'. vmx_handle_syscall (\<lambda>_. True) host_cpu_example 0 0x200 (\<lambda>_ _ (x, k). Some (of_int (- ERESTARTSYS), x, k)) (\<lambda>_. False)
      ((vcpu_example, cpus_example), ()) = Some (x', ())
    \<and> regs (fst x') VCPU_REGS_RAX \<noteq> of_int (- ERESTARTSYS) \<and> regs (fst x') VCPU_REGS_RAX = 0"
proof -
  let ?h = "vmx_handle_syscall (\<lambda>_. True) host_cpu_example 0 0x200 (\<lambda>_ _ (x, k). Some (of_int (- ERESTARTSYS), x, k)) (\<lambda>_. False)
      ((vcpu_example, cpus_example), ())"
  obtain x' where x': "?h = Some (x', ())" "regs (fst x') VCPU_REGS_RAX = 0"
    by (simp add: vmx_handle_syscall_def make_pt_regs_def finish_syscall_def set_rax_def rewind_call_def Let_def vmcs_access
        vmx_get_cpu_def do_load_vcpu_def vmcs_load_def vmx_make_request_def vcpu_example_def vmx_vcpu_zero_def cpus_example_def)
  show ?thesis using restart_codes_hidden [OF x'(1)] x' by auto
qed

end
