(* ===== verification/Slim_Vmx_Launch.thy ===== *)
theory Slim_Vmx_Launch
  imports Slim_Vmx_Switch Slim_Vmx_Exit Slim_Seccomp Slim_Instance
begin

text \<open>
  The main loop of a VMX vcpu (\<^verbatim>\<open>vmx_launch\<close>) with what it calls: the work before the guest may be entered, giving
  the CPU up and getting it back, the dispatch of the exits, the system calls that end the thread.
  Everything outside the module is the environment: what the guest does, which signals arrive, what
  the other threads do to this vcpu.  It answers by a clock that advances with every round of a loop,
  so that one environment covers all the runs of a vcpu.
\<close>

section \<open>State and environment\<close>

text \<open>\<open>vg_cpu\<close> is the CPU the thread is on, \<open>vg_task\<close> the thread.\<close>

record vmx_global =
  vg_kernel :: vmx_kernel
  vg_nested :: nested_mem
  vg_regs :: "nat \<Rightarrow> cpu_regs"
  vg_task :: task
  vg_cpu :: nat
  vg_time :: nat

type_synonym vmx_st = "vmx_vcpu \<times> vmx_inst \<times> vmx_global"

text \<open>
  The other threads add requests, shut the vcpu and the instance down, and take the vcpu out of guest
  mode (\<open>en_kick\<close>).  \<open>en_task\<close> is what happens to the thread from outside: signals, a tracer.  \<open>en_flags\<close> are the
  thread flags for rescheduling and for work on the way to user mode.
\<close>

record vmx_env =
  en_guest :: "nat \<Rightarrow> guest"
  en_guest_gs :: "nat \<Rightarrow> u64"
  en_requests :: "nat \<Rightarrow> bitmap"
  en_shutdown :: "nat \<Rightarrow> bool"
  en_kick :: "nat \<Rightarrow> bool"
  en_task :: "nat \<Rightarrow> task \<Rightarrow> task"
  en_flags :: "nat \<Rightarrow> bool \<times> bool"
  en_fatal :: "nat \<Rightarrow> bool"
  en_keep :: "nat \<Rightarrow> bool"
  en_preempt :: "nat \<Rightarrow> bool"
  en_next_cpu :: "nat \<Rightarrow> nat"
  en_hc :: host_cpu
  en_addr_ok :: "u64 \<Rightarrow> bool"
  en_nr_syscalls :: nat
  en_arch :: u32
  en_filters :: "nat \<Rightarrow> bpf_prog list"
  en_syscall :: "nat \<Rightarrow> nat \<Rightarrow> pt_regs \<Rightarrow> task \<Rightarrow> (u64 \<times> task) option"
  en_clone :: "nat \<Rightarrow> unit kernel_clone"
  en_cpuid :: "u32 \<Rightarrow> u32 \<Rightarrow> u32 \<times> u32 \<times> u32 \<times> u32"
  en_galloc :: page_alloc
  en_host :: "nat \<Rightarrow> u64 \<Rightarrow> host_answers"
  en_mask_ok :: "nat \<Rightarrow> bool"
  en_modes :: "nat \<Rightarrow> nat \<Rightarrow> vcpu_mode \<Rightarrow> vcpu_mode"
  en_create :: "nat \<Rightarrow> create_env"
  en_enable :: enable_env
  en_register :: "nat \<Rightarrow> int"

definition cpu_has_vmx_ept_ad_bits :: "vmx_engine \<Rightarrow> bool" where
  "cpu_has_vmx_ept_ad_bits e \<longleftrightarrow> cap_ept (ve_cap e) AND 0x200000 \<noteq> 0"

definition on_cpus :: "(loaded \<Rightarrow> 'a \<times> loaded) \<Rightarrow> vmx_st \<Rightarrow> 'a \<times> vmx_st" where
  "on_cpus f = (\<lambda>(v, i, g).
     let (a, v1, s1) = f (v, vk_cpus (vg_kernel g)) in (a, v1, i, g\<lparr>vg_kernel := (vg_kernel g)\<lparr>vk_cpus := s1\<rparr>\<rparr>))"

definition on_vcpu :: "(vmx_vcpu \<Rightarrow> vmx_vcpu) \<Rightarrow> vmx_st \<Rightarrow> vmx_st" where
  "on_vcpu f = (\<lambda>(v, i, g). (f v, i, g))"

definition on_task :: "(task \<Rightarrow> task) \<Rightarrow> vmx_st \<Rightarrow> vmx_st" where
  "on_task f = (\<lambda>(v, i, g). (v, i, g\<lparr>vg_task := f (vg_task g)\<rparr>))"

text \<open>The registers are those of the CPU the thread is on.\<close>

definition on_thread :: "(vmx_vcpu \<times> vmcs_cpus \<times> cpu_regs \<Rightarrow> vmx_vcpu \<times> vmcs_cpus \<times> cpu_regs) \<Rightarrow> vmx_st \<Rightarrow> vmx_st" where
  "on_thread f = (\<lambda>(v, i, g).
     let (v1, s1, r1) = f (v, vk_cpus (vg_kernel g), vg_regs g (vg_cpu g))
     in (v1, i, g\<lparr>vg_kernel := (vg_kernel g)\<lparr>vk_cpus := s1\<rparr>, vg_regs := (vg_regs g)(vg_cpu g := r1)\<rparr>))"

text \<open>What the other threads have done since the last look.\<close>

definition interfere :: "vmx_env \<Rightarrow> vmx_st \<Rightarrow> vmx_st" where
  "interfere en = (\<lambda>(v, i, g).
     let t = vg_time g; v1 = (if en_kick en t then snd (vmx_vcpu_exiting_guest_mode v) else v) in
     (v1\<lparr>requests := (\<lambda>k. requests v1 k \<or> en_requests en t k), shutdown := shutdown v1 \<or> en_shutdown en t\<rparr>,
      i\<lparr>inst_shutdown := inst_shutdown i \<or> en_shutdown en t\<rparr>,
      g\<lparr>vg_task := en_task en t (vg_task g), vg_time := t + 1\<rparr>))"

section \<open>Taking and leaving the CPU\<close>

definition slimvm_sched_in :: "host_cpu \<Rightarrow> nat \<Rightarrow> vmx_vcpu \<times> vmcs_cpus \<times> cpu_regs \<Rightarrow> vmx_vcpu \<times> vmcs_cpus \<times> cpu_regs" where
  "slimvm_sched_in hc c = (\<lambda>(vcpu, s, r).
     let v1 = vmx_save_host_msrs r vcpu;
         (v2, s2) = do_load_vcpu hc c (v1, s);
         s3 = s2\<lparr>current_vcpu := (current_vcpu s2)(c := Some (self v2))\<rparr>;
         v3 = v2\<lparr>scheded := True\<rparr>;
         v4 = vmcs_writel HOST_FS_BASE (hw_msrs r MSR_FS_BASE) v3;
         v5 = vmcs_writel HOST_GS_BASE (hw_msrs r MSR_GS_BASE) v4
     in (v5, s3, r))"

definition slimvm_sched_out :: "bool \<Rightarrow> u64 \<Rightarrow> nat \<Rightarrow> vmx_vcpu \<times> vmcs_cpus \<times> cpu_regs \<Rightarrow> vmx_vcpu \<times> vmcs_cpus \<times> cpu_regs" where
  "slimvm_sched_out xs host_xcr0 c = (\<lambda>(vcpu, s, r).
     let s1 = s\<lparr>current_vcpu := (current_vcpu s)(c := None)\<rparr>;
         (v1, r1) = vmx_load_host_msrs (vcpu, r);
         (v2, r2) = vmx_put_guest_xcr0 xs host_xcr0 (v1, r1)
     in (v2, s1, r2))"

definition vmx_load_vcpu :: "host_cpu \<Rightarrow> nat \<Rightarrow> vmx_vcpu \<times> vmcs_cpus \<times> cpu_regs \<Rightarrow> vmx_vcpu \<times> vmcs_cpus \<times> cpu_regs" where
  "vmx_load_vcpu hc c = (\<lambda>(vcpu, s, r).
     let v1 = vmx_save_host_msrs r vcpu;
         (v2, s2) = do_load_vcpu hc c (v1, s);
         s3 = s2\<lparr>current_vcpu := (current_vcpu s2)(c := Some (self v2))\<rparr>;
         v3 = v2\<lparr>scheded := True\<rparr>;
         v4 = vmcs_writel HOST_FS_BASE (hw_msrs r MSR_FS_BASE) v3;
         v5 = vmcs_writel HOST_GS_BASE (hw_msrs r MSR_GS_BASE) v4
     in (v5, s3, r))"

definition vmx_put_vcpu :: "bool \<Rightarrow> u64 \<Rightarrow> nat \<Rightarrow> vmx_vcpu \<times> vmcs_cpus \<times> cpu_regs \<Rightarrow> vmx_vcpu \<times> vmcs_cpus \<times> cpu_regs" where
  "vmx_put_vcpu xs host_xcr0 c = (\<lambda>(vcpu, s, r).
     let s1 = s\<lparr>current_vcpu := (current_vcpu s)(c := None)\<rparr>;
         (v1, r1) = vmx_load_host_msrs (vcpu, r);
         (v2, r2) = vmx_put_guest_xcr0 xs host_xcr0 (v1, r1)
     in (v2, s1, r2))"

text \<open>\<^verbatim>\<open>schedule()\<close>: the preemption notifiers run before the thread leaves its CPU and when it is on the next one.\<close>

definition schedule_thread :: "vmx_env \<Rightarrow> vmx_st \<Rightarrow> vmx_st" where
  "schedule_thread en st =
     (let (v, i, g) = st; e = vk_engine (vg_kernel g);
          (v1, i1, g1) = on_thread (slimvm_sched_out (ve_has_xsave e) (ve_host_xcr0 e) (vg_cpu g)) st;
          c = en_next_cpu en (vg_time g)
      in on_thread (slimvm_sched_in (en_hc en) c) (v1, i1, g1\<lparr>vg_cpu := c\<rparr>))"

text \<open>Where preemption is enabled the thread may lose its CPU without asking.\<close>

definition preempt_point :: "vmx_env \<Rightarrow> vmx_st \<Rightarrow> vmx_st" where
  "preempt_point en st =
     (let (v, i, g) = (if en_preempt en (vg_time (snd (snd st))) then schedule_thread en st else st) in (v, i, g\<lparr>vg_time := vg_time g + 1\<rparr>))"

section \<open>Before the guest may be entered\<close>

text \<open>The thread flags: rescheduling, work to do, a signal.\<close>

definition thread_flags :: "vmx_env \<Rightarrow> vmx_st \<Rightarrow> bool \<times> bool \<times> bool" where
  "thread_flags en = (\<lambda>(v, i, g). (fst (en_flags en (vg_time g)), snd (en_flags en (vg_time g)), tk_sigpending (vg_task g)))"

text \<open>One pass: the result is that of the function when the loop ends in it.\<close>

definition guestmode_pass :: "vmx_env \<Rightarrow> bool \<times> bool \<times> bool \<Rightarrow> vmx_st \<Rightarrow> int \<times> vmx_st" where
  "guestmode_pass en = (\<lambda>(resched, notify, sig) st.
     let (v, i, g) = (if resched then schedule_thread en st else st) in
     if sig \<and> en_fatal en (vg_time g) then (- 1, v\<lparr>status := SLIMVM_RET_INTR\<rparr>, i, g)
     else
       (let (r, v1, t1) = (if sig then slimvm_signal_handler (en_keep en (vg_time g)) v (vg_task g) else (0, v, vg_task g));
            g1 = g\<lparr>vg_task := t1\<rparr>
        in if r \<noteq> 0 then (- 1, v1\<lparr>status := SLIMVM_RET_INTR\<rparr>, i, g1) else (0, interfere en (v1, i, g1))))"

partial_function (option) enter_guestmode_loop :: "vmx_env \<Rightarrow> bool \<times> bool \<times> bool \<Rightarrow> vmx_st \<Rightarrow> (int \<times> vmx_st) option" where
  "enter_guestmode_loop en cached_flags st =
     (let (r, st1) = guestmode_pass en cached_flags st; flags = thread_flags en st1 in
      if r \<noteq> 0 \<or> flags = (False, False, False) then Some (r, st1) else enter_guestmode_loop en flags st1)"

definition prepare_enter_guestmode :: "vmx_env \<Rightarrow> vmx_st \<Rightarrow> (int \<times> vmx_st) option" where
  "prepare_enter_guestmode en st =
     (let (v, i, g) = st; cached_flags = thread_flags en st in
      if shutdown v \<or> inst_shutdown i then Some (- 1, st)
      else if cached_flags = (False, False, False) then Some (0, st)
      else enter_guestmode_loop en cached_flags st)"

section \<open>All vcpus of an instance\<close>

definition shutdown_one :: "int \<Rightarrow> nat \<Rightarrow> int set \<times> vmx_inst \<Rightarrow> int set \<times> vmx_inst" where
  "shutdown_one me n = (\<lambda>(cpus, instp).
     case vcpus instp n of
       None \<Rightarrow> (cpus, instp)
     | Some vcpu \<Rightarrow>
         (if cpu vcpu \<noteq> - 1 \<and> cpu vcpu \<noteq> me \<and> \<not> vmx_check_vcpu_mode vcpu OUTSIDE_ROOT_MODE then insert (cpu vcpu) cpus else cpus,
          instp\<lparr>vcpus := (vcpus instp)(n := Some (vcpu\<lparr>shutdown := True\<rparr>))\<rparr>))"

text \<open>With the CPUs that are interrupted: all of them (\<open>None\<close>) when no mask could be allocated.\<close>

definition vmx_shutdown_all_vcpus :: "bool \<Rightarrow> int \<Rightarrow> vmx_inst \<Rightarrow> int set option \<times> vmx_inst" where
  "vmx_shutdown_all_vcpus mask_ok me instp =
     (let (cpus, i1) = fold (shutdown_one me) (set_bits_of (vcpu_bitmap instp) VM_MAX_VCPUS) ({}, instp)
      in (if mask_ok then Some cpus else None, i1\<lparr>inst_shutdown := True\<rparr>))"

definition all_outside :: "vmx_inst \<Rightarrow> bool" where
  "all_outside instp \<longleftrightarrow> list_all (\<lambda>n. case vcpus instp n of None \<Rightarrow> True | Some vcpu \<Rightarrow> vmx_check_vcpu_mode vcpu OUTSIDE_ROOT_MODE)
     (set_bits_of (vcpu_bitmap instp) VM_MAX_VCPUS)"

text \<open>The modes of the vcpus change while another thread waits for them.\<close>

definition modes_change :: "vmx_env \<Rightarrow> nat \<Rightarrow> vmx_inst \<Rightarrow> vmx_inst" where
  "modes_change en t instp = instp\<lparr>vcpus := (\<lambda>n. map_option (\<lambda>v. v\<lparr>vmode := en_modes en t n (vmode v)\<rparr>) (vcpus instp n))\<rparr>"

partial_function (option) vmx_sync_all_vcpus :: "vmx_env \<Rightarrow> vmx_inst \<Rightarrow> nat \<Rightarrow> (vmx_inst \<times> nat) option" where
  "vmx_sync_all_vcpus en instp t =
     (if all_outside instp then Some (instp, t) else vmx_sync_all_vcpus en (modes_change en t instp) (t + 1))"

section \<open>Entering the guest\<close>

definition requests_pending :: "vmx_vcpu \<Rightarrow> bool" where
  "requests_pending v = list_ex (requests v) [0..<64]"

text \<open>What is done with preemption disabled and interrupts enabled.  The first result is the variable \<^verbatim>\<open>r\<close>, which only a
  pending NMI assigns.\<close>

definition before_entry :: "vmx_env \<Rightarrow> int \<Rightarrow> vmx_st \<Rightarrow> int \<times> vmx_st" where
  "before_entry en r st =
     (let (_, st1) = on_cpus (\<lambda>x. ((), do_load_vcpu (en_hc en) (vg_cpu (snd (snd st))) x)) st;
          st2 = on_vcpu (\<lambda>v. snd (vmx_process_vcpu_requests v)) st1;
          (r1, st3) = on_cpus (inject_pending (en_hc en) (vg_cpu (snd (snd st)))) st2
      in (if nmi_pending (fst st2) then r1 else r, st3))"

definition restore_debug :: "vmx_env \<Rightarrow> vmx_st \<Rightarrow> vmx_st" where
  "restore_debug en = (\<lambda>(v, i, g).
     let ((v1, s1), t1) = exceptions_restore_guest_regs (en_hc en) (vg_cpu g) pt_regs_zero (v, vk_cpus (vg_kernel g)) (vg_task g)
     in (v1, i, g\<lparr>vg_kernel := (vg_kernel g)\<lparr>vk_cpus := s1\<rparr>, vg_task := t1\<rparr>))"

text \<open>From saving the host state to the point where interrupts are enabled again: the exit reason and the state.\<close>

definition vmx_enter :: "vmx_env \<Rightarrow> int \<Rightarrow> vmx_st \<Rightarrow> u32 \<times> vmx_st" where
  "vmx_enter en last_vmexit = (\<lambda>(v, i, g).
     let c = vg_cpu g; e = vk_engine (vg_kernel g); t = vg_time g; r0 = vg_regs g c;
         v1 = vmx_save_host_state r0 v;
         (v2, r2) = enter_switch (ve_has_xsave e) (ve_host_xcr0 e) last_vmexit (v1, r0);
         (reason, v3, s3) = vmx_run_vcpu (en_guest en t) c (v2, vk_cpus (vg_kernel g));
         r3 = (if fail v3 then r2
               else vm_exit_regs v3 (r2\<lparr>hw_msrs := (hw_msrs r2)(MSR_KERNEL_GS_BASE := en_guest_gs en t)\<rparr>));
         v4 = vmx_set_vcpu_mode v3 OUTSIDE_GUEST_MODE;
         r4 = vmx_load_host_state v4 r3;
         (v5, r5) = exit_switch (uint reason) (v4, r4);
         exit_intr_info = vmcs_read32 v5 VM_EXIT_INTR_INFO;
         (v6, s6) = (if exit_intr_info AND INTR_INFO_INTR_TYPE_MASK = INTR_TYPE_NMI_INTR \<and> exit_intr_info AND INTR_INFO_VALID_MASK \<noteq> 0
                     then snd (vmx_handle_nmi (en_addr_ok en) (en_hc en) c (v5, s3)) else (v5, s3));
         v7 = vmx_process_step_instructions (uint reason) v6
     in (reason, v7, i, g\<lparr>vg_kernel := (vg_kernel g)\<lparr>vk_cpus := s6\<rparr>, vg_regs := (vg_regs g)(c := r5)\<rparr>))"

section \<open>The operations of the engine without the loop\<close>

text \<open>The table of operations; \<open>vmx_launch\<close> below completes it.\<close>

definition vmx_ops_create_vcpu :: "vmx_env \<Rightarrow> slimvm_config \<Rightarrow> vmx_inst \<Rightarrow> nat \<Rightarrow> vmx_global \<Rightarrow> vmx_vcpu option \<times> vmx_global" where
  "vmx_ops_create_vcpu en conf instp no g =
     (let (v, k) = vmx_create_vcpu (en_create en (vg_time g)) conf (eptp instp) no (vg_kernel g)
      in (v, g\<lparr>vg_kernel := k, vg_time := vg_time g + 1\<rparr>))"

definition vmx_ops_destroy_vcpu :: "vmx_env \<Rightarrow> vmx_vcpu \<Rightarrow> vmx_global \<Rightarrow> vmx_global" where
  "vmx_ops_destroy_vcpu en vcpu g = g\<lparr>vg_kernel := vmx_destroy_vcpu (en_hc en) (vg_cpu g) vcpu (vg_kernel g)\<rparr>"

definition vmx_ops_vcpu_is_shutdown :: "vmx_vcpu \<Rightarrow> bool" where
  "vmx_ops_vcpu_is_shutdown vcpu = shutdown vcpu"

definition vmx_ops_make_nmi_request :: "vmx_vcpu \<Rightarrow> vmx_vcpu" where
  "vmx_ops_make_nmi_request vcpu = vmx_make_request SLIMVM_REQ_NMI vcpu"

definition vmx_ops_without_launch :: "vmx_env \<Rightarrow> (vmx_vcpu, vmx_global) slimvm_engine_ops" where
  "vmx_ops_without_launch en = \<lparr>
     eng_name = ''vmx'',
     hardware_enable_all = (\<lambda>g. let (r, e) = vmx_hardware_enable_all (en_enable en) (vk_engine (vg_kernel g))
                                in (r, g\<lparr>vg_kernel := (vg_kernel g)\<lparr>vk_engine := e\<rparr>\<rparr>)),
     hardware_disable_all = (\<lambda>g. g\<lparr>vg_kernel := (vg_kernel g)\<lparr>vk_engine := vmx_hardware_disable_all (en_enable en) (vk_engine (vg_kernel g))\<rparr>\<rparr>),
     create_vcpu = vmx_ops_create_vcpu en,
     destroy_vcpu = vmx_ops_destroy_vcpu en,
     launch = (\<lambda>_ _ _ _. None),
     set_vcpu_mode = vmx_set_vcpu_mode,
     vcpu_is_shutdown = vmx_ops_vcpu_is_shutdown,
     make_nmi_request = vmx_ops_make_nmi_request,
     shutdown_all_vcpus = (\<lambda>i g. (snd (vmx_shutdown_all_vcpus (en_mask_ok en (vg_time g)) (int (vg_cpu g)) i), g)),
     sync_all_vcpus = (\<lambda>i g. case vmx_sync_all_vcpus en i (vg_time g) of None \<Rightarrow> None | Some (i1, t) \<Rightarrow> Some (i1, g\<lparr>vg_time := t\<rparr>)),
     instance_alloc_ptp = (\<lambda>i g. let (r, i1, h) = instance_alloc_eptp (cpu_has_vmx_ept_ad_bits (vk_engine (vg_kernel g))) (en_galloc en) i
                                       (em_heap (vg_nested g))
                                 in (r, i1, g\<lparr>vg_nested := (vg_nested g)\<lparr>em_heap := h\<rparr>\<rparr>)),
     instance_init_pt = (\<lambda>_ i g. let (r, i1) = instance_init_ept (en_register en (vg_time g)) i in (r, i1, g\<lparr>vg_time := vg_time g + 1\<rparr>)),
     instance_destroy_pt = (\<lambda>i g. case instance_destroy_ept i (em_heap (vg_nested g)) of
                                    None \<Rightarrow> None
                                  | Some (i1, h) \<Rightarrow> Some (i1, g\<lparr>vg_nested := (vg_nested g)\<lparr>em_heap := h\<rparr>\<rparr>))\<rparr>"

section \<open>Exits\<close>

text \<open>How the handling of an exit ends: with the variables \<^verbatim>\<open>done\<close> and \<^verbatim>\<open>r\<close>, or with the end of the thread.\<close>

datatype exit_result = Handled bool int vmx_st | Ended vmx_inst vmx_global

definition put_slot :: "nat \<Rightarrow> vmx_st \<Rightarrow> vmx_inst" where
  "put_slot n = (\<lambda>(v, i, g). i\<lparr>vcpus := (vcpus i)(n := Some v)\<rparr>)"

text \<open>\<^verbatim>\<open>exit\<close> and \<^verbatim>\<open>exit_group\<close> of the guest: the vcpu is given back and the thread ends.\<close>

definition slimvm_sys_exit :: "vmx_env \<Rightarrow> nat \<Rightarrow> vmx_st \<Rightarrow> exit_result option" where
  "slimvm_sys_exit en n st =
     (let (v, i, g) = st; e = vk_engine (vg_kernel g);
          st1 = on_thread (vmx_put_vcpu (ve_has_xsave e) (ve_host_xcr0 e) (vg_cpu g)) st;
          st2 = on_vcpu (\<lambda>v. vmx_set_vcpu_mode v OUTSIDE_ROOT_MODE) st1
      in case vcpu_release (vmx_ops_without_launch en) (put_slot n st2) (int (vcpu_no (fst st2))) (snd (snd st2)) of
           None \<Rightarrow> None
         | Some (i1, g1) \<Rightarrow> Some (Ended i1 g1))"

text \<open>The guest's system call table.  The two exits are reached here only when no vcpu is recorded for the CPU.\<close>

definition slimvm_call :: "vmx_env \<Rightarrow> vmx_global \<Rightarrow> nat \<Rightarrow> pt_regs \<Rightarrow> loaded \<times> task \<Rightarrow> (u64 \<times> loaded \<times> task) option" where
  "slimvm_call en g nr rg = (\<lambda>(x, tk).
     let t = vg_time g; c = vg_cpu g in
     case ve_syscall_table (vk_engine (vg_kernel g)) nr of
       Sys_kernel k \<Rightarrow> (case en_syscall en t k rg tk of None \<Rightarrow> None | Some (ret, tk1) \<Rightarrow> Some (ret, x, tk1))
     | Sys_clone \<Rightarrow> (let (ret, tk1, _) = slimvm_sys_clone (en_clone en t) rg (tk, ()) in Some (ret, x, tk1))
     | Sys_fork \<Rightarrow> (let (ret, x1, tk1, _) = slimvm_sys_fork (en_addr_ok en) (en_hc en) c (en_clone en t) (x, tk, ()) in Some (ret, x1, tk1))
     | Sys_vfork \<Rightarrow> (let (ret, x1, tk1, _) = slimvm_sys_vfork (en_addr_ok en) (en_hc en) c (en_clone en t) (x, tk, ()) in Some (ret, x1, tk1))
     | Sys_exit \<Rightarrow> Some (of_int (- ENOENT), x, tk)
     | Sys_exit_group \<Rightarrow> Some (of_int (- ENOENT), x, tk))"

definition is_exit_call :: "vmx_env \<Rightarrow> vmx_st \<Rightarrow> bool" where
  "is_exit_call en = (\<lambda>(v, i, g).
     regs v VCPU_REGS_RAX < of_nat (en_nr_syscalls en)
     \<and> ve_syscall_table (vk_engine (vg_kernel g)) (unat (regs v VCPU_REGS_RAX)) \<in> {Sys_exit, Sys_exit_group}
     \<and> current_vcpu (vk_cpus (vg_kernel g)) (vg_cpu g) \<noteq> None)"

definition handle_vmcall :: "vmx_env \<Rightarrow> nat \<Rightarrow> int \<Rightarrow> vmx_st \<Rightarrow> exit_result option" where
  "handle_vmcall en n r st =
     (let hc = en_hc en; c = vg_cpu (snd (snd st)); t = vg_time (snd (snd st));
          (cpl, st1) = on_cpus (vmx_get_cpl hc c) st
      in if cpl \<noteq> 0 then Some (Handled False r st1)
         else
           (let (sc, rg) = do_seccomp_filter (en_nr_syscalls en) (en_arch en) (en_filters en t) (regs (fst st1));
                st2 = on_vcpu (\<lambda>v. v\<lparr>regs := rg\<rparr>) st1
            in if sc \<noteq> 0 then
                 (let (v, i, g) = st2; (_, i1) = vmx_shutdown_all_vcpus (en_mask_ok en t) (int c) (put_slot n st2)
                  in Some (Handled True r (the (vcpus i1 n), i1, g)))
               else if is_exit_call en st2 then
                 (let (_, st3) = on_cpus (\<lambda>x. make_pt_regs (en_addr_ok en) hc c x (regs (fst st2) VCPU_REGS_RAX)) st2
                  in slimvm_sys_exit en n st3)
               else
                 (let (v, i, g) = st2 in
                  case vmx_handle_syscall (en_addr_ok en) hc c (of_nat (en_nr_syscalls en)) (slimvm_call en g) tk_sigpending
                         ((v, vk_cpus (vg_kernel g)), vg_task g) of
                    None \<Rightarrow> None
                  | Some ((v1, s1), t1) \<Rightarrow> Some (Handled False r (v1, i, g\<lparr>vg_kernel := (vg_kernel g)\<lparr>vk_cpus := s1\<rparr>, vg_task := t1\<rparr>)))))"

definition set_status :: "int \<Rightarrow> vmx_st \<Rightarrow> vmx_st" where
  "set_status x = on_vcpu (\<lambda>v. v\<lparr>status := x\<rparr>)"

definition vmx_handle_exit :: "vmx_env \<Rightarrow> nat \<Rightarrow> u32 \<Rightarrow> int \<Rightarrow> vmx_st \<Rightarrow> exit_result option" where
  "vmx_handle_exit en n reason r st =
     (let (v, i, g) = st; hc = en_hc en; c = vg_cpu g; why = uint reason in
      if why = EXIT_REASON_VMCALL then handle_vmcall en n r st
      else if why = EXIT_REASON_CPUID then Some (Handled False r (on_vcpu (vmx_handle_cpuid (en_cpuid en)) st))
      else if why = EXIT_REASON_EPT_VIOLATION then
        (case vmx_handle_ept_violation (cpu_has_vmx_ept_ad_bits (vk_engine (vg_kernel g))) (en_galloc en) (en_host en (vg_time g)) hc c
                ((v, vk_cpus (vg_kernel g)), i, vg_nested g) of
           None \<Rightarrow> None
         | Some (r1, (v1, s1), i1, m1) \<Rightarrow>
             (let st1 = (v1, i1, g\<lparr>vg_kernel := (vg_kernel g)\<lparr>vk_cpus := s1\<rparr>, vg_nested := m1\<rparr>)
              in Some (if r1 < 0 then Handled True r1 (set_status SLIMVM_RET_INTERNAL_ERROR st1) else Handled False r1 st1)))
      else if why = EXIT_REASON_EPT_MISCONFIG then
        (case vmx_handle_ept_misconfig hc c i (em_heap (vg_nested g)) (v, vk_cpus (vg_kernel g)) of
           None \<Rightarrow> None
         | Some (_, v1, s1) \<Rightarrow>
             Some (Handled True r (set_status SLIMVM_RET_UNHANDLED_VMEXIT (v1, i, g\<lparr>vg_kernel := (vg_kernel g)\<lparr>vk_cpus := s1\<rparr>\<rparr>))))
      else if why = EXIT_REASON_HLT then (let (d, st1) = on_cpus (handle_halt hc c) st in Some (Handled (d \<noteq> 0) r st1))
      else if why = EXIT_REASON_EXCEPTION_NMI then
        (let (d, (v1, s1), t1) = vmx_handle_nmi_exception hc c (v, vk_cpus (vg_kernel g)) (vg_task g)
         in Some (Handled (d \<noteq> 0) r (v1, i, g\<lparr>vg_kernel := (vg_kernel g)\<lparr>vk_cpus := s1\<rparr>, vg_task := t1\<rparr>)))
      else if why = EXIT_REASON_MSR_WRITE then
        (let (d, v1) = vmx_handle_msr_write v
         in Some (if d \<noteq> 0 then Handled True r (set_status SLIMVM_RET_MSR_WRITE (v1, i, g)) else Handled False r (v1, i, g)))
      else if why = EXIT_REASON_MSR_READ then
        (let (d, v1) = vmx_handle_msr_read v in Some (Handled (d \<noteq> 0) r (v1, i, g)))
      else if why = EXIT_REASON_XSETBV then Some (Handled False r (on_vcpu (\<lambda>v. snd (handle_xsetbv v)) st))
      else if why = EXIT_REASON_INTERRUPT_WINDOW then
        (if bounce_pending v then (let (_, st1) = on_cpus (\<lambda>x. ((), vmx_inject_bounce hc c x)) st in Some (Handled False r st1))
         else Some (Handled False r (on_vcpu (vmx_set_interrupt_window_exiting False) st)))
      else if why = EXIT_REASON_MCE_DURING_VMENTRY \<or> why = EXIT_REASON_EXTERNAL_INTERRUPT then Some (Handled False r st)
      else
        Some (Handled True r
          (set_status (if reason AND VMX_EXIT_REASONS_FAILED_VMENTRY \<noteq> 0 then SLIMVM_RET_FAIL_ENTRY else SLIMVM_RET_UNHANDLED_VMEXIT) st)))"

section \<open>The loop\<close>

text \<open>A round of the loop goes on, with \<^verbatim>\<open>last_vmexit\<close> and \<^verbatim>\<open>r\<close>, leaves the loop, or ends the thread.\<close>

datatype round_result = Next int int vmx_st | Stop int vmx_st | Gone vmx_inst vmx_global

definition vmx_round :: "vmx_env \<Rightarrow> nat \<Rightarrow> int \<Rightarrow> int \<Rightarrow> vmx_st \<Rightarrow> round_result option" where
  "vmx_round en n last_vmexit r st =
     (case prepare_enter_guestmode en (preempt_point en (interfere en st)) of
        None \<Rightarrow> None
      | Some (p, st1) \<Rightarrow>
          if p \<noteq> 0 then Some (Stop r st1)
          else
            (let (r1, st2) = before_entry en r st1 in
             if r1 \<noteq> 0 \<and> nmi_pending (fst st2) then Some (Stop r1 (on_vcpu (\<lambda>v. vmx_set_vcpu_mode v OUTSIDE_GUEST_MODE) st2))
             else
               (let st3 = on_vcpu (\<lambda>v. vmx_set_vcpu_mode v IN_GUEST_MODE) (restore_debug en st2);
                    st4 = interfere en st3;
                    resched = fst (thread_flags en st4)
                in if vmx_check_vcpu_mode (fst st4) EXITING_GUEST_MODE \<or> requests_pending (fst st4) \<or> resched
                   then Some (Next last_vmexit r1 (on_vcpu (\<lambda>v. vmx_set_vcpu_mode v OUTSIDE_GUEST_MODE) st4))
                   else
                     (let (reason, st5) = vmx_enter en last_vmexit st4 in
                      case vmx_handle_exit en n reason r1 (preempt_point en st5) of
                        None \<Rightarrow> None
                      | Some (Ended i g) \<Rightarrow> Some (Gone i g)
                      | Some (Handled d r2 st6) \<Rightarrow>
                          Some (if d \<or> shutdown (fst st6) then Stop r2 st6 else Next (uint reason) r2 st6)))))"

partial_function (option) vmx_launch_loop :: "vmx_env \<Rightarrow> nat \<Rightarrow> int \<Rightarrow> int \<Rightarrow> vmx_st \<Rightarrow> round_result option" where
  "vmx_launch_loop en n last_vmexit r st =
     (case vmx_round en n last_vmexit r st of
        None \<Rightarrow> None
      | Some (Next last' r' st') \<Rightarrow> vmx_launch_loop en n last' r' st'
      | Some res \<Rightarrow> Some res)"

text \<open>The signal mask of the thread is that of the vcpu while it runs.\<close>

definition sigprocmask :: "bool \<Rightarrow> bitmap \<Rightarrow> task \<Rightarrow> task" where
  "sigprocmask keep b t = recalc_sigpending keep (t\<lparr>tk_blocked := b\<rparr>)"

text \<open>What \<^verbatim>\<open>vmx_launch\<close> does before its loop and after it.\<close>

definition launch_begin :: "vmx_env \<Rightarrow> vmx_st \<Rightarrow> vmx_st" where
  "launch_begin en st =
     (let (v, i, g) = st;
          st1 = (if sigset_active v then on_task (sigprocmask (en_keep en (vg_time g)) (\<lambda>k. bit (sigset v) (k - 1))) st else st)
      in on_thread (vmx_load_vcpu (en_hc en) (vg_cpu g)) st1)"

definition launch_end :: "vmx_env \<Rightarrow> slimvm_config \<Rightarrow> bitmap \<Rightarrow> int \<Rightarrow> vmx_st \<Rightarrow> int \<times> slimvm_config \<times> vmx_st" where
  "launch_end en conf sigsaved r st =
     (let (v, i, g) = st; e = vk_engine (vg_kernel g); c = vg_cpu g;
          st1 = on_thread (vmx_put_vcpu (ve_has_xsave e) (ve_host_xcr0 e) c) st;
          conf1 = vmx_copy_status_to_conf (fst st1) conf;
          (conf2, st2) = on_cpus (\<lambda>x. vmx_copy_registers_to_conf (en_hc en) c x conf1) st1;
          st3 = (if sigset_active (fst st2) then on_task (sigprocmask (en_keep en (vg_time g)) sigsaved) st2 else st2);
          st4 = on_vcpu (\<lambda>v. vmx_set_vcpu_mode v OUTSIDE_ROOT_MODE) st3
      in (if tk_sigpending (vg_task (snd (snd st4))) then - EINTR else r, conf2, st4))"

definition vmx_launch :: "vmx_env \<Rightarrow> nat \<Rightarrow> slimvm_config \<Rightarrow> vmx_inst \<Rightarrow> vmx_global \<Rightarrow> (vmx_vcpu, vmx_global) run_result option" where
  "vmx_launch en n conf instp g =
     (case vcpus instp n of
        None \<Rightarrow> None
      | Some vcpu \<Rightarrow>
          (case vmx_launch_loop en n 0 0 (launch_begin en (vcpu, instp, g)) of
             Some (Stop r st) \<Rightarrow>
               (let (r1, conf1, st1) = launch_end en conf (tk_blocked (vg_task g)) r st
                in Some (Run_return r1 conf1 (put_slot n st1) (snd (snd st1))))
           | Some (Gone i1 g1) \<Rightarrow> Some (Run_exit i1 g1)
           | _ \<Rightarrow> None))"

definition vmx_ops_launch :: "vmx_env \<Rightarrow> nat \<Rightarrow> slimvm_config \<Rightarrow> vmx_inst \<Rightarrow> vmx_global \<Rightarrow> (vmx_vcpu, vmx_global) run_result option" where
  "vmx_ops_launch en = vmx_launch en"

definition vmx_ops :: "vmx_env \<Rightarrow> (vmx_vcpu, vmx_global) slimvm_engine_ops" where
  "vmx_ops en = (vmx_ops_without_launch en)\<lparr>launch := vmx_ops_launch en\<rparr>"

end
