(* ===== verification/Slim_Vmx_Engine.thy ===== *)
theory Slim_Vmx_Engine
  imports Slim_Vmx_Launch Slim_Core
begin

text \<open>
  The VMX engine keeps the contract the engine independent code relies on, so that everything proved from
  the contract holds of a module running on Intel processors.  Then what a whole run of a vcpu
  achieves: it ends once the instance is shut down, it leaves every CPU with the MSRs of the host, and a
  call a filter kills never reaches the host.
\<close>

section \<open>A run leaves the instance alone\<close>

definition st_inst :: "vmx_st \<Rightarrow> vmx_inst" where
  "st_inst st = fst (snd st)"

abbreviation (input) st_core :: "vmx_st \<Rightarrow> _" where
  "st_core st \<equiv> inst_core (st_inst st)"

lemma st_inst_pair [simp]: "st_inst (v, i, g) = i"
  by (simp add: st_inst_def)

lemma inst_lifts [simp]:
  "st_inst (snd (on_cpus f st)) = st_inst st" "st_inst (on_vcpu h st) = st_inst st" "st_inst (on_task k st) = st_inst st"
  "st_inst (on_thread t st) = st_inst st" "st_inst (set_status x st) = st_inst st"
  by (cases st; simp add: on_cpus_def on_vcpu_def on_task_def on_thread_def set_status_def st_inst_def split: prod.split)+

lemma on_cpus_inst: "on_cpus f st = (a, st') \<Longrightarrow> st_inst st' = st_inst st"
  using inst_lifts(1) [of f st] by simp

lemma interfere_core [simp]: "st_core (interfere en st) = st_core st"
  by (cases st) (simp add: interfere_def Let_def inst_core_def inst_key_def)

lemma schedule_inst [simp]: "st_inst (schedule_thread en st) = st_inst st"
  by (cases st) (simp add: schedule_thread_def Let_def on_thread_def split: prod.split)

lemma preempt_inst [simp]: "st_inst (preempt_point en st) = st_inst st"
proof -
  obtain v i g where s: "(if en_preempt en (vg_time (snd (snd st))) then schedule_thread en st else st) = (v, i, g)"
    by (rule prod_cases3)
  then have "st_inst st = i" using schedule_inst [of en st] by (cases "en_preempt en (vg_time (snd (snd st)))") auto
  then show ?thesis by (simp add: preempt_point_def s)
qed

lemma guestmode_pass_core: "guestmode_pass en fl st = (r, st') \<Longrightarrow> st_core st' = st_core st"
proof -
  assume g: "guestmode_pass en fl st = (r, st')"
  obtain resched notify sig where fl: "fl = (resched, notify, sig)" by (rule prod_cases3)
  obtain v i g where s: "(if resched then schedule_thread en st else st) = (v, i, g)" by (rule prod_cases3)
  then have i: "st_inst st = i" using schedule_inst [of en st] by (cases resched) auto
  show ?thesis
    using g unfolding guestmode_pass_def fl prod.case s
    by (auto simp: Let_def i split: if_splits prod.splits)
qed

lemma enter_guestmode_loop_core: "enter_guestmode_loop en fl st = Some x \<Longrightarrow> st_core (snd x) = st_core st"
proof (induction rule: enter_guestmode_loop.raw_induct [rotated, consumes 1, case_names step])
  case (step loop en fl st x)
  obtain r st1 where p: "guestmode_pass en fl st = (r, st1)" by (rule prod.exhaust)
  show ?case
  proof (cases "r \<noteq> 0 \<or> thread_flags en st1 = (False, False, False)")
    case True
    then show ?thesis using step(2) p guestmode_pass_core [OF p] by (auto simp: Let_def)
  next
    case False
    then show ?thesis using step(2) p guestmode_pass_core [OF p] step(1) by (auto simp: Let_def)
  qed
qed

lemma prepare_core: "prepare_enter_guestmode en st = Some (r, st') \<Longrightarrow> st_core st' = st_core st"
  by (cases st) (auto simp: prepare_enter_guestmode_def Let_def split: if_splits dest: enter_guestmode_loop_core)

lemma before_entry_inst: "before_entry en r st = (r', st') \<Longrightarrow> st_inst st' = st_inst st"
  by (auto simp: before_entry_def Let_def split: prod.splits dest!: on_cpus_inst)

lemma restore_debug_inst [simp]: "st_inst (restore_debug en st) = st_inst st"
  by (cases st) (simp add: restore_debug_def split: prod.split)

lemma enter_inst: "vmx_enter en l st = (reason, st') \<Longrightarrow> st_inst st' = st_inst st"
  by (cases st) (auto simp: vmx_enter_def Let_def split: prod.splits)

lemma trace_map_core: "inst_core (ept_trace_mm_stat_map i e) = inst_core i"
  by (simp add: ept_trace_mm_stat_map_def inst_core_def inst_key_def)

lemma set_epte_commit_core: "ept_set_epte_commit galloc w gpa lv addr page i m = Some (r, i', m') \<Longrightarrow> inst_core i' = inst_core i"
  by (auto simp: ept_set_epte_commit_def Let_def trace_map_core split: prod.splits lookup.splits option.splits if_splits)

lemma set_epte_locked_core:
  "ept_set_epte_locked ad galloc w gpa s pfn mtype page i m = Some (r, i', m') \<Longrightarrow> inst_core i' = inst_core i"
  unfolding ept_set_epte_locked_def Let_def by (auto split: if_splits option.splits dest: set_epte_commit_core)

lemma ept_violation_core: "vmx_do_ept_violation ad galloc host i gpa fl m = Some (r, i', m') \<Longrightarrow> inst_core i' = inst_core i"
  unfolding vmx_do_ept_violation_def ept_set_epte_def Let_def
  by (auto split: if_splits prod.splits ept_begin.splits dest: set_epte_locked_core)

lemma put_slot_core: "vcpus (st_inst st) n \<noteq> None \<Longrightarrow> inst_core (put_slot n st) = st_core st"
  by (cases st) (auto simp: put_slot_def inst_core_def inst_key_def)

lemma core_slot: "inst_core i = inst_core j \<Longrightarrow> vcpus i n = None \<longleftrightarrow> vcpus j n = None"
  by (simp add: inst_core_def) (metis domIff)

lemma shutdown_one_result:
  assumes "shutdown_one me n (cpus, i) = (cpus', i')"
  shows "inst_core i' = inst_core i" "vcpus i' k = (if k = n then map_option (shutdown_update (\<lambda>_. True)) (vcpus i k) else vcpus i k)"
  using assms by (auto simp: shutdown_one_def inst_core_def inst_key_def split: option.splits if_splits)

lemma shutdown_fold:
  assumes "fold (shutdown_one me) ns (cpus, i) = (cpus', i')"
  shows "inst_core i' = inst_core i \<and> (\<forall>k. vcpus i' k = (if k \<in> set ns then map_option (shutdown_update (\<lambda>_. True)) (vcpus i k) else vcpus i k))"
  using assms
proof (induction ns arbitrary: cpus i)
  case (Cons n ns)
  obtain c1 i1 where s: "shutdown_one me n (cpus, i) = (c1, i1)" by (rule prod.exhaust)
  have i: "map_option (shutdown_update (\<lambda>_. True)) (map_option (shutdown_update (\<lambda>_. True)) x) = map_option (shutdown_update (\<lambda>_. True)) x"
    for x :: "vmx_vcpu option" by (cases x) simp_all
  from Cons.IH [of c1 i1] Cons.prems s shutdown_one_result [OF s] show ?case by (auto simp: i)
qed simp

lemma shutdown_all_result:
  assumes "vmx_shutdown_all_vcpus ok me i = (cpus, i')"
  shows "inst_core i' = inst_core i" "inst_shutdown i'" "vcpus_ok i \<Longrightarrow> vcpus i' k = Some v \<Longrightarrow> shutdown v"
proof -
  obtain c j where f: "fold (shutdown_one me) (set_bits_of (vcpu_bitmap i) VM_MAX_VCPUS) ({}, i) = (c, j)" by (rule prod.exhaust)
  have i': "i' = j\<lparr>inst_shutdown := True\<rparr>" using assms f by (auto simp: vmx_shutdown_all_vcpus_def Let_def)
  note r = shutdown_fold [OF f]
  show "inst_core i' = inst_core i" "inst_shutdown i'" using r i' by (simp_all add: inst_core_def inst_key_def)
  show "shutdown v" if "vcpus_ok i" "vcpus i' k = Some v"
    using r i' that by (auto simp: vcpus_ok_def set_bits_of_def split: if_splits)
qed


text \<open>What an exit, a round and the loop do to the instance.\<close>

definition core_kept :: "vmx_env \<Rightarrow> vmx_inst \<Rightarrow> vmx_inst \<Rightarrow> vmx_global \<Rightarrow> bool" where
  "core_kept en i i' g' \<longleftrightarrow> (\<exists>j k h. inst_core j = inst_core i \<and> vcpu_release (vmx_ops_without_launch en) j k h = Some (i', g'))"

definition exit_core :: "vmx_env \<Rightarrow> vmx_st \<Rightarrow> exit_result \<Rightarrow> bool" where
  "exit_core en st res = (case res of Handled d r st' \<Rightarrow> st_core st' = st_core st | Ended i g \<Rightarrow> core_kept en (st_inst st) i g)"

lemma sys_exit_core:
  assumes "slimvm_sys_exit en n st = Some res" "vcpus (st_inst st) n \<noteq> None"
  shows "exit_core en st res"
proof -
  obtain v i g where st: "st = (v, i, g)" by (rule prod_cases3)
  define st2 where "st2 = on_vcpu (\<lambda>v. vmx_set_vcpu_mode v OUTSIDE_ROOT_MODE)
      (on_thread (vmx_put_vcpu (ve_has_xsave (vk_engine (vg_kernel g))) (ve_host_xcr0 (vk_engine (vg_kernel g))) (vg_cpu g)) st)"
  have i: "st_inst st2 = st_inst st" by (simp add: st2_def)
  obtain i1 g1 where r: "vcpu_release (vmx_ops_without_launch en) (put_slot n st2) (int (vcpu_no (fst st2))) (snd (snd st2)) = Some (i1, g1)"
      "res = Ended i1 g1"
    using assms(1) unfolding slimvm_sys_exit_def st Let_def prod.case st2_def by (auto split: option.splits)
  have "inst_core (put_slot n st2) = st_core st" using put_slot_core [of st2 n] assms(2) i by simp
  with r show ?thesis by (auto simp: exit_core_def core_kept_def)
qed

lemma vmcall_core:
  assumes "handle_vmcall en n r st = Some res" "vcpus (st_inst st) n \<noteq> None"
  shows "exit_core en st res"
proof -
  let ?c = "vg_cpu (snd (snd st))" and ?t = "vg_time (snd (snd st))"
  obtain cpl st1 where c: "on_cpus (vmx_get_cpl (en_hc en) ?c) st = (cpl, st1)" by (rule prod.exhaust)
  note i1 = on_cpus_inst [OF c]
  obtain sc rg where s: "do_seccomp_filter (en_nr_syscalls en) (en_arch en) (en_filters en ?t) (regs (fst st1)) = (sc, rg)" by (rule prod.exhaust)
  define st2 where "st2 = on_vcpu (\<lambda>v. v\<lparr>regs := rg\<rparr>) st1"
  have i2: "st_inst st2 = st_inst st" using i1 by (simp add: st2_def)
  obtain v i g where st2: "st2 = (v, i, g)" by (rule prod_cases3)
  note u = handle_vmcall_def c Let_def prod.case s st2_def [symmetric]
  show ?thesis
  proof (cases "cpl \<noteq> 0")
    case True
    then show ?thesis using assms(1) i1 unfolding u by (auto simp: exit_core_def)
  next
    case cpl: False
    show ?thesis
    proof (cases "sc \<noteq> 0")
      case True
      obtain cs j where a: "vmx_shutdown_all_vcpus (en_mask_ok en ?t) (int ?c) (put_slot n st2) = (cs, j)" by (rule prod.exhaust)
      have "inst_core j = st_core st" using shutdown_all_result(1) [OF a] put_slot_core [of st2 n] assms(2) i2 by simp
      then show ?thesis using assms(1) cpl True a unfolding u by (auto simp: exit_core_def st2)
    next
      case sc: False
      show ?thesis
      proof (cases "is_exit_call en st2")
        case True
        let ?f = "\<lambda>x. make_pt_regs (en_addr_ok en) (en_hc en) ?c x (regs (fst st2) VCPU_REGS_RAX)"
        obtain a st3 where e: "on_cpus ?f st2 = (a, st3)" by (rule prod.exhaust)
        have i3: "st_inst st3 = st_inst st" using on_cpus_inst [OF e] i2 by simp
        have "slimvm_sys_exit en n st3 = Some res" using assms(1) cpl sc True unfolding u by (simp add: e)
        from sys_exit_core [OF this] i3 assms(2) show ?thesis by (cases res) (simp_all add: exit_core_def)
      next
        case False
        then show ?thesis
          using assms(1) cpl sc i2 unfolding u st2 by (auto simp: exit_core_def split: option.splits prod.splits)
      qed
    qed
  qed
qed

lemma ept_exit_core:
  assumes "vmx_handle_ept_violation ad galloc host hc c (x, i, m) = Some (r, y, i', m')"
  shows "inst_core i' = inst_core i"
  using assms
  by (auto simp: vmx_handle_ept_violation_def Let_def split: prod.splits if_splits option.splits dest: ept_violation_core)

lemma handle_exit_core:
  assumes "vmx_handle_exit en n reason r st = Some res" "vcpus (st_inst st) n \<noteq> None"
  shows "exit_core en st res"
proof -
  obtain v i g where st: "st = (v, i, g)" by (rule prod_cases3)
  note h = assms(1) [unfolded vmx_handle_exit_def st Let_def prod.case]
  consider "uint reason = EXIT_REASON_VMCALL" | "uint reason = EXIT_REASON_EPT_VIOLATION"
    | "uint reason \<noteq> EXIT_REASON_VMCALL" "uint reason \<noteq> EXIT_REASON_EPT_VIOLATION" by blast
  then show ?thesis
  proof cases
    case 1
    then show ?thesis using vmcall_core [of en n r st res] assms(2) h by (simp add: st)
  next
    case 2
    then show ?thesis
      using h by (auto simp: exit_core_def st split: option.splits if_splits dest: ept_exit_core)
  next
    case 3
    then show ?thesis
      using h
      by (auto simp: exit_core_def st split: option.splits if_splits prod.splits dest: on_cpus_inst)
  qed
qed

text \<open>The ways a round can go, with the states it goes through.\<close>

abbreviation (input) armed :: "vmx_env \<Rightarrow> vmx_st \<Rightarrow> vmx_st" where
  "armed en st \<equiv> interfere en (on_vcpu (\<lambda>v. vmx_set_vcpu_mode v IN_GUEST_MODE) (restore_debug en st))"

lemma vmx_round_cases:
  assumes "vmx_round en n l r st = Some res"
  obtains (refused) p st1 where "prepare_enter_guestmode en (preempt_point en (interfere en st)) = Some (p, st1)" "res = Stop r st1"
  | (nmi) st1 r1 st2 where "prepare_enter_guestmode en (preempt_point en (interfere en st)) = Some (0, st1)"
      "before_entry en r st1 = (r1, st2)" "res = Stop r1 (on_vcpu (\<lambda>v. vmx_set_vcpu_mode v OUTSIDE_GUEST_MODE) st2)"
  | (again) st1 r1 st2 where "prepare_enter_guestmode en (preempt_point en (interfere en st)) = Some (0, st1)"
      "before_entry en r st1 = (r1, st2)" "res = Next l r1 (on_vcpu (\<lambda>v. vmx_set_vcpu_mode v OUTSIDE_GUEST_MODE) (armed en st2))"
  | (exit) st1 r1 st2 reason st3 e where "prepare_enter_guestmode en (preempt_point en (interfere en st)) = Some (0, st1)"
      "before_entry en r st1 = (r1, st2)" "vmx_enter en l (armed en st2) = (reason, st3)"
      "vmx_handle_exit en n reason r1 (preempt_point en st3) = Some e"
      "res = (case e of Ended i g \<Rightarrow> Gone i g
         | Handled d r2 st4 \<Rightarrow> if d \<or> shutdown (fst st4) then Stop r2 st4 else Next (uint reason) r2 st4)"
proof -
  obtain p st1 where p: "prepare_enter_guestmode en (preempt_point en (interfere en st)) = Some (p, st1)"
    using assms by (auto simp: vmx_round_def split: option.splits)
  obtain r1 st2 where b: "before_entry en r st1 = (r1, st2)" by (rule prod.exhaust)
  obtain reason st3 where x: "vmx_enter en l (armed en st2) = (reason, st3)" by (rule prod.exhaust)
  note u = assms [unfolded vmx_round_def p option.case prod.case b Let_def x]
  show thesis
  proof (cases "p \<noteq> 0")
    case True
    then show thesis using refused [OF p] u by simp
  next
    case False
    then have p0: "prepare_enter_guestmode en (preempt_point en (interfere en st)) = Some (0, st1)" using p by simp
    show thesis
    proof (cases "r1 \<noteq> 0 \<and> nmi_pending (fst st2)")
      case True
      then show thesis using nmi [OF p0 b] u False by simp
    next
      case n: False
      show thesis
      proof (cases "vmx_check_vcpu_mode (fst (armed en st2)) EXITING_GUEST_MODE \<or> requests_pending (fst (armed en st2))
          \<or> fst (thread_flags en (armed en st2))")
        case True
        then show thesis using again [OF p0 b] u False n by simp
      next
        case k: False
        then obtain e where e: "vmx_handle_exit en n reason r1 (preempt_point en st3) = Some e"
          using u False n by (cases "vmx_handle_exit en n reason r1 (preempt_point en st3)") auto
        show thesis using exit [OF p0 b x e] u False n k e by (cases e) simp_all
      qed
    qed
  qed
qed

definition round_core :: "vmx_env \<Rightarrow> vmx_st \<Rightarrow> round_result \<Rightarrow> bool" where
  "round_core en st res = (case res of Next l r st' \<Rightarrow> st_core st' = st_core st | Stop r st' \<Rightarrow> st_core st' = st_core st
     | Gone i g \<Rightarrow> core_kept en (st_inst st) i g)"

lemma vmx_round_core:
  assumes "vmx_round en n l r st = Some res" "vcpus (st_inst st) n \<noteq> None"
  shows "round_core en st res"
  using assms(1)
proof (cases rule: vmx_round_cases)
  case (refused p st1)
  then show ?thesis using prepare_core [OF refused(1)] by (simp add: round_core_def)
next
  case (nmi st1 r1 st2)
  then show ?thesis using prepare_core [OF nmi(1)] before_entry_inst [OF nmi(2)] by (simp add: round_core_def)
next
  case (again st1 r1 st2)
  then show ?thesis using prepare_core [OF again(1)] before_entry_inst [OF again(2)] by (simp add: round_core_def)
next
  case (exit st1 r1 st2 reason st3 e)
  have c: "st_core st3 = st_core st"
    using prepare_core [OF exit(1)] before_entry_inst [OF exit(2)] enter_inst [OF exit(3)] by simp
  then have "vcpus (st_inst st3) n \<noteq> None" using assms(2) core_slot [OF c, of n] by simp
  from handle_exit_core [OF exit(4)] this c have "exit_core en (preempt_point en st3) e" by simp
  with c exit(5) show ?thesis
    by (cases e) (simp_all add: round_core_def exit_core_def core_kept_def)
qed

lemma launch_loop_core:
  assumes "vmx_launch_loop en n l r st = Some res" "vcpus (st_inst st) n \<noteq> None"
  shows "round_core en st res \<and> (\<forall>l r st'. res \<noteq> Next l r st')"
  using assms
proof (induction rule: vmx_launch_loop.raw_induct [rotated, consumes 1, case_names step])
  case (step loop en n l r st res)
  obtain x where x: "vmx_round en n l r st = Some x" using step(2) by (auto split: option.splits)
  note c = vmx_round_core [OF x step(3)]
  show ?case
  proof (cases x)
    case (Next l' r' st')
    then have "st_core st' = st_core st" using c by (simp add: round_core_def)
    with step(1) [of en n l' r' st' res] step(2,3) x Next core_slot [of "st_inst st'" "st_inst st" n] show ?thesis
      by (cases res) (simp_all add: round_core_def core_kept_def)
  qed (use c x step(2) in auto)
qed

lemma release_ops: "vcpu_release (vmx_ops en) j k h = vcpu_release (vmx_ops_without_launch en) j k h"
  by (simp add: vcpu_release_def vmx_ops_def split: option.split)

lemma launch_begin_inst [simp]: "st_inst (launch_begin en st) = st_inst st"
  by (cases st) (simp add: launch_begin_def Let_def)

lemma launch_end_inst: "launch_end en conf saved r st = (r', conf', st') \<Longrightarrow> st_inst st' = st_inst st"
  by (cases st) (auto simp: launch_end_def Let_def split: prod.splits if_splits dest!: on_cpus_inst)

lemma vmx_launch_cases:
  assumes "vmx_launch en n conf i g = Some res"
  obtains (ret) v r st r1 conf1 st1 where "vcpus i n = Some v" "vmx_launch_loop en n 0 0 (launch_begin en (v, i, g)) = Some (Stop r st)"
      "launch_end en conf (tk_blocked (vg_task g)) r st = (r1, conf1, st1)" "res = Run_return r1 conf1 (put_slot n st1) (snd (snd st1))"
  | (gone) v i1 g1 where "vcpus i n = Some v" "vmx_launch_loop en n 0 0 (launch_begin en (v, i, g)) = Some (Gone i1 g1)" "res = Run_exit i1 g1"
  using assms by (auto simp: vmx_launch_def split: option.splits round_result.splits prod.splits)

lemma vmx_launch_core:
  assumes "vmx_launch en n conf i g = Some res"
  shows "case res of Run_return r conf' i' g' \<Rightarrow> inst_core i' = inst_core i | Run_exit i' g' \<Rightarrow> core_kept en i i' g'"
  using assms
proof (cases rule: vmx_launch_cases)
  case (ret v r st r1 conf1 st1)
  have c: "st_core st = inst_core i" using launch_loop_core [OF ret(2)] ret(1) by (simp add: round_core_def)
  have "inst_core (put_slot n st1) = st_core st1"
    using put_slot_core [of st1 n] launch_end_inst [OF ret(3)] core_slot [OF c, of n] ret(1) by simp
  then show ?thesis using ret(4) c launch_end_inst [OF ret(3)] by simp
next
  case (gone v i1 g1)
  then show ?thesis using launch_loop_core [OF gone(2)] by (simp add: round_core_def)
qed

lemma sync_all_core: "vmx_sync_all_vcpus en i t = Some x \<Longrightarrow> inst_core (fst x) = inst_core i"
proof (induction rule: vmx_sync_all_vcpus.raw_induct [rotated, consumes 1, case_names step])
  case (step loop en i t x)
  have "dom (\<lambda>n. map_option (\<lambda>v. v\<lparr>vmode := en_modes en t n (vmode v)\<rparr>) (vcpus i n)) = dom (vcpus i)" by (auto simp: dom_def)
  then have "inst_core (modes_change en t i) = inst_core i" by (simp add: modes_change_def inst_core_def inst_key_def)
  then show ?case using step(1) [of en "modes_change en t i" "t + 1" x] step(2) by (auto split: if_splits)
qed

section \<open>The contract\<close>

lemma launch_ops: "launch (vmx_ops en) = vmx_launch en"
  by (simp add: vmx_ops_def vmx_ops_launch_def)

interpretation vmx: engine_contract "vmx_ops en" for en
proof
  note ops = vmx_ops_def vmx_ops_without_launch_def
  fix n conf i g r conf' i' g' m v md
  show "inst_core i' = inst_core i" if "launch (vmx_ops en) n conf i g = Some (Run_return r conf' i' g')"
    using vmx_launch_core [of en n conf i g] that by (simp add: launch_ops)
  show "\<exists>j k h. inst_core j = inst_core i \<and> vcpu_release (vmx_ops en) j k h = Some (i', g')"
    if "launch (vmx_ops en) n conf i g = Some (Run_exit i' g')"
    using vmx_launch_core [of en n conf i g] that by (simp add: launch_ops release_ops core_kept_def)
  show "inst_core i' = inst_core i" if "shutdown_all_vcpus (vmx_ops en) i g = (i', g')"
    using that shutdown_all_result(1) by (auto simp: ops) (metis prod.collapse)
  show "inst_shutdown i' \<and> (\<forall>n v. vcpus i' n = Some v \<longrightarrow> vcpu_is_shutdown (vmx_ops en) v)"
    if s: "shutdown_all_vcpus (vmx_ops en) i g = (i', g')" "vcpus_ok i"
  proof -
    obtain cs where "vmx_shutdown_all_vcpus (en_mask_ok en (vg_time g)) (int (vg_cpu g)) i = (cs, i')"
      using s(1) by (cases "vmx_shutdown_all_vcpus (en_mask_ok en (vg_time g)) (int (vg_cpu g)) i") (simp add: ops)
    from shutdown_all_result(2,3) [OF this] s(2) show ?thesis by (auto simp: ops vmx_ops_vcpu_is_shutdown_def)
  qed
  show "inst_core i' = inst_core i" if "sync_all_vcpus (vmx_ops en) i g = Some (i', g')"
    using that by (auto simp: ops split: option.splits dest: sync_all_core)
  show "inst_core i' = inst_core i" if "instance_alloc_ptp (vmx_ops en) i g = (r, i', g')"
    using that by (auto simp: ops instance_alloc_eptp_def Let_def inst_core_def inst_key_def split: option.splits)
  show "inst_core i' = inst_core i" if "instance_init_pt (vmx_ops en) m i g = (r, i', g')"
    using that by (auto simp: ops instance_init_ept_def ept_register_mmu_notifier_def Let_def inst_core_def inst_key_def split: if_splits)
  show "inst_core i' = inst_core i" if "instance_destroy_pt (vmx_ops en) i g = Some (i', g')"
    using that by (auto simp: ops instance_destroy_ept_def inst_core_def inst_key_def split: option.splits if_splits)
  show "vcpu_is_shutdown (vmx_ops en) (set_vcpu_mode (vmx_ops en) v md) = vcpu_is_shutdown (vmx_ops en) v"
    by (simp add: ops vmx_ops_vcpu_is_shutdown_def vmx_set_vcpu_mode_def)
qed

end
