(* ===== verification/Slim_Vmx_Run.thy ===== *)
theory Slim_Vmx_Run
  imports Slim_Vmx_Engine
begin

text \<open>
  What a whole run of a VMX vcpu achieves, over all its rounds: every round of \<^verbatim>\<open>vmx_launch\<close> is a sequence of
  the steps \<open>msr_session\<close> allows, so the run leaves every CPU it was on with the MSRs of the host; a
  run ends once its instance is shut down; a system call that a filter kills never reaches the host.
\<close>

section \<open>Code that leaves the MSR tables alone\<close>

named_theorems msr_frame

lemma view_write [msr_frame]:
  "msr_view (vmcs_writel f x v) = msr_view v" "msr_view (vmcs_write32 f y v) = msr_view v" "msr_view (vmcs_write16 f z v) = msr_view v"
  by (simp_all add: msr_view_def vmcs_access)

lemma view_fields [msr_frame]:
  "msr_view (v\<lparr>regs := a\<rparr>) = msr_view v" "msr_view (v\<lparr>status := b\<rparr>) = msr_view v" "msr_view (v\<lparr>debug_mode := c\<rparr>) = msr_view v"
  "msr_view (v\<lparr>bounce_pending := d\<rparr>) = msr_view v" "msr_view (v\<lparr>nmi_pending := d\<rparr>) = msr_view v" "msr_view (v\<lparr>requests := q\<rparr>) = msr_view v"
  "msr_view (v\<lparr>shutdown := d\<rparr>) = msr_view v" "msr_view (v\<lparr>vmode := md\<rparr>) = msr_view v" "msr_view (v\<lparr>launched := d\<rparr>) = msr_view v"
  "msr_view (v\<lparr>fail := d\<rparr>) = msr_view v" "msr_view (v\<lparr>vmcs := f\<rparr>) = msr_view v" "msr_view (v\<lparr>cr2 := x\<rparr>) = msr_view v"
  "msr_view (v\<lparr>vflags := x\<rparr>) = msr_view v" "msr_view (v\<lparr>xcr0 := x\<rparr>) = msr_view v" "msr_view (v\<lparr>cpu := k\<rparr>) = msr_view v"
  "msr_view (v\<lparr>host_state := hs\<rparr>) = msr_view v" "msr_view (v\<lparr>guest_xcr0_loaded := d\<rparr>) = msr_view v"
  by (simp_all add: msr_view_def)

lemma view_load [msr_frame]: "msr_view (fst (do_load_vcpu hc c x)) = msr_view (fst x)" "msr_view (fst (vmx_get_cpu hc c x)) = msr_view (fst x)"
  by (cases x; simp add: vmx_get_cpu_def do_load_vcpu_def Let_def vmx_make_request_def msr_frame)+

lemma view_modes [msr_frame]:
  "msr_view (vmx_set_vcpu_mode v md) = msr_view v" "msr_view (snd (vmx_vcpu_exiting_guest_mode v)) = msr_view v"
  "msr_view (snd (vmx_check_request q v)) = msr_view v" "msr_view (snd (vmx_process_vcpu_requests v)) = msr_view v"
  "msr_view (vmx_set_interrupt_window_exiting b v) = msr_view v" "msr_view (snd (vmx_inject_nmi v)) = msr_view v"
  "msr_view (vmx_step_instruction v) = msr_view v" "msr_view (vmx_process_step_instructions why v) = msr_view v"
  "msr_view (vmx_handle_cpuid cpuid v) = msr_view v" "msr_view (snd (vmx_handle_msr_read v)) = msr_view v"
  "msr_view (snd (handle_xsetbv v)) = msr_view v" "msr_view (vmx_set_interrupt_shadow k v) = msr_view v"
  "msr_view (fst (slimvm_do_int3 v t)) = msr_view v"
  "msr_view (vmx_save_host_state r v) = msr_view v"
  by (simp_all add: vmx_set_vcpu_mode_def vmx_vcpu_exiting_guest_mode_def vmx_check_request_def vmx_process_vcpu_requests_def vmx_process_nmi_def
      vmx_set_interrupt_window_exiting_def vmx_inject_nmi_def vmx_step_instruction_def vmx_process_step_instructions_def
      vmx_handle_cpuid_def vmx_handle_msr_read_def handle_xsetbv_def vmx_set_interrupt_shadow_def slimvm_do_int3_def vmx_save_host_state_def
      Let_def msr_frame split: prod.split option.split)

lemma view_signal [msr_frame]: "msr_view (fst (snd (slimvm_signal_handler keep v t))) = msr_view v"
  by (simp add: slimvm_signal_handler_def Let_def msr_frame)

lemma view_inject [msr_frame]:
  "msr_view (fst (slimvm_inject_vector hc c k x)) = msr_view (fst x)"
  by (simp add: slimvm_inject_vector_def Let_def split_beta msr_frame)

lemma view_bounce [msr_frame]: "msr_view (fst (vmx_inject_bounce hc c x)) = msr_view (fst x)"
  by (simp add: vmx_inject_bounce_def Let_def split_beta msr_frame)

lemma view_pending [msr_frame]: "msr_view (fst (snd (inject_pending hc c x))) = msr_view (fst x)"
  by (simp add: inject_pending_def Let_def split_beta msr_frame)

lemma view_restore [msr_frame]: "msr_view (fst (fst (exceptions_restore_guest_regs hc c b x t))) = msr_view (fst x)"
  by (simp add: exceptions_restore_guest_regs_def Let_def split_beta msr_frame)

lemma view_pt_regs [msr_frame]: "msr_view (fst (snd (make_pt_regs ok hc c x nr))) = msr_view (fst x)"
  by (simp add: make_pt_regs_def Let_def split_beta msr_frame)

lemma view_nmi [msr_frame]: "msr_view (fst (snd (vmx_handle_nmi ok hc c x))) = msr_view (fst x)"
  by (simp add: vmx_handle_nmi_def Let_def split_beta msr_frame)

lemma view_cpl [msr_frame]: "msr_view (fst (snd (vmx_get_cpl hc c x))) = msr_view (fst x)"
  by (simp add: vmx_get_cpl_def vmx_read_guest_seg_ar_def Let_def split_beta msr_frame)

lemma view_halt [msr_frame]: "msr_view (fst (snd (handle_halt hc c x))) = msr_view (fst x)"
  by (simp add: handle_halt_def emulate_vcpu_halt_def skip_emulated_instruction_def Let_def split_beta msr_frame)

lemma view_exception [msr_frame]: "msr_view (fst (fst (slimvm_exception_handler hc c k x t))) = msr_view (fst x)"
  by (simp add: slimvm_exception_handler_def slimvm_do_debug_def Let_def split_beta msr_frame)

lemma view_nmi_exception [msr_frame]: "msr_view (fst (fst (snd (vmx_handle_nmi_exception hc c x t)))) = msr_view (fst x)"
  by (simp add: vmx_handle_nmi_exception_def Let_def split_beta msr_frame)

lemma view_run [msr_frame]: "msr_view (fst (snd (vmx_run_vcpu guest c x))) = msr_view (fst x)"
  by (auto simp: vmx_run_vcpu_def vm_entry_def Let_def split_beta msr_frame split: option.split)

lemma view_registers [msr_frame]: "msr_view (fst (snd (vmx_copy_registers_to_conf hc c x conf))) = msr_view (fst x)"
  by (simp add: vmx_copy_registers_to_conf_def Let_def split_beta msr_frame)

lemma view_finish [msr_frame]: "msr_view (fst (finish_syscall hc c sp a x)) = msr_view (fst x)"
  by (simp add: finish_syscall_def rewind_call_def set_rax_def Let_def split_beta msr_frame)

lemma view_misconfig: "vmx_handle_ept_misconfig hc c i h x = Some (r, y) \<Longrightarrow> msr_view (fst y) = msr_view (fst x)"
  by (auto simp: vmx_handle_ept_misconfig_def Let_def split_beta msr_frame split: lookup.splits)

lemma view_violation: "vmx_handle_ept_violation ad ga host hc c (x, i, m) = Some (r, y, i', m') \<Longrightarrow> msr_view (fst y) = msr_view (fst x)"
  by (auto simp: vmx_handle_ept_violation_def Let_def split_beta msr_frame split: option.splits if_splits)

lemma view_call: "slimvm_call en g nr rg (x, t) = Some (ret, y, t') \<Longrightarrow> msr_view (fst y) = msr_view (fst x)"
  by (auto simp: slimvm_call_def slimvm_sys_fork_def slimvm_sys_vfork_def Let_def split_beta msr_frame split: sys_entry.splits option.splits if_splits)

lemma view_syscall:
  assumes "vmx_handle_syscall ok hc c nr (slimvm_call en g) sp (x, t) = Some (y, t')"
  shows "msr_view (fst y) = msr_view (fst x)"
proof (cases "nr \<le> regs (fst x) VCPU_REGS_RAX")
  case True
  then show ?thesis using assms by (auto simp: vmx_handle_syscall_def set_rax_def split_beta msr_frame)
next
  case False
  obtain rg x1 where p: "make_pt_regs ok hc c x (regs (fst x) VCPU_REGS_RAX) = (rg, x1)" by (rule prod.exhaust)
  obtain ret x2 t2 where r: "slimvm_call en g (unat (regs (fst x) VCPU_REGS_RAX)) rg (x1, t) = Some (ret, x2, t2)"
    "y = finish_syscall hc c (sp t2) (regs (fst x) VCPU_REGS_RAX) (set_rax ret x2)"
    using assms False by (auto simp: vmx_handle_syscall_def Let_def p split: option.splits)
  have "msr_view (fst x1) = msr_view (fst x)" using view_pt_regs [of ok hc c x] p by (metis snd_conv)
  then show ?thesis using view_call [OF r(1)] r(2) by (simp add: msr_frame set_rax_def split_beta)
qed

section \<open>The loop as a session\<close>

text \<open>A step that leaves the tables, the registers of the CPUs and the CPU of the thread alone.\<close>

definition calm :: "vmx_st \<Rightarrow> vmx_st \<Rightarrow> bool" where
  "calm st st' \<longleftrightarrow> msr_view (fst st') = msr_view (fst st) \<and> vg_regs (snd (snd st')) = vg_regs (snd (snd st))
     \<and> vg_cpu (snd (snd st')) = vg_cpu (snd (snd st)) \<and> vk_engine (vg_kernel (snd (snd st'))) = vk_engine (vg_kernel (snd (snd st)))"

lemma calm_refl [simp]: "calm st st"
  by (simp add: calm_def)

lemma calm_trans [trans]: "calm a b \<Longrightarrow> calm b c \<Longrightarrow> calm a c"
  by (simp add: calm_def)

lemma calm_on_cpus:
  assumes "on_cpus f st = (a, st')" "\<And>x. msr_view (fst (snd (f x))) = msr_view (fst x)"
  shows "calm st st'"
  using assms(1) assms(2) [of "(fst st, vk_cpus (vg_kernel (snd (snd st))))"] by (auto simp: on_cpus_def calm_def split_beta)

lemma calm_on_vcpu: "msr_view (f (fst st)) = msr_view (fst st) \<Longrightarrow> calm st (on_vcpu f st)"
  by (simp add: on_vcpu_def calm_def split_beta)

lemma calm_on_task: "calm st (on_task f st)"
  by (simp add: on_task_def calm_def split_beta)

lemma calm_interfere: "calm st (interfere en st)"
  by (simp add: interfere_def calm_def split_beta Let_def msr_frame)

lemma calm_status: "calm st (set_status x st)"
  unfolding set_status_def by (rule calm_on_vcpu) (simp add: msr_frame)

text \<open>
  In terms of \<open>msr_session\<close>: \<open>H\<close> are the values of the registers on each CPU before the run and \<open>P\<close> the registers the
  tables know.  The other CPUs have these values, and on the CPU of the thread the session works for
  a host that has them.
\<close>

definition run_ok :: "vmx_engine \<Rightarrow> (nat \<Rightarrow> u32 \<Rightarrow> u64) \<Rightarrow> (u32 \<Rightarrow> bool) \<Rightarrow> int \<Rightarrow> vmx_st \<Rightarrow> bool" where
  "run_ok e H P l = (\<lambda>(v, i, g). vk_engine (vg_kernel g) = e
     \<and> (\<forall>m \<in> set vmx_shared_msrs. msr_present v m = P m)
     \<and> (\<forall>d. \<forall>m \<in> set vmx_shared_msrs. d \<noteq> vg_cpu g \<and> P m \<longrightarrow> hw_msrs (vg_regs g d) m = H d m)
     \<and> (\<exists>host. msr_session (ve_has_xsave e) (ve_host_xcr0 e) (host, l, v, vg_regs g (vg_cpu g))
          \<and> (\<forall>m \<in> set vmx_shared_msrs. P m \<longrightarrow> host m = H (vg_cpu g) m)))"

lemma run_ok_calm:
  assumes "run_ok e H P l st" "calm st st'"
  shows "run_ok e H P l st'"
proof -
  obtain v i g v' i' g' where st: "st = (v, i, g)" "st' = (v', i', g')" by (metis prod_cases3)
  obtain host where h: "msr_session (ve_has_xsave e) (ve_host_xcr0 e) (host, l, v, vg_regs g (vg_cpu g))"
      "\<forall>m \<in> set vmx_shared_msrs. P m \<longrightarrow> host m = H (vg_cpu g) m"
    using assms(1) by (auto simp: run_ok_def st)
  have c: "msr_view v' = msr_view v" "vg_regs g' = vg_regs g" "vg_cpu g' = vg_cpu g" "vk_engine (vg_kernel g') = vk_engine (vg_kernel g)"
    using assms(2) by (auto simp: calm_def st)
  have "msr_session (ve_has_xsave e) (ve_host_xcr0 e) (host, l, v', vg_regs g' (vg_cpu g'))"
    by (rule ms_other [OF h(1) c(1)]) (simp add: c)
  then show ?thesis using assms(1) h(2) view_shared(2) [OF c(1)] by (auto simp: run_ok_def st c)
qed

text \<open>Saving the host's values depends on the tables only.\<close>

lemma save_view: "msr_view v = msr_view w \<Longrightarrow> msr_view (vmx_save_host_msrs r v) = msr_view (vmx_save_host_msrs r w)"
proof -
  have one: "msr_view (save_host_msr r m v) = msr_view (save_host_msr r m w)" if "msr_view v = msr_view w" "m \<in> set vmx_shared_msrs" for v w m
    using that view_shared(1) [OF that] by (auto simp: save_host_msr_def Let_def msr_view_def)
  have f: "msr_view (fold (save_host_msr r) ms v) = msr_view (fold (save_host_msr r) ms w)"
    if "msr_view v = msr_view w" "set ms \<subseteq> set vmx_shared_msrs" for ms v w
    using that
  proof (induction ms arbitrary: v w)
    case (Cons m ms)
    then have "msr_view (save_host_msr r m v) = msr_view (save_host_msr r m w)" by (intro one) simp_all
    from Cons.IH [OF this] Cons.prems(2) show ?case by simp
  qed simp
  show "msr_view v = msr_view w \<Longrightarrow> msr_view (vmx_save_host_msrs r v) = msr_view (vmx_save_host_msrs r w)"
    unfolding vmx_save_host_msrs_def by (rule f [OF _ subset_refl])
qed

lemma msr_view_scheded: "msr_view v = msr_view w \<Longrightarrow> msr_view (v\<lparr>scheded := b\<rparr>) = msr_view (w\<lparr>scheded := b\<rparr>)"
  by (simp add: msr_view_def)

lemma sched_in_result:
  assumes "slimvm_sched_in hc c (v, s, r) = (v', s', r')"
  shows "r' = r" "msr_view v' = msr_view ((vmx_save_host_msrs r v)\<lparr>scheded := True\<rparr>)"
proof -
  obtain v2 s2 where l: "do_load_vcpu hc c (vmx_save_host_msrs r v, s) = (v2, s2)" by (rule prod.exhaust)
  have "msr_view v2 = msr_view (vmx_save_host_msrs r v)" using view_load(1) [of hc c "(vmx_save_host_msrs r v, s)"] l by simp
  then have "msr_view (v2\<lparr>scheded := True\<rparr>) = msr_view ((vmx_save_host_msrs r v)\<lparr>scheded := True\<rparr>)" by (simp add: msr_view_def)
  then show "r' = r" "msr_view v' = msr_view ((vmx_save_host_msrs r v)\<lparr>scheded := True\<rparr>)"
    using assms by (auto simp: slimvm_sched_in_def Let_def l msr_frame)
qed

lemma sched_out_result:
  assumes "slimvm_sched_out xs hx c (v, s, r) = (v', s', r')"
  obtains v1 r1 where "vmx_load_host_msrs (v, r) = (v1, r1)" "hw_msrs r' = hw_msrs r1" "msr_view v' = msr_view v1"
proof -
  obtain v1 r1 where l: "vmx_load_host_msrs (v, r) = (v1, r1)" by (rule prod.exhaust)
  obtain v2 r2 where x: "vmx_put_guest_xcr0 xs hx (v1, r1) = (v2, r2)" by (rule prod.exhaust)
  have "v' = v2" "r' = r2" using assms by (simp_all add: slimvm_sched_out_def Let_def l x)
  moreover have "hw_msrs r2 = hw_msrs r1" "msr_view v2 = msr_view v1"
    using x by (auto simp: vmx_put_guest_xcr0_def msr_view_def split: if_splits)
  ultimately show thesis using that l by simp
qed

lemma load_is_sched_in: "vmx_load_vcpu hc c = slimvm_sched_in hc c"
  by (simp add: vmx_load_vcpu_def slimvm_sched_in_def)

lemma put_is_sched_out: "vmx_put_vcpu xs hx c = slimvm_sched_out xs hx c"
  by (simp add: vmx_put_vcpu_def slimvm_sched_out_def)

lemma session_present:
  assumes "msr_session xs hx (host, l, v, r)" "enter_switch xs hx l (v, r) = (v1, r1)" "msr_view v2 = msr_view v1"
    "hw_msrs r2 = (hw_msrs r1)(MSR_KERNEL_GS_BASE := x)" "exit_switch reason (v2, r2) = (v3, r3)" "m \<in> set vmx_shared_msrs"
  shows "msr_present v3 m = msr_present v m"
proof -
  note en = enter_result(1) [OF msr_session_inv [OF assms(1)] assms(2)]
  have "msr_index v3 = msr_index v2 \<and> save_nmsrs v3 = save_nmsrs v2"
    using assms(5) by (auto simp: exit_switch_def save_guest_msr_def vmx_load_host_msrs_def Let_def split: if_splits)
  then have "msr_index v3 = msr_index v" "save_nmsrs v3 = save_nmsrs v" using assms(3) en by (simp_all add: msr_view_def)
  then show ?thesis using get_shared_index [OF assms(6), of v3 v] by (simp add: msr_present_def)
qed

text \<open>Giving the CPU up: the registers of the host are back.\<close>

lemma session_out:
  assumes "msr_session xs hx (host, l, v, r)" "slimvm_sched_out xs hx c (v, s, r) = (v', s', r')"
  shows "msr_table_ok v'" "\<not> guest_msrs_loaded v'"
    "m \<in> set vmx_shared_msrs \<Longrightarrow> msr_present v' m = msr_present v m"
    "m \<in> set vmx_shared_msrs \<Longrightarrow> msr_present v m \<Longrightarrow> hw_msrs r' m = host m"
proof -
  note inv = msr_session_inv [OF assms(1)]
  obtain v1 r1 where l: "vmx_load_host_msrs (v, r) = (v1, r1)" "hw_msrs r' = hw_msrs r1" "msr_view v' = msr_view v1"
    by (rule sched_out_result [OF assms(2)])
  note res = load_host_msrs_result [OF msr_invD(1) [OF inv] l(1)]
  have w: "msr_view v' = msr_view (v\<lparr>guest_msrs_loaded := False\<rparr>)" using l(3) by (simp only: res(1))
  show "\<not> guest_msrs_loaded v'" using w by (simp add: msr_view_def)
  have i: "get_msr_index (v\<lparr>guest_msrs_loaded := False\<rparr>) m = get_msr_index v m" if "m \<in> set vmx_shared_msrs" for m
    by (rule get_shared_index [OF that]) simp
  show "msr_table_ok v'"
    using view_shared(5) [OF w] msr_invD(1) [OF inv] i by (simp add: msr_table_ok_def msr_present_def)
  show "msr_present v' m = msr_present v m" if "m \<in> set vmx_shared_msrs"
    using view_shared(2) [OF w that] i [OF that] by (simp add: msr_present_def)
  show "hw_msrs r' m = host m" if "m \<in> set vmx_shared_msrs" "msr_present v m"
    using res(2) [of m] msr_invD(4-6) [OF inv that] that by (auto simp: l(2))
qed

text \<open>Getting a CPU: a new session begins.\<close>

lemma session_in:
  assumes "msr_table_ok v" "\<not> guest_msrs_loaded v" "slimvm_sched_in hc c (v, s, r) = (v', s', r')"
    "msr_session xs hx (hw_msrs r, l, (vmx_save_host_msrs r v)\<lparr>scheded := True\<rparr>, r)"
  shows "msr_session xs hx (hw_msrs r, l, v', r)" "m \<in> set vmx_shared_msrs \<Longrightarrow> msr_present v' m = msr_present v m"
proof -
  note si = sched_in_result [OF assms(3)]
  show "msr_session xs hx (hw_msrs r, l, v', r)" by (rule ms_other [OF assms(4) si(2)]) simp
  show "msr_present v' m = msr_present v m" if m: "m \<in> set vmx_shared_msrs"
    using view_shared(2) [OF si(2) m] save_host_msrs_result(2) [OF assms(1) m, of r]
      get_shared_index [OF m, of "(vmx_save_host_msrs r v)\<lparr>scheded := True\<rparr>" "vmx_save_host_msrs r v"] by (simp add: msr_present_def)
qed

lemma run_ok_schedule:
  assumes "run_ok e H P l st"
  shows "run_ok e H P l (schedule_thread en st)"
proof -
  obtain v i g where st: "st = (v, i, g)" by (rule prod_cases3)
  let ?xs = "ve_has_xsave e" and ?hx = "ve_host_xcr0 e" and ?c = "vg_cpu g" and ?d = "en_next_cpu en (vg_time g)"
  have e: "vk_engine (vg_kernel g) = e" and p: "\<And>m. m \<in> set vmx_shared_msrs \<Longrightarrow> msr_present v m = P m"
    and oth: "\<And>d m. m \<in> set vmx_shared_msrs \<Longrightarrow> d \<noteq> ?c \<Longrightarrow> P m \<Longrightarrow> hw_msrs (vg_regs g d) m = H d m"
    using assms by (auto simp: run_ok_def st)
  obtain host where h: "msr_session ?xs ?hx (host, l, v, vg_regs g ?c)" "\<And>m. m \<in> set vmx_shared_msrs \<Longrightarrow> P m \<Longrightarrow> host m = H ?c m"
    using assms by (auto simp: run_ok_def st)
  obtain v1 s1 r1 where out: "slimvm_sched_out ?xs ?hx ?c (v, vk_cpus (vg_kernel g), vg_regs g ?c) = (v1, s1, r1)" by (rule prod_cases3)
  define R where "R = (vg_regs g)(?c := r1)"
  obtain v2 s2 r2 where inn: "slimvm_sched_in (en_hc en) ?d (v1, s1, R ?d) = (v2, s2, r2)" by (rule prod_cases3)
  obtain w q where l: "vmx_load_host_msrs (v, vg_regs g ?c) = (w, q)" "msr_view v1 = msr_view w"
    by (rule sched_out_result [OF out])
  note so = session_out [OF h(1) out]
  have r2: "r2 = R ?d" by (rule sched_in_result(1) [OF inn])
  have s: "schedule_thread en st = (v2, i, g\<lparr>vg_kernel := (vg_kernel g)\<lparr>vk_cpus := s2\<rparr>, vg_regs := R, vg_cpu := ?d\<rparr>)"
    unfolding st schedule_thread_def Let_def prod.case e on_thread_def out using inn r2 by (auto simp: R_def fun_eq_iff)
  have view: "msr_view ((vmx_save_host_msrs (R ?d) v1)\<lparr>scheded := True\<rparr>) = msr_view ((vmx_save_host_msrs (R ?d) w)\<lparr>scheded := True\<rparr>)"
    by (rule msr_view_scheded [OF save_view [OF l(2)]])
  have ses: "msr_session ?xs ?hx (hw_msrs (R ?d), l, (vmx_save_host_msrs (R ?d) v1)\<lparr>scheded := True\<rparr>, R ?d)"
    by (rule ms_other [OF ms_sched [OF h(1) l(1)] view]) simp
  note si = session_in [OF so(1,2) inn ses]
  have bk: "hw_msrs (R d) m = H d m" if "m \<in> set vmx_shared_msrs" "P m" for d m
    using so(4) [OF that(1)] p [OF that(1)] that h(2) [OF that] oth [OF that(1), of d] by (simp add: R_def)
  show ?thesis unfolding s run_ok_def prod.case using si so(3) p e bk by (auto intro!: exI [of _ "hw_msrs (R ?d)"])
qed

lemma run_ok_preempt:
  assumes "run_ok e H P l st"
  shows "run_ok e H P l (preempt_point en st)"
proof -
  define st1 where "st1 = (if en_preempt en (vg_time (snd (snd st))) then schedule_thread en st else st)"
  have "run_ok e H P l st1" using assms run_ok_schedule by (simp add: st1_def)
  moreover have "calm st1 (preempt_point en st)"
    by (simp add: preempt_point_def st1_def [symmetric] calm_def split_beta Let_def)
  ultimately show ?thesis by (rule run_ok_calm)
qed

lemma run_ok_pass:
  assumes "run_ok e H P l st" "guestmode_pass en fl st = (r, st')"
  shows "run_ok e H P l st'"
proof -
  obtain resched notify sig where fl: "fl = (resched, notify, sig)" by (rule prod_cases3)
  obtain v i g where s: "(if resched then schedule_thread en st else st) = (v, i, g)" by (rule prod_cases3)
  have ok: "run_ok e H P l (v, i, g)" using assms(1) run_ok_schedule [OF assms(1), of en] s by (cases resched) simp_all
  obtain q v1 t1 where x: "(if sig then slimvm_signal_handler (en_keep en (vg_time g)) v (vg_task g) else (0, v, vg_task g)) = (q, v1, t1)"
    by (rule prod_cases3)
  have v: "msr_view v1 = msr_view v"
    using x view_signal [of "en_keep en (vg_time g)" v "vg_task g"] by (cases sig) simp_all
  have st': "(r, st') = (if sig \<and> en_fatal en (vg_time g) then (- 1, v\<lparr>status := SLIMVM_RET_INTR\<rparr>, i, g)
      else if q \<noteq> 0 then (- 1, v1\<lparr>status := SLIMVM_RET_INTR\<rparr>, i, g\<lparr>vg_task := t1\<rparr>)
      else (0, interfere en (v1, i, g\<lparr>vg_task := t1\<rparr>)))"
    using assms(2) [unfolded guestmode_pass_def fl prod.case s Let_def x] by (simp split: if_splits)
  have c: "calm (v, i, g) (v1, i, g\<lparr>vg_task := t1\<rparr>)" using v by (simp add: calm_def)
  have "calm (v, i, g) st'"
    using st' c calm_trans [OF c calm_interfere] by (auto simp: calm_def msr_frame split: if_splits)
  then show ?thesis by (rule run_ok_calm [OF ok])
qed

lemma run_ok_guestmode_loop: "enter_guestmode_loop en fl st = Some x \<Longrightarrow> run_ok e H P l st \<Longrightarrow> run_ok e H P l (snd x)"
proof (induction rule: enter_guestmode_loop.raw_induct [rotated, consumes 1, case_names step])
  case (step loop en fl st x)
  obtain r st1 where p: "guestmode_pass en fl st = (r, st1)" by (rule prod.exhaust)
  note ok = run_ok_pass [OF step(3) p]
  show ?case
  proof (cases "r \<noteq> 0 \<or> thread_flags en st1 = (False, False, False)")
    case True
    then show ?thesis using step(2) p ok by (auto simp: Let_def)
  next
    case False
    then have "loop en (thread_flags en st1) st1 = Some x" using step(2) p by (auto simp: Let_def)
    from step(1) [OF this ok] show ?thesis .
  qed
qed

lemma run_ok_prepare: "prepare_enter_guestmode en st = Some (r, st') \<Longrightarrow> run_ok e H P l st \<Longrightarrow> run_ok e H P l st'"
  using run_ok_guestmode_loop [of en "thread_flags en st" st "(r, st')" e H P l]
  by (cases st) (auto simp: prepare_enter_guestmode_def Let_def split: if_splits)

lemma calm_before_entry: "before_entry en r st = (r', st') \<Longrightarrow> calm st st'"
proof -
  assume b: "before_entry en r st = (r', st')"
  obtain a st1 where l: "on_cpus (\<lambda>x. ((), do_load_vcpu (en_hc en) (vg_cpu (snd (snd st))) x)) st = (a, st1)" by (rule prod.exhaust)
  let ?st2 = "on_vcpu (\<lambda>v. snd (vmx_process_vcpu_requests v)) st1"
  obtain q st3 where j: "on_cpus (inject_pending (en_hc en) (vg_cpu (snd (snd st)))) ?st2 = (q, st3)" by (rule prod.exhaust)
  have "calm st st1" by (rule calm_on_cpus [OF l]) (simp add: msr_frame)
  also have "calm st1 ?st2" by (rule calm_on_vcpu) (simp add: msr_frame)
  also have "calm ?st2 st3" by (rule calm_on_cpus [OF j]) (simp add: msr_frame)
  also have "st3 = st'" using b by (simp add: before_entry_def Let_def l j)
  finally show ?thesis .
qed

lemma calm_restore: "calm st (restore_debug en st)"
  by (simp add: restore_debug_def calm_def split_beta msr_frame)

lemma calm_armed: "calm st (armed en st)"
  by (rule calm_trans [OF calm_trans [OF calm_restore calm_on_vcpu] calm_interfere]) (simp add: msr_frame)

lemma load_host_hw: "hw_msrs (vmx_load_host_state v r) = hw_msrs r"
  by (simp add: vmx_load_host_state_def Let_def)

lemma run_ok_enter:
  assumes ok: "run_ok e H P l st" and x: "vmx_enter en l st = (reason, st')"
  shows "run_ok e H P (uint reason) st'"
proof -
  obtain v i g where st: "st = (v, i, g)" by (rule prod_cases3)
  let ?c = "vg_cpu g" and ?k = "vg_kernel g" and ?t = "vg_time g" and ?xs = "ve_has_xsave e" and ?hx = "ve_host_xcr0 e"
  have e: "vk_engine ?k = e" and p: "\<And>m. m \<in> set vmx_shared_msrs \<Longrightarrow> msr_present v m = P m"
    and oth: "\<And>d m. m \<in> set vmx_shared_msrs \<Longrightarrow> d \<noteq> ?c \<Longrightarrow> P m \<Longrightarrow> hw_msrs (vg_regs g d) m = H d m"
    using ok by (auto simp: run_ok_def st)
  obtain host where h: "msr_session ?xs ?hx (host, l, v, vg_regs g ?c)" "\<And>m. m \<in> set vmx_shared_msrs \<Longrightarrow> P m \<Longrightarrow> host m = H ?c m"
    using ok by (auto simp: run_ok_def st)
  define v1 where "v1 = vmx_save_host_state (vg_regs g ?c) v"
  obtain v2 r2 where en: "enter_switch ?xs ?hx l (v1, vg_regs g ?c) = (v2, r2)" by (rule prod.exhaust)
  obtain why v3 s3 where run: "vmx_run_vcpu (en_guest en ?t) ?c (v2, vk_cpus ?k) = (why, v3, s3)" by (rule prod_cases3)
  define r3 where "r3 = (if fail v3 then r2 else vm_exit_regs v3 (r2\<lparr>hw_msrs := (hw_msrs r2)(MSR_KERNEL_GS_BASE := en_guest_gs en ?t)\<rparr>))"
  define v4 where "v4 = vmx_set_vcpu_mode v3 OUTSIDE_GUEST_MODE"
  obtain v5 r5 where ex: "exit_switch (uint why) (v4, vmx_load_host_state v4 r3) = (v5, r5)" by (rule prod.exhaust)
  obtain v6 s6 where nmi: "(if vmcs_read32 v5 VM_EXIT_INTR_INFO AND INTR_INFO_INTR_TYPE_MASK = INTR_TYPE_NMI_INTR
        \<and> vmcs_read32 v5 VM_EXIT_INTR_INFO AND INTR_INFO_VALID_MASK \<noteq> 0
      then snd (vmx_handle_nmi (en_addr_ok en) (en_hc en) ?c (v5, s3)) else (v5, s3)) = (v6, s6)" by (rule prod.exhaust)
  have r: "reason = why" "st' = (vmx_process_step_instructions (uint why) v6, i,
      g\<lparr>vg_kernel := ?k\<lparr>vk_cpus := s6\<rparr>, vg_regs := (vg_regs g)(?c := r5)\<rparr>)"
    using x unfolding vmx_enter_def st prod.case Let_def e v1_def [symmetric] en run r3_def [symmetric] v4_def [symmetric] ex
    by (auto simp: nmi)
  have w1: "msr_view v1 = msr_view v" by (simp add: v1_def msr_frame)
  have s1: "msr_session ?xs ?hx (host, l, v1, vg_regs g ?c)" by (rule ms_other [OF h(1) w1]) simp
  have "msr_view v3 = msr_view v2" using view_run [of "en_guest en ?t" ?c "(v2, vk_cpus ?k)"] run by simp
  then have w4: "msr_view v4 = msr_view v2" by (simp add: v4_def msr_frame)
  have "\<exists>y. hw_msrs (vmx_load_host_state v4 r3) = (hw_msrs r2)(MSR_KERNEL_GS_BASE := y)"
    by (auto simp: load_host_hw r3_def vm_exit_regs_def intro: exI [of _ "hw_msrs r2 MSR_KERNEL_GS_BASE"])
  then obtain y where y: "hw_msrs (vmx_load_host_state v4 r3) = (hw_msrs r2)(MSR_KERNEL_GS_BASE := y)" by blast
  have s5: "msr_session ?xs ?hx (host, uint why, v5, r5)" by (rule ms_run [OF s1 en w4 y ex])
  have w6: "msr_view v6 = msr_view v5"
    using view_nmi [of "en_addr_ok en" "en_hc en" ?c "(v5, s3)"] nmi by (auto split: if_splits)
  then have w7: "msr_view (vmx_process_step_instructions (uint why) v6) = msr_view v5" by (simp add: msr_frame)
  have s7: "msr_session ?xs ?hx (host, uint why, vmx_process_step_instructions (uint why) v6, r5)" by (rule ms_other [OF s5 w7]) simp
  have pr: "msr_present (vmx_process_step_instructions (uint why) v6) m = P m" if m: "m \<in> set vmx_shared_msrs" for m
    using session_present [OF s1 en w4 y ex m] view_shared(2) [OF w7 m] view_shared(2) [OF w1 m] p [OF m] by simp
  show ?thesis
    unfolding r run_ok_def prod.case using s7 pr e oth h(2) by (auto intro!: exI [of _ host])
qed

section \<open>Exits in the session\<close>

definition msrs_back :: "(nat \<Rightarrow> u32 \<Rightarrow> u64) \<Rightarrow> (u32 \<Rightarrow> bool) \<Rightarrow> vmx_global \<Rightarrow> bool" where
  "msrs_back H P g \<longleftrightarrow> (\<forall>d. \<forall>m \<in> set vmx_shared_msrs. P m \<longrightarrow> hw_msrs (vg_regs g d) m = H d m)"

definition exit_ok :: "vmx_engine \<Rightarrow> (nat \<Rightarrow> u32 \<Rightarrow> u64) \<Rightarrow> (u32 \<Rightarrow> bool) \<Rightarrow> int \<Rightarrow> exit_result \<Rightarrow> bool" where
  "exit_ok e H P l res = (case res of Handled d r st \<Rightarrow> run_ok e H P l st | Ended i g \<Rightarrow> msrs_back H P g)"

lemma run_ok_put:
  assumes "run_ok e H P l st" "on_thread (vmx_put_vcpu (ve_has_xsave e) (ve_host_xcr0 e) (vg_cpu (snd (snd st)))) st = (v', i', g')"
  shows "msrs_back H P g'" "msr_table_ok v'" "\<not> guest_msrs_loaded v'"
proof -
  obtain v i g where st: "st = (v, i, g)" by (rule prod_cases3)
  obtain host where h: "msr_session (ve_has_xsave e) (ve_host_xcr0 e) (host, l, v, vg_regs g (vg_cpu g))"
      "\<And>m. m \<in> set vmx_shared_msrs \<Longrightarrow> P m \<Longrightarrow> host m = H (vg_cpu g) m" "\<And>m. m \<in> set vmx_shared_msrs \<Longrightarrow> msr_present v m = P m"
      "\<And>d m. m \<in> set vmx_shared_msrs \<Longrightarrow> d \<noteq> vg_cpu g \<Longrightarrow> P m \<Longrightarrow> hw_msrs (vg_regs g d) m = H d m"
    using assms(1) by (auto simp: run_ok_def st)
  obtain v1 s1 r1 where out: "slimvm_sched_out (ve_has_xsave e) (ve_host_xcr0 e) (vg_cpu g) (v, vk_cpus (vg_kernel g), vg_regs g (vg_cpu g)) = (v1, s1, r1)"
    by (rule prod_cases3)
  have r: "v' = v1" "vg_regs g' = (vg_regs g)(vg_cpu g := r1)"
    using assms(2) by (auto simp: st on_thread_def put_is_sched_out out)
  show "msrs_back H P g'"
    using session_out(4) [OF h(1) out] h(2-4) by (auto simp: msrs_back_def r(2))
  show "msr_table_ok v'" "\<not> guest_msrs_loaded v'" using session_out(1,2) [OF h(1) out] r(1) by simp_all
qed

lemma release_regs: "vcpu_release (vmx_ops_without_launch en) i k g = Some (i', g') \<Longrightarrow> vg_regs g' = vg_regs g"
  by (auto simp: vcpu_release_def vmx_ops_without_launch_def vmx_ops_destroy_vcpu_def split: if_splits option.splits)

lemma exit_ok_sys_exit:
  assumes "run_ok e H P l st" "slimvm_sys_exit en n st = Some res"
  shows "exit_ok e H P l res"
proof -
  obtain v i g where st: "st = (v, i, g)" by (rule prod_cases3)
  have e: "vk_engine (vg_kernel g) = e" using assms(1) by (simp add: run_ok_def st)
  obtain v1 i1 g1 where t: "on_thread (vmx_put_vcpu (ve_has_xsave e) (ve_host_xcr0 e) (vg_cpu g)) st = (v1, i1, g1)" by (rule prod_cases3)
  obtain j h where r: "res = Ended j h" "vg_regs h = vg_regs g1"
    using assms(2) unfolding slimvm_sys_exit_def Let_def st prod.case e
    using t by (auto simp: st on_vcpu_def split: option.splits dest: release_regs)
  have "msrs_back H P g1" by (rule run_ok_put(1) [OF assms(1)]) (use t in \<open>simp add: st\<close>)
  then show ?thesis using r by (simp add: exit_ok_def msrs_back_def)
qed

lemma shutdown_all_vcpu:
  assumes "vmx_shutdown_all_vcpus ok me i = (cpus, i')" "vcpus i n = Some v"
  shows "vcpus i' n = Some v \<or> vcpus i' n = Some (v\<lparr>shutdown := True\<rparr>)"
proof -
  obtain c j where f: "fold (shutdown_one me) (set_bits_of (vcpu_bitmap i) VM_MAX_VCPUS) ({}, i) = (c, j)" by (rule prod.exhaust)
  have "i' = j\<lparr>inst_shutdown := True\<rparr>" using assms(1) f by (auto simp: vmx_shutdown_all_vcpus_def Let_def)
  then show ?thesis using shutdown_fold [OF f] assms(2) by auto
qed

lemma shutdown_all_slot:
  assumes "vmx_shutdown_all_vcpus ok me i = (cpus, i')" "vcpus i n = Some v"
  shows "\<exists>w. vcpus i' n = Some w \<and> msr_view w = msr_view v"
  using shutdown_all_vcpu [OF assms] by (auto simp: msr_frame)

lemma shutdown_all_regs:
  assumes "vmx_shutdown_all_vcpus ok me i = (cpus, i')" "vcpus i n = Some v"
  shows "\<exists>w. vcpus i' n = Some w \<and> regs w = regs v"
  using shutdown_all_vcpu [OF assms] by auto

lemma exit_ok_vmcall:
  assumes "run_ok e H P l st" "handle_vmcall en n r st = Some res"
  shows "exit_ok e H P l res"
proof -
  let ?c = "vg_cpu (snd (snd st))" and ?t = "vg_time (snd (snd st))"
  obtain cpl st1 where c: "on_cpus (vmx_get_cpl (en_hc en) ?c) st = (cpl, st1)" by (rule prod.exhaust)
  have c1: "calm st st1" by (rule calm_on_cpus [OF c]) (simp add: msr_frame)
  obtain sc rg where s: "do_seccomp_filter (en_nr_syscalls en) (en_arch en) (en_filters en ?t) (regs (fst st1)) = (sc, rg)" by (rule prod.exhaust)
  define st2 where "st2 = on_vcpu (\<lambda>v. v\<lparr>regs := rg\<rparr>) st1"
  have c2: "calm st st2" unfolding st2_def by (rule calm_trans [OF c1 calm_on_vcpu]) (simp add: msr_frame)
  obtain v i g where st2: "st2 = (v, i, g)" by (rule prod_cases3)
  note u = assms(2) [unfolded handle_vmcall_def c Let_def prod.case s st2_def [symmetric]]
  note ok = run_ok_calm [OF assms(1)]
  show ?thesis
  proof (cases "cpl \<noteq> 0")
    case True
    then show ?thesis using u ok [OF c1] by (auto simp: exit_ok_def)
  next
    case cpl: False
    show ?thesis
    proof (cases "sc \<noteq> 0")
      case True
      obtain cs j where a: "vmx_shutdown_all_vcpus (en_mask_ok en ?t) (int ?c) (put_slot n st2) = (cs, j)" by (rule prod.exhaust)
      have "vcpus (put_slot n st2) n = Some v" by (simp add: put_slot_def st2)
      from shutdown_all_slot [OF a this] have "calm st2 (the (vcpus j n), j, g)" by (auto simp: calm_def st2)
      then have "calm st (the (vcpus j n), j, g)" by (rule calm_trans [OF c2])
      moreover have "res = Handled True r (the (vcpus j n), j, g)" using u cpl True a by (simp add: st2)
      ultimately show ?thesis using ok by (simp add: exit_ok_def)
    next
      case sc: False
      show ?thesis
      proof (cases "is_exit_call en st2")
        case True
        let ?f = "\<lambda>x. make_pt_regs (en_addr_ok en) (en_hc en) ?c x (regs (fst st2) VCPU_REGS_RAX)"
        obtain a st3 where e: "on_cpus ?f st2 = (a, st3)" by (rule prod.exhaust)
        have "calm st st3" by (rule calm_trans [OF c2 calm_on_cpus [OF e]]) (simp add: msr_frame)
        moreover have "slimvm_sys_exit en n st3 = Some res" using u cpl sc True by (simp add: e)
        ultimately show ?thesis using exit_ok_sys_exit ok by blast
      next
        case False
        obtain v1 s1 t1 where h: "vmx_handle_syscall (en_addr_ok en) (en_hc en) ?c (of_nat (en_nr_syscalls en)) (slimvm_call en g) tk_sigpending
            ((v, vk_cpus (vg_kernel g)), vg_task g) = Some ((v1, s1), t1)"
          "res = Handled False r (v1, i, g\<lparr>vg_kernel := (vg_kernel g)\<lparr>vk_cpus := s1\<rparr>, vg_task := t1\<rparr>)"
          using u cpl sc False by (auto simp: st2 split: option.splits)
        have "calm st2 (v1, i, g\<lparr>vg_kernel := (vg_kernel g)\<lparr>vk_cpus := s1\<rparr>, vg_task := t1\<rparr>)"
          using view_syscall [OF h(1)] by (simp add: calm_def st2)
        then show ?thesis using ok [OF calm_trans [OF c2]] h(2) by (simp add: exit_ok_def)
      qed
    qed
  qed
qed

lemma exit_ok_msr_write:
  assumes "run_ok e H P EXIT_REASON_MSR_WRITE (v, i, g)" "vmx_handle_msr_write v = (d, v1)"
  shows "run_ok e H P EXIT_REASON_MSR_WRITE (v1, i, g)"
proof (cases "find_msr_entry v (ucast (regs v VCPU_REGS_RCX))")
  case None
  then show ?thesis using assms by (auto simp: vmx_handle_msr_write_def Let_def split: if_splits)
next
  case (Some k)
  then have v1: "v1 = set_guest k (edx_eax v) v" using assms(2) by (auto simp: vmx_handle_msr_write_def Let_def set_guest_def)
  obtain host where h: "msr_session (ve_has_xsave e) (ve_host_xcr0 e) (host, EXIT_REASON_MSR_WRITE, v, vg_regs g (vg_cpu g))"
      "\<forall>m \<in> set vmx_shared_msrs. P m \<longrightarrow> host m = H (vg_cpu g) m"
    using assms(1) by (auto simp: run_ok_def)
  from ms_write [OF h(1), of k "edx_eax v"] assms(1) h(2) show ?thesis
    by (auto simp: run_ok_def v1 set_guest_shared(1))
qed

definition calm_exit :: "vmx_st \<Rightarrow> exit_result \<Rightarrow> bool" where
  "calm_exit st res = (case res of Handled d r st' \<Rightarrow> calm st st' | Ended i g \<Rightarrow> False)"

lemma calm_exit_Handled [simp]: "calm_exit st (Handled d r st') = calm st st'"
  by (simp add: calm_exit_def)

lemma calm_exits:
  assumes h: "vmx_handle_exit en n reason r st = Some res"
    and other: "uint reason \<noteq> EXIT_REASON_VMCALL" "uint reason \<noteq> EXIT_REASON_MSR_WRITE"
  shows "calm_exit st res"
proof -
  obtain v i g where st: "st = (v, i, g)" by (rule prod_cases3)
  let ?c = "vg_cpu g" and ?k = "vg_kernel g"
  note u = h [unfolded vmx_handle_exit_def st Let_def prod.case]
  have status: "calm st (set_status x st')" if "calm st st'" for x st' by (rule calm_trans [OF that calm_status])
  have m: "calm st (y, j, g\<lparr>vg_kernel := ?k\<lparr>vk_cpus := s1\<rparr>, vg_task := t1\<rparr>)"
    "calm st (y, j, g\<lparr>vg_kernel := ?k\<lparr>vk_cpus := s1\<rparr>, vg_nested := m1\<rparr>)"
    "calm st (y, j, g\<lparr>vg_kernel := ?k\<lparr>vk_cpus := s1\<rparr>\<rparr>)" "calm st (y, j, g)"
    if "msr_view y = msr_view v" for y s1 t1 m1 j using that by (simp_all add: calm_def st)
  consider (ept) "uint reason = EXIT_REASON_EPT_VIOLATION" | (mis) "uint reason = EXIT_REASON_EPT_MISCONFIG"
    | (hlt) "uint reason = EXIT_REASON_HLT" | (exc) "uint reason = EXIT_REASON_EXCEPTION_NMI"
    | (win) "uint reason = EXIT_REASON_INTERRUPT_WINDOW"
    | (rest) "uint reason \<notin> {EXIT_REASON_EPT_VIOLATION, EXIT_REASON_EPT_MISCONFIG, EXIT_REASON_HLT, EXIT_REASON_EXCEPTION_NMI,
        EXIT_REASON_INTERRUPT_WINDOW}" by blast
  then show ?thesis
  proof cases
    case ept
    obtain r1 v1 s1 i1 m1 where x: "vmx_handle_ept_violation (cpu_has_vmx_ept_ad_bits (vk_engine ?k)) (en_galloc en) (en_host en (vg_time g)) (en_hc en) ?c
        ((v, vk_cpus ?k), i, vg_nested g) = Some (r1, (v1, s1), i1, m1)"
      using u ept by (auto split: option.splits)
    have "msr_view v1 = msr_view v" using view_violation [OF x] by simp
    from m(2) [OF this] show ?thesis using u ept x status by (auto split: if_splits)
  next
    case mis
    obtain r1 v1 s1 where x: "vmx_handle_ept_misconfig (en_hc en) ?c i (em_heap (vg_nested g)) (v, vk_cpus ?k) = Some (r1, v1, s1)"
      using u mis by (auto split: option.splits)
    have "msr_view v1 = msr_view v" using view_misconfig [OF x] by simp
    from m(3) [OF this] show ?thesis using u mis x status by auto
  next
    case hlt
    obtain d st1 where x: "on_cpus (handle_halt (en_hc en) ?c) st = (d, st1)" by (rule prod.exhaust)
    have "calm st st1" by (rule calm_on_cpus [OF x]) (simp add: msr_frame)
    then show ?thesis using u hlt x by (auto simp: st)
  next
    case exc
    obtain d v1 s1 t1 where x: "vmx_handle_nmi_exception (en_hc en) ?c (v, vk_cpus ?k) (vg_task g) = (d, (v1, s1), t1)" by (metis prod_cases3 surj_pair)
    have "msr_view v1 = msr_view v" using view_nmi_exception [of "en_hc en" ?c "(v, vk_cpus ?k)" "vg_task g"] x by simp
    from m(1) [OF this] show ?thesis using u exc x by auto
  next
    case win
    obtain d st1 where x: "on_cpus (\<lambda>x. ((), vmx_inject_bounce (en_hc en) ?c x)) st = (d, st1)" by (rule prod.exhaust)
    have "calm st st1" by (rule calm_on_cpus [OF x]) (simp add: msr_frame)
    moreover have "calm st (on_vcpu (vmx_set_interrupt_window_exiting False) st)" by (rule calm_on_vcpu) (simp add: msr_frame)
    ultimately show ?thesis using u win x by (auto simp: st split: if_splits)
  next
    case rest
    obtain d v1 where x: "vmx_handle_msr_read v = (d, v1)" by (rule prod.exhaust)
    have v1: "msr_view v1 = msr_view v" using view_modes(10) [of v] x by simp
    have c: "calm st (on_vcpu (vmx_handle_cpuid (en_cpuid en)) st)" "calm st (on_vcpu (\<lambda>v. snd (handle_xsetbv v)) st)"
      by (rule calm_on_vcpu, simp add: msr_frame)+
    show ?thesis
      using u rest other x c m(4) [OF v1, of i] status [OF calm_refl] by (auto simp: st split: if_splits)
  qed
qed

lemma exit_ok_handle:
  assumes ok: "run_ok e H P (uint reason) st" and h: "vmx_handle_exit en n reason r st = Some res"
  shows "exit_ok e H P (uint reason) res"
proof -
  obtain v i g where st: "st = (v, i, g)" by (rule prod_cases3)
  note u = h [unfolded vmx_handle_exit_def st Let_def prod.case]
  have calm_ok: "exit_ok e H P (uint reason) (Handled d q st')" if "calm st st'" for d q st'
    using run_ok_calm [OF ok that] by (simp add: exit_ok_def)
  consider (call) "uint reason = EXIT_REASON_VMCALL" | (wr) "uint reason = EXIT_REASON_MSR_WRITE"
    | (other) "uint reason \<noteq> EXIT_REASON_VMCALL" "uint reason \<noteq> EXIT_REASON_MSR_WRITE" by blast
  then show ?thesis
  proof cases
    case call
    then show ?thesis using exit_ok_vmcall [OF ok, of en n r res] u by (simp add: st)
  next
    case wr
    obtain d v1 where w: "vmx_handle_msr_write v = (d, v1)" by (rule prod.exhaust)
    have "run_ok e H P (uint reason) (v1, i, g)" using exit_ok_msr_write [OF _ w] ok wr by (simp add: st)
    moreover from this have "run_ok e H P (uint reason) (set_status SLIMVM_RET_MSR_WRITE (v1, i, g))" by (rule run_ok_calm [OF _ calm_status])
    ultimately show ?thesis using u wr w by (auto simp: exit_ok_def split: if_splits)
  next
    case other
    then have "calm_exit st res" by (rule calm_exits [OF h])
    then show ?thesis using calm_ok by (cases res) (auto simp: calm_exit_def)
  qed
qed

definition round_ok :: "vmx_engine \<Rightarrow> (nat \<Rightarrow> u32 \<Rightarrow> u64) \<Rightarrow> (u32 \<Rightarrow> bool) \<Rightarrow> round_result \<Rightarrow> bool" where
  "round_ok e H P res = (case res of Next l r st \<Rightarrow> run_ok e H P l st | Stop r st \<Rightarrow> \<exists>l. run_ok e H P l st | Gone i g \<Rightarrow> msrs_back H P g)"

lemma vmx_round_ok:
  assumes "run_ok e H P l st" "vmx_round en n l r st = Some res"
  shows "round_ok e H P res"
proof -
  have s: "run_ok e H P l (preempt_point en (interfere en st))"
    by (rule run_ok_preempt [OF run_ok_calm [OF assms(1) calm_interfere]])
  have mode: "calm st (on_vcpu (\<lambda>v. vmx_set_vcpu_mode v md) st)" for st md by (rule calm_on_vcpu) (simp add: msr_frame)
  from assms(2) show ?thesis
  proof (cases rule: vmx_round_cases)
    case (refused p st1)
    then show ?thesis using run_ok_prepare [OF refused(1) s] by (auto simp: round_ok_def)
  next
    case (nmi st1 r1 st2)
    have "run_ok e H P l st2" by (rule run_ok_calm [OF run_ok_prepare [OF nmi(1) s] calm_before_entry [OF nmi(2)]])
    from run_ok_calm [OF this mode [of st2 OUTSIDE_GUEST_MODE]] show ?thesis using nmi(3) unfolding round_ok_def by (simp only: round_result.case) blast
  next
    case (again st1 r1 st2)
    have "run_ok e H P l st2" by (rule run_ok_calm [OF run_ok_prepare [OF again(1) s] calm_before_entry [OF again(2)]])
    from run_ok_calm [OF run_ok_calm [OF this calm_armed] mode] show ?thesis using again(3) unfolding round_ok_def by (simp only: round_result.case)
  next
    case (exit st1 r1 st2 reason st3 e')
    have "run_ok e H P l (armed en st2)"
      by (rule run_ok_calm [OF run_ok_calm [OF run_ok_prepare [OF exit(1) s] calm_before_entry [OF exit(2)]] calm_armed])
    from run_ok_preempt [OF run_ok_enter [OF this exit(3)]] have "exit_ok e H P (uint reason) e'" by (rule exit_ok_handle [OF _ exit(4)])
    then show ?thesis using exit(5) by (cases e') (auto simp: exit_ok_def round_ok_def)
  qed
qed

lemma launch_loop_ok: "vmx_launch_loop en n l r st = Some res \<Longrightarrow> run_ok e H P l st \<Longrightarrow> round_ok e H P res"
proof (induction rule: vmx_launch_loop.raw_induct [rotated, consumes 1, case_names step])
  case (step loop en n l r st res)
  obtain x where x: "vmx_round en n l r st = Some x" using step(2) by (auto split: option.splits)
  note ok = vmx_round_ok [OF step(3) x]
  show ?case
  proof (cases x)
    case (Next l' r' st')
    then have "loop en n l' r' st' = Some res" "run_ok e H P l' st'" using step(2) x ok by (simp_all add: round_ok_def)
    then show ?thesis by (rule step(1))
  qed (use ok x step(2) in auto)
qed

lemma launch_begin_ok:
  assumes "msr_table_ok v" "\<not> guest_msrs_loaded v"
  shows "run_ok (vk_engine (vg_kernel g)) (\<lambda>d. hw_msrs (vg_regs g d)) (msr_present v) 0 (launch_begin en (v, i, g))"
proof -
  let ?e = "vk_engine (vg_kernel g)" and ?r = "vg_regs g (vg_cpu g)"
  obtain v1 s1 r1 where l: "slimvm_sched_in (en_hc en) (vg_cpu g) (v, vk_cpus (vg_kernel g), ?r) = (v1, s1, r1)" by (rule prod_cases3)
  have r1: "r1 = ?r" by (rule sched_in_result(1) [OF l])
  obtain g' where b: "launch_begin en (v, i, g) = (v1, i, g')" "vk_engine (vg_kernel g') = ?e" "vg_regs g' = vg_regs g" "vg_cpu g' = vg_cpu g"
    unfolding launch_begin_def Let_def prod.case load_is_sched_in using l r1
    by (cases "sigset_active v") (auto simp: on_thread_def on_task_def)
  note si = session_in [OF assms l ms_load [OF assms, of "ve_has_xsave ?e" "ve_host_xcr0 ?e" ?r]]
  show ?thesis unfolding b(1) run_ok_def prod.case using si b(2-4) by (auto intro!: exI [of _ "hw_msrs ?r"])
qed

text \<open>The state a run leaves behind.\<close>

definition result_global :: "(vmx_vcpu, vmx_global) run_result \<Rightarrow> vmx_global" where
  "result_global res = (case res of Run_return r conf i g \<Rightarrow> g | Run_exit i g \<Rightarrow> g)"

lemma launch_end_ok:
  assumes ok: "run_ok e H P l st" and f: "launch_end en conf saved r st = (r1, conf1, st1)"
  shows "msrs_back H P (snd (snd st1))" "msr_table_ok (fst st1)" "\<not> guest_msrs_loaded (fst st1)"
proof -
  obtain v i g where st: "st = (v, i, g)" by (rule prod_cases3)
  have e: "vk_engine (vg_kernel g) = e" using ok by (simp add: run_ok_def st)
  obtain v2 i2 g2 where t: "on_thread (vmx_put_vcpu (ve_has_xsave e) (ve_host_xcr0 e) (vg_cpu g)) st = (v2, i2, g2)" by (rule prod_cases3)
  have b: "msrs_back H P g2" "msr_table_ok v2" "\<not> guest_msrs_loaded v2" using run_ok_put [OF ok, of v2 i2 g2] t by (simp_all add: st)
  let ?f = "\<lambda>x. vmx_copy_registers_to_conf (en_hc en) (vg_cpu g) x (vmx_copy_status_to_conf v2 conf)"
  obtain c2 st2 where oc: "on_cpus ?f (v2, i2, g2) = (c2, st2)" by (rule prod.exhaust)
  have "calm (v2, i2, g2) st2" by (rule calm_on_cpus [OF oc]) (simp add: msr_frame)
  moreover have "calm st2 st1"
  proof -
    let ?st3 = "if sigset_active (fst st2) then on_task (sigprocmask (en_keep en (vg_time g)) saved) st2 else st2"
    have s1: "st1 = on_vcpu (\<lambda>v. vmx_set_vcpu_mode v OUTSIDE_ROOT_MODE) ?st3"
      using f t oc unfolding launch_end_def st Let_def prod.case e by (simp add: st split: if_splits)
    have "calm st2 ?st3" by (simp add: calm_on_task)
    also have "calm ?st3 st1" unfolding s1 by (rule calm_on_vcpu) (simp add: msr_frame)
    finally show ?thesis .
  qed
  ultimately have c: "msr_view (fst st1) = msr_view v2" "vg_regs (snd (snd st1)) = vg_regs g2" by (auto simp: calm_def)
  show "msrs_back H P (snd (snd st1))" using b(1) by (simp add: msrs_back_def c(2))
  show "msr_table_ok (fst st1)" "\<not> guest_msrs_loaded (fst st1)"
    using b(2,3) view_shared(5) [OF c(1)] c(1) by (simp_all add: msr_view_def)
qed

section \<open>The clock\<close>

definition st_time :: "vmx_st \<Rightarrow> nat" where
  "st_time st = vg_time (snd (snd st))"

lemma time_lifts [simp]:
  "st_time (snd (on_cpus f st)) = st_time st" "st_time (on_vcpu h st) = st_time st" "st_time (on_task k st) = st_time st"
  "st_time (on_thread q st) = st_time st" "st_time (set_status x st) = st_time st" "st_time (interfere en st) = st_time st + 1"
  "st_time (restore_debug en st) = st_time st"
  by (simp_all add: st_time_def on_cpus_def on_vcpu_def on_task_def on_thread_def set_status_def interfere_def restore_debug_def split_beta Let_def)

lemma on_cpus_time: "on_cpus f st = (a, st') \<Longrightarrow> st_time st' = st_time st"
  using time_lifts(1) [of f st] by simp

lemma schedule_time [simp]: "st_time (schedule_thread en st) = st_time st"
  by (simp add: schedule_thread_def st_time_def on_thread_def split_beta Let_def)

lemma preempt_time [simp]: "st_time (preempt_point en st) = st_time st + 1"
  using schedule_time [of en st] by (simp add: preempt_point_def st_time_def split_beta Let_def)

lemma pass_time: "guestmode_pass en fl st = (r, st') \<Longrightarrow> st_time st \<le> st_time st'"
proof -
  assume p: "guestmode_pass en fl st = (r, st')"
  obtain resched notify sig where fl: "fl = (resched, notify, sig)" by (rule prod_cases3)
  obtain v i g where s: "(if resched then schedule_thread en st else st) = (v, i, g)" by (rule prod_cases3)
  then have t: "vg_time g = st_time st" using schedule_time [of en st] by (cases resched) (simp_all add: st_time_def)
  have "vg_time g \<le> st_time st'"
    using p [unfolded guestmode_pass_def fl prod.case s]
    by (auto simp: Let_def st_time_def interfere_def split: if_splits prod.splits)
  with t show ?thesis by simp
qed

lemma guestmode_loop_time: "enter_guestmode_loop en fl st = Some x \<Longrightarrow> st_time st \<le> st_time (snd x)"
proof (induction rule: enter_guestmode_loop.raw_induct [rotated, consumes 1, case_names step])
  case (step loop en fl st x)
  obtain r st1 where p: "guestmode_pass en fl st = (r, st1)" by (rule prod.exhaust)
  show ?case
  proof (cases "r \<noteq> 0 \<or> thread_flags en st1 = (False, False, False)")
    case True
    then show ?thesis using step(2) p pass_time [OF p] by (auto simp: Let_def)
  next
    case False
    then have "loop en (thread_flags en st1) st1 = Some x" using step(2) p by (auto simp: Let_def)
    from step(1) [OF this] pass_time [OF p] show ?thesis by simp
  qed
qed

lemma prepare_time: "prepare_enter_guestmode en st = Some (r, st') \<Longrightarrow> st_time st \<le> st_time st'"
  using guestmode_loop_time [of en "thread_flags en st" st "(r, st')"]
  by (cases st) (auto simp: prepare_enter_guestmode_def Let_def split: if_splits)

lemma before_entry_time: "before_entry en r st = (r', st') \<Longrightarrow> st_time st' = st_time st"
  by (auto simp: before_entry_def Let_def split: prod.splits dest!: on_cpus_time)

lemma enter_time: "vmx_enter en l st = (reason, st') \<Longrightarrow> st_time st' = st_time st"
  by (cases st) (auto simp: vmx_enter_def Let_def st_time_def split: prod.splits)

lemma vmcall_time: "handle_vmcall en n r st = Some (Handled d r' st') \<Longrightarrow> st_time st' = st_time st"
proof -
  assume h: "handle_vmcall en n r st = Some (Handled d r' st')"
  let ?c = "vg_cpu (snd (snd st))"
  obtain cpl st1 where c: "on_cpus (vmx_get_cpl (en_hc en) ?c) st = (cpl, st1)" by (rule prod.exhaust)
  obtain v i g where st1: "st1 = (v, i, g)" by (rule prod_cases3)
  have "vg_time g = st_time st" using on_cpus_time [OF c] by (simp add: st1 st_time_def)
  then show ?thesis
    using h unfolding handle_vmcall_def c Let_def prod.case
    by (auto simp: st1 on_vcpu_def slimvm_sys_exit_def st_time_def Let_def split: if_splits prod.splits option.splits)
qed

lemma handle_exit_time: "vmx_handle_exit en n reason r st = Some (Handled d r' st') \<Longrightarrow> st_time st' = st_time st"
proof (cases "uint reason = EXIT_REASON_VMCALL")
  case True
  then show "vmx_handle_exit en n reason r st = Some (Handled d r' st') \<Longrightarrow> ?thesis"
    using vmcall_time [of en n r st d r' st'] by (cases st) (simp add: vmx_handle_exit_def Let_def)
next
  case False
  then show "vmx_handle_exit en n reason r st = Some (Handled d r' st') \<Longrightarrow> ?thesis"
    by (cases st) (auto simp: vmx_handle_exit_def Let_def st_time_def set_status_def on_vcpu_def split: if_splits option.splits prod.splits
        dest!: on_cpus_time)
qed

text \<open>Every further round is at a later time.\<close>

lemma vmx_round_time:
  assumes "vmx_round en n l r st = Some (Next l' r' st')"
  shows "st_time st < st_time st'"
  using assms
proof (cases rule: vmx_round_cases)
  case (again st1 r1 st2)
  then show ?thesis using prepare_time [OF again(1)] before_entry_time [OF again(2)] by simp
next
  case (exit st1 r1 st2 reason st3 e)
  obtain d where "e = Handled d r' st'" using exit(5) by (cases e) (auto split: if_splits)
  with handle_exit_time [of en n reason r1 "preempt_point en st3" d r' st'] exit(4)
    prepare_time [OF exit(1)] before_entry_time [OF exit(2)] enter_time [OF exit(3)]
  show ?thesis by simp
qed simp_all

text \<open>The states a loop passes through.\<close>

inductive in_loop :: "vmx_env \<Rightarrow> nat \<Rightarrow> int \<Rightarrow> int \<Rightarrow> vmx_st \<Rightarrow> int \<Rightarrow> int \<Rightarrow> vmx_st \<Rightarrow> bool" for en n where
  loop_here: "in_loop en n l r st l r st"
| loop_next: "\<lbrakk>vmx_round en n l r st = Some (Next l1 r1 st1); in_loop en n l1 r1 st1 l' r' st'\<rbrakk> \<Longrightarrow> in_loop en n l r st l' r' st'"

lemma refused_after_shutdown:
  assumes "en_shutdown en (st_time st)"
  shows "\<exists>st'. vmx_round en n l r st = Some (Stop r st')"
proof -
  let ?st = "preempt_point en (interfere en st)"
  have "inst_shutdown (st_inst ?st)"
    using assms by (cases st) (simp add: interfere_def Let_def st_time_def)
  then have "prepare_enter_guestmode en ?st = Some (- 1, ?st)"
    by (cases ?st) (simp add: prepare_enter_guestmode_def Let_def)
  then have "vmx_round en n l r st = Some (Stop r ?st)" by (simp add: vmx_round_def)
  then show ?thesis by blast
qed

lemma loop_returns:
  assumes "\<And>t. T \<le> t \<Longrightarrow> en_shutdown en t" "\<And>l' r' st'. in_loop en n l r st l' r' st' \<Longrightarrow> vmx_round en n l' r' st' \<noteq> None"
  shows "\<exists>res. vmx_launch_loop en n l r st = Some res \<and> (\<forall>l r st. res \<noteq> Next l r st)"
  using assms(2)
proof (induction "T - st_time st" arbitrary: l r st rule: less_induct)
  case less
  obtain x where x: "vmx_round en n l r st = Some x" using less.prems [OF loop_here] by blast
  show ?case
  proof (cases x)
    case (Next l1 r1 st1)
    have "st_time st < T"
    proof (rule ccontr)
      assume "\<not> st_time st < T"
      then obtain st' where "vmx_round en n l r st = Some (Stop r st')"
        using refused_after_shutdown [of en st n l r] assms(1) [of "st_time st"] by auto
      then show False using x Next by simp
    qed
    moreover have "st_time st < st_time st1" using vmx_round_time x Next by blast
    ultimately have "T - st_time st1 < T - st_time st" by simp
    moreover have "vmx_round en n l' r' st' \<noteq> None" if "in_loop en n l1 r1 st1 l' r' st'" for l' r' st'
      using less.prems loop_next [OF _ that] x Next by blast
    ultimately have "\<exists>res. vmx_launch_loop en n l1 r1 st1 = Some res \<and> (\<forall>l r st. res \<noteq> Next l r st)" by (rule less.hyps)
    then show ?thesis using x Next by (subst vmx_launch_loop.simps) simp
  qed (use x in \<open>subst vmx_launch_loop.simps, simp\<close>)+
qed

section \<open>An environment to run in\<close>

text \<open>
  The processor refuses every entry, nobody sends signals or requests, and the instance is shut down at time 3.
  The thread is moved between two CPUs whenever it can be preempted.  A filter kills system call 1.
\<close>

definition no_page :: host_page where
  "no_page = \<lparr>pg_pfn = 0, pg_head_pfn = 0, pg_trans_compound = False, pg_compound = False, pg_anon = False, pg_mapcount = 0,
     pg_head_mapcount = 0, pg_head_thp_dtor = False, pg_reserved = False\<rparr>"

definition task_example :: task where
  "task_example = \<lparr>tk_pending = (\<lambda>_. False), tk_shared = (\<lambda>_. False), tk_blocked = (\<lambda>_. False), tk_sigpending = False,
     tk_pt_regs = pt_regs_zero, tk_trap_nr = 0, tk_error_code = 0, tk_virtual_dr6 = 0, tk_singlestep = False, tk_blockstep = False\<rparr>"

definition enable_example :: enable_env where
  "enable_example = \<lparr>ee_sym = (\<lambda>_. True), ee_rdmsr = rdmsr_example, ee_get_order = (\<lambda>_. 0), ee_cpuid = (\<lambda>_ _. (0, 0, 0, 0)), ee_page = True,
     ee_vmcs = (\<lambda>_. True), ee_possible = [0, 1], ee_online = [0, 1], ee_xcr0 = 7\<rparr>"

definition env_example :: vmx_env where
  "env_example = \<lparr>en_guest = (\<lambda>_ _. None), en_guest_gs = (\<lambda>_. 0), en_requests = (\<lambda>_ _. False), en_shutdown = (\<lambda>t. 3 \<le> t),
     en_kick = (\<lambda>_. False), en_task = (\<lambda>_ _. task_example), en_flags = (\<lambda>_. (False, False)), en_fatal = (\<lambda>_. False), en_keep = (\<lambda>_. False),
     en_preempt = (\<lambda>_. True), en_next_cpu = (\<lambda>t. t mod 2), en_hc = host_cpu_example, en_addr_ok = (\<lambda>_. True), en_nr_syscalls = 450,
     en_arch = 0xc000003e, en_filters = (\<lambda>_. filters_example), en_syscall = (\<lambda>_ _ _ t. Some (0, t)), en_clone = (\<lambda>_ _ rg k. (0, rg, k)),
     en_cpuid = (\<lambda>_ _. (0, 0, 0, 0)), en_galloc = (\<lambda>h. if h 0x1000 = None then Some 0x1000 else None),
     en_host = (\<lambda>_ _. \<lparr>gup_fast = (- EINVAL, no_page), gup_slow = (- EINVAL, no_page), h_vma = None, h_follow = (0, 0)\<rparr>),
     en_mask_ok = (\<lambda>_. True), en_modes = (\<lambda>_ _ _. OUTSIDE_ROOT_MODE), en_create = (\<lambda>_. create_example 9), en_enable = enable_example,
     en_register = (\<lambda>_. 0)\<rparr>"

text \<open>CPU 0 and CPU 1 have different MSRs of the host.\<close>

definition global_example :: vmx_global where
  "global_example = \<lparr>vg_kernel = kernel_example, vg_nested = \<lparr>em_heap = Map.empty, em_ref = (\<lambda>_. 0), em_dirty = (\<lambda>_. False)\<rparr>,
     vg_regs = (\<lambda>c. cpu_regs_example\<lparr>hw_msrs := (\<lambda>_. of_nat c + 5)\<rparr>), vg_task = task_example, vg_cpu = 0, vg_time = 0\<rparr>"

definition guest_example :: vmx_inst where
  "guest_example = instance_zero\<lparr>vcpu_bitmap := (\<lambda>n. n = 0), vcpus := [0 \<mapsto> msr_example]\<rparr>"

lemma example_sel [simp]:
  "en_flags env_example t = (False, False)" "en_task env_example t k = task_example" "en_guest env_example t x = None"
  "en_shutdown env_example t \<longleftrightarrow> 3 \<le> t" "tk_sigpending task_example = False"
  by (simp_all add: env_example_def task_example_def)

lemma example_prepare: "prepare_enter_guestmode env_example (preempt_point env_example (interfere env_example st)) \<noteq> None"
proof -
  obtain v i g where s: "preempt_point env_example (interfere env_example st) = (v, i, g)" by (rule prod_cases3)
  have "vg_task (snd (snd (preempt_point env_example (interfere env_example st)))) = task_example"
    by (simp add: preempt_point_def schedule_thread_def on_thread_def interfere_def split_beta Let_def)
  then have "thread_flags env_example (v, i, g) = (False, False, False)"
    by (simp add: s thread_flags_def)
  then show ?thesis by (simp add: s prepare_enter_guestmode_def Let_def)
qed

lemma example_refused: "fst (vmx_enter env_example l st) = VMX_EXIT_REASONS_FAILED_VMENTRY"
proof -
  have "fst (vmx_run_vcpu (en_guest env_example t) c x) = VMX_EXIT_REASONS_FAILED_VMENTRY" for t c x
    by (simp add: vmx_run_vcpu_def split_beta Let_def split: option.split)
  then show ?thesis by (cases st) (simp add: vmx_enter_def Let_def split_beta)
qed

lemma example_rounds: "vmx_round env_example n l r st \<noteq> None"
proof -
  obtain p st1 where p: "prepare_enter_guestmode env_example (preempt_point env_example (interfere env_example st)) = Some (p, st1)"
    using example_prepare [of st] by auto
  obtain r1 st2 where b: "before_entry env_example r st1 = (r1, st2)" by (rule prod.exhaust)
  obtain reason st3 where x: "vmx_enter env_example l (armed env_example st2) = (reason, st3)" by (rule prod.exhaust)
  have "reason = VMX_EXIT_REASONS_FAILED_VMENTRY" using example_refused [of l "armed env_example st2"] x by simp
  then have "vmx_handle_exit env_example n reason r1 (preempt_point env_example st3) \<noteq> None"
    by (simp add: vmx_handle_exit_def Let_def split_beta)
  then show ?thesis
    unfolding vmx_round_def p option.case prod.case b Let_def x by (auto split: exit_result.splits)
qed

lemma example_launch: "\<exists>res. vmx_launch env_example 0 (conf_example 0) guest_example global_example = Some res"
proof -
  let ?st = "launch_begin env_example (msr_example, guest_example, global_example)"
  obtain res where "vmx_launch_loop env_example 0 0 0 ?st = Some res" "\<forall>l r st. res \<noteq> Next l r st"
    using loop_returns [of 3 env_example 0 0 0 ?st] example_rounds by auto
  then show ?thesis by (cases res) (simp_all add: vmx_launch_def guest_example_def split_beta)
qed

lemma example_open:
  "\<exists>w. slimvm_dev_open (vmx_ops env_example) 2 (Some 1) True (world_init global_example) = (0, w) \<and> inst_heap w 1 \<noteq> None"
  using find_first_zero_bit_full [of "\<lambda>_. False" INSTANCES_MAX_NUM 0]
  by (auto simp: slimvm_dev_open_def instance_create_def alloc_inst_id_def world_init_def Let_def vmx_ops_def vmx_ops_without_launch_def
      instance_alloc_eptp_def env_example_def global_example_def split_beta)

lemma get_cpl_keeps: "on_cpus (vmx_get_cpl hc c) st = (a, st') \<Longrightarrow> regs (fst st') = regs (fst st) \<and> vg_task (snd (snd st')) = vg_task (snd (snd st))"
  by (cases st) (auto simp: on_cpus_def vmx_get_cpl_def vmx_read_guest_seg_ar_def split_beta Let_def)

lemma put_slot_ok: "vcpus_ok (st_inst st) \<Longrightarrow> vcpus (st_inst st) n \<noteq> None \<Longrightarrow> vcpus_ok (put_slot n st)"
  using inst_core_vcpus_ok [OF put_slot_core] by blast

lemma filter_kill_regs: "do_seccomp_filter nr arch fs rg = (x, rg') \<Longrightarrow> x \<noteq> 0 \<Longrightarrow> rg' = rg"
  by (auto simp: do_seccomp_filter_def seccomp_verdict_def Let_def split: if_splits)

section \<open>Properties\<close>



text \<open>C3. A run ends when its instance is shut down.  If the instance is shut down from some time on and every
  single round of the loop returns, \<open>vmx_launch\<close> returns: a vcpu cannot stay in the guest.\<close>

theorem launch_ends:
  assumes "vcpus i n = Some v" "\<And>t. T \<le> t \<Longrightarrow> en_shutdown en t"
    "\<And>l r st. in_loop en n 0 0 (launch_begin en (v, i, g)) l r st \<Longrightarrow> vmx_round en n l r st \<noteq> None"
  shows "vmx_launch en n conf i g \<noteq> None"
proof -
  obtain res where "vmx_launch_loop en n 0 0 (launch_begin en (v, i, g)) = Some res" "\<forall>l r st. res \<noteq> Next l r st"
    using loop_returns [OF assms(2,3)] by blast
  then show ?thesis using assms(1) by (cases res) (simp_all add: vmx_launch_def split_beta)
qed

theorem launch_ends_witness:
  "vcpus guest_example 0 = Some msr_example \<and> vmx_launch env_example 0 (conf_example 0) guest_example global_example \<noteq> None"
proof
  show v: "vcpus guest_example 0 = Some msr_example" by (simp add: guest_example_def)
  show "vmx_launch env_example 0 (conf_example 0) guest_example global_example \<noteq> None"
    by (rule launch_ends [OF v, of 3]) (simp, rule example_rounds)
qed

text \<open>C2. A run gives every CPU its MSRs back.  \<open>vmx_launch\<close> follows the steps of \<open>msr_session\<close>: whatever the guest does and
  however the thread is moved between CPUs, when the run returns or the thread ends in a system call of
  the guest, every register of the tables has on every CPU the value it had before, and the vcpu is
  ready for the next run.\<close>

theorem launch_restores_msrs:
  assumes "vmx_launch en n conf i g = Some res" "vcpus i n = Some v" "msr_table_ok v" "\<not> guest_msrs_loaded v"
    "m \<in> set vmx_shared_msrs" "msr_present v m"
  shows "hw_msrs (vg_regs (result_global res) d) m = hw_msrs (vg_regs g d) m
    \<and> (case res of Run_return r conf' i' g' \<Rightarrow> \<exists>v'. vcpus i' n = Some v' \<and> msr_table_ok v' \<and> \<not> guest_msrs_loaded v' | Run_exit i' g' \<Rightarrow> True)"
proof -
  note start = launch_begin_ok [OF assms(3,4), of g en i]
  from assms(1) show ?thesis
  proof (cases rule: vmx_launch_cases)
    case (ret v0 r st r1 conf1 st1)
    then have loop: "vmx_launch_loop en n 0 0 (launch_begin en (v, i, g)) = Some (Stop r st)" using assms(2) by simp
    from launch_loop_ok [OF loop start] obtain l where l: "run_ok (vk_engine (vg_kernel g)) (\<lambda>d. hw_msrs (vg_regs g d)) (msr_present v) l st"
      by (auto simp: round_ok_def)
    from launch_end_ok [OF l ret(3)] show ?thesis
      using ret(4) assms(5,6) by (cases st1) (simp add: result_global_def msrs_back_def put_slot_def)
  next
    case (gone v0 i1 g1)
    then have loop: "vmx_launch_loop en n 0 0 (launch_begin en (v, i, g)) = Some (Gone i1 g1)" using assms(2) by simp
    from launch_loop_ok [OF loop start] show ?thesis
      using gone(3) assms(5,6) by (simp add: round_ok_def result_global_def msrs_back_def)
  qed
qed

theorem launch_restores_msrs_witness:
  "\<exists>res. vmx_launch env_example 0 (conf_example 0) guest_example global_example = Some res
     \<and> hw_msrs (vg_regs (result_global res) 0) MSR_LSTAR = 5 \<and> hw_msrs (vg_regs (result_global res) 1) MSR_LSTAR = 6"
proof -
  have v: "vcpus guest_example 0 = Some msr_example" by (simp add: guest_example_def)
  obtain res where l: "vmx_launch env_example 0 (conf_example 0) guest_example global_example = Some res"
    using example_launch by blast
  note d = msr_example_def vmx_vcpu_zero_def vmx_shared_msrs_def get_msr_index_def
  have "msr_table_ok msr_example" "\<not> guest_msrs_loaded msr_example" "MSR_LSTAR \<in> set vmx_shared_msrs" "msr_present msr_example MSR_LSTAR"
    by (simp_all add: d msr_table_ok_def msr_present_def)
  from launch_restores_msrs [OF l v this] l show ?thesis by (auto simp: global_example_def)
qed

text \<open>C4. A call that a filter kills never reaches the host.  When the guest's kernel makes a system call and the
  filters do not let it pass, the call is not made, the thread and the registers are as they were, the run ends, every vcpu of
  the instance is shut down, and no later run enters the guest.\<close>

theorem killed_call_stops:
  assumes "vcpus_ok (st_inst st)" "vcpus (st_inst st) n \<noteq> None" "fst (on_cpus (vmx_get_cpl (en_hc en) (vg_cpu (snd (snd st)))) st) = 0"
    "fst (do_seccomp_filter (en_nr_syscalls en) (en_arch en) (en_filters en (st_time st)) (regs (fst st))) \<noteq> 0"
  shows "\<exists>st'. handle_vmcall en n r st = Some (Handled True r st')
    \<and> vg_task (snd (snd st')) = vg_task (snd (snd st)) \<and> regs (fst st') = regs (fst st)
    \<and> (\<forall>k v. vcpus (put_slot n st') k = Some v \<longrightarrow> shutdown v)
    \<and> slimvm_enter (vmx_ops en) conf (put_slot n st') g = Some (Run_return (- 1) conf (put_slot n st') g)"
proof -
  let ?c = "vg_cpu (snd (snd st))" and ?t = "vg_time (snd (snd st))"
  obtain st1 where c: "on_cpus (vmx_get_cpl (en_hc en) ?c) st = (0, st1)" using assms(3) by (metis prod.collapse)
  note keep = get_cpl_keeps [OF c] on_cpus_inst [OF c]
  obtain sc rg where s: "do_seccomp_filter (en_nr_syscalls en) (en_arch en) (en_filters en ?t) (regs (fst st1)) = (sc, rg)" by (rule prod.exhaust)
  have sc: "sc \<noteq> 0" "rg = regs (fst st)" using assms(4) s filter_kill_regs [OF s] keep by (simp_all add: st_time_def)
  define st2 where "st2 = on_vcpu (\<lambda>v. v\<lparr>regs := rg\<rparr>) st1"
  obtain v i g' where st2: "st2 = (v, i, g')" by (rule prod_cases3)
  have i: "st_inst st2 = st_inst st" using keep by (simp add: st2_def)
  obtain cs j where a: "vmx_shutdown_all_vcpus (en_mask_ok en ?t) (int ?c) (put_slot n st2) = (cs, j)" by (rule prod.exhaust)
  have ok: "vcpus_ok (put_slot n st2)" using put_slot_ok [of st2 n] assms(1,2) i by simp
  obtain w where w: "vcpus j n = Some w" "regs w = regs v"
    using shutdown_all_regs [OF a, of n v] by (auto simp: put_slot_def st2)
  have h: "handle_vmcall en n r st = Some (Handled True r (w, j, g'))"
    using sc(1) a w(1) unfolding handle_vmcall_def c Let_def prod.case s st2_def [symmetric] by (simp add: st2)
  have p: "put_slot n (w, j, g') = j" using w(1) by (simp add: put_slot_def fun_upd_idem)
  have "vg_task g' = vg_task (snd (snd st))" "regs w = regs (fst st)"
    using keep w(2) sc(2) st2 by (auto simp: st2_def on_vcpu_def split: prod.splits)
  moreover have "slimvm_enter (vmx_ops en) conf j g = Some (Run_return (- 1) conf j g)"
    using shutdown_all_result(2) [OF a] by (simp add: slimvm_enter_def Let_def)
  ultimately show ?thesis using h p shutdown_all_result(3) [OF a ok] by (intro exI [of _ "(w, j, g')"]) auto
qed

theorem killed_call_stops_witness:
  "let v = msr_example\<lparr>regs := (\<lambda>_. 1)\<rparr>; st = (v, guest_example, global_example) in
   vcpus_ok guest_example \<and> (\<exists>st'. handle_vmcall env_example 0 0 st = Some (Handled True 0 st') \<and> vg_task (snd (snd st')) = task_example)"
proof -
  let ?st = "(msr_example\<lparr>regs := (\<lambda>_. 1)\<rparr>, guest_example, global_example)"
  have k: "vcpus_ok (st_inst ?st)" "vcpus (st_inst ?st) 0 \<noteq> None" by (simp_all add: guest_example_def vcpus_ok_def)
  have c: "fst (on_cpus (vmx_get_cpl (en_hc env_example) (vg_cpu (snd (snd ?st)))) ?st) = 0"
    by (simp add: on_cpus_def vmx_get_cpl_def vmx_read_guest_seg_ar_def split_beta Let_def vmcs_access msr_example_def vmx_vcpu_zero_def)
  have f: "fst (do_seccomp_filter (en_nr_syscalls env_example) (en_arch env_example) (en_filters env_example (st_time ?st)) (regs (fst ?st))) \<noteq> 0"
    by (simp add: env_example_def do_seccomp_filter_def seccomp_data_of_def filters_example_def seccomp_verdict_def c_int_def)
  show ?thesis unfolding Let_def using killed_call_stops [OF k c f, of 0 "conf_example 0" global_example] k(1) by (auto simp: global_example_def)
qed

end
