(* ===== verification/Spec2Isabelle.thy ===== *)
theory Spec2Isabelle
  imports Slim_Core Slim_Seccomp Slim_Ept_Teardown Slim_Npt_Teardown Slim_Vmx_Run
begin

text \<open>
  \<^bold>\<open>SlimVM: a verification of the kernel module.\<close>

  SlimVM is a Linux kernel module that runs sandboxed processes as guests of a hardware virtual machine.
  User space opens \<^verbatim>\<open>/dev/slimvm\<close>, which creates an \<^emph>\<open>instance\<close>, creates vcpus in it, and runs a vcpu on the
  calling thread.  Guest memory is mapped lazily into nested page tables that follow the address space of
  the process, and system calls of the guest are executed by the host on behalf of the thread, after
  a seccomp filter has agreed.

  \<^bold>\<open>The parts and their theories.\<close>

  \<^item> \<^verbatim>\<open>Slim_Prelude\<close>: machine words, error numbers, C integer conversions, the kernel's bitmap helpers.
  \<^item> \<^verbatim>\<open>Slim_Engine\<close> (\<^verbatim>\<open>engine.h\<close>, \<^verbatim>\<open>slimvm.h\<close>, \<^verbatim>\<open>instance.h\<close>, \<^verbatim>\<open>mm.h\<close>): the data types all parts share.  \<^verbatim>\<open>struct instance\<close> is the
    record \<open>vm_instance\<close>, \<^verbatim>\<open>struct slimvm_engine_ops\<close> the record \<open>slimvm_engine_ops\<close> of functions.
  \<^item> \<^verbatim>\<open>Slim_Mm\<close> (\<^verbatim>\<open>mm.c\<close>): the region table and the translations between guest physical and host virtual addresses.
  \<^item> \<^verbatim>\<open>Slim_Pool\<close>, \<^verbatim>\<open>Slim_Vcpu\<close> (\<^verbatim>\<open>vcpu.c\<close>): identifiers taken from a bitmap, and the vcpu slots of an instance.
  \<^item> \<^verbatim>\<open>Slim_Instance\<close> (\<^verbatim>\<open>instance.c\<close>): the registry of instances, its reference counts, reclaiming of leaked instances.  The
    locale \<open>engine_contract\<close> states what the registry relies on an engine for.
  \<^item> \<^verbatim>\<open>Slim_Proc\<close> (\<^verbatim>\<open>proc.c\<close>), \<^verbatim>\<open>Slim_Core\<close> (\<^verbatim>\<open>core.c\<close>): the sysctls, the character device with its ioctls, loading and
    unloading.  \<open>world_step\<close> is everything that can happen to the module, \<open>reachable\<close> the states it can get into.
  \<^item> \<^verbatim>\<open>Slim_Seccomp\<close> (\<^verbatim>\<open>seccomp.c\<close>): the filter chain and its verdicts; the programs are arguments.
  \<^item> \<^verbatim>\<open>Slim_Pagetable\<close>, \<^verbatim>\<open>Slim_Range\<close>, \<^verbatim>\<open>Slim_Teardown\<close>, \<^verbatim>\<open>Slim_Flush\<close>: four-level tables in a memory of pages, their walk, the trees they
    form, clearing a range, destruction and the loop of a remote flush, once for both engines (locales \<open>pt_laws\<close>, \<open>clearing_loops\<close>, \<open>flush_loop\<close>).
  \<^item> \<^verbatim>\<open>Slim_Host\<close>: the answers of host memory management that faults depend on.
  \<^item> \<^verbatim>\<open>Slim_Ept\<close> (\<^verbatim>\<open>ept.c\<close>) with \<^verbatim>\<open>Slim_Ept_Fault\<close>, \<^verbatim>\<open>Slim_Ept_Notify\<close>, \<^verbatim>\<open>Slim_Ept_Teardown\<close>: extended page tables on Intel.
  \<^item> \<^verbatim>\<open>Slim_Npt\<close> (\<^verbatim>\<open>npt.c\<close>) with \<^verbatim>\<open>Slim_Npt_Fault\<close>, \<^verbatim>\<open>Slim_Npt_Notify\<close>, \<^verbatim>\<open>Slim_Npt_Teardown\<close>: nested page tables on AMD.
  \<^item> \<^verbatim>\<open>Slim_Vmx_State\<close> (\<^verbatim>\<open>vmx.h\<close>, \<^verbatim>\<open>vmcs.h\<close>): a VMX vcpu.  The rest of \<^verbatim>\<open>vmx.c\<close> is in \<^verbatim>\<open>Slim_Vmx_Config\<close> (capabilities, enabling),
    \<^verbatim>\<open>Slim_Vmcs\<close> (which CPU a VMCS is on), \<^verbatim>\<open>Slim_Vmx_Msr\<close> and \<^verbatim>\<open>Slim_Vmx_Switch\<close> (registers around an entry), \<^verbatim>\<open>Slim_Vmx_Setup\<close>
    (creation and destruction), \<^verbatim>\<open>Slim_Vmx_Exit\<close> (injection, entry, exits), \<^verbatim>\<open>Slim_Vmx_Launch\<close> (the main loop, all operations of the
    engine), with \<^verbatim>\<open>Slim_Exception\<close> for \<^verbatim>\<open>exception.c\<close>.
  \<^item> \<^verbatim>\<open>Slim_Vmx_Engine\<close>, \<^verbatim>\<open>Slim_Vmx_Run\<close>: the VMX engine satisfies \<open>engine_contract\<close>, and what a whole run achieves.
  \<^item> \<^verbatim>\<open>Slim_Svm_State\<close> (\<^verbatim>\<open>svm.h\<close>): an SVM vcpu.

  \<^bold>\<open>Conventions.\<close>  A C function that changes state takes the state and returns it; an error number is an \<open>int\<close>,
  a pointer that may be null an \<open>option\<close>.  \<open>None\<close> as the result of a whole operation is an access
  outside the memory of the module or a loop that never ends, so a theorem that gives \<open>Some\<close> excludes both.  Registers,
  addresses and entries are words of their width.  What the module cannot decide is an argument: allocation
  results, copies from user memory, the answers of host memory management, and in \<open>vmx_env\<close> the guest itself, signals, scheduling and the
  other threads.  The latter answer by a clock that each round of a loop advances, so a statement
  for all environments is one over all interleavings at these points.

  \<^bold>\<open>Loops.\<close>  Walks and clearing loops over tables recurse on their level or range and are total or proved to
  return.  Loops that wait (\<open>enter_guestmode_loop\<close>, \<open>vmx_launch_loop\<close>, \<open>vmx_sync_all_vcpus\<close>) are \<^verbatim>\<open>partial_function\<close>s; no fuel is used.
  The table memory is bounded by the allocator given, 512 entries a page, four levels.

  \<^bold>\<open>What is shown.\<close>  For the module as a whole: every reachable state keeps ids, reference counts, slots and files
  consistent, and no ioctl leaves the module's memory.  For the tables: faults install
  exactly the requested translation and leak no page, invalidation removes what it must, a remote flush reaches every vcpu, destruction frees each page once.
  For a run: it follows the protocol for the VMCS and the MSRs, gives the host its registers back, ends when the
  instance is shut down, hides restart codes, and stops at a call the filter kills.  For creation and enabling: all or nothing.  Where the code
  falls short of its intention the development proves what it does instead; these theorems are
  marked as errors: large entries that survive an invalidation, an accessed bit that is never cleared, page tables lost
  on destruction on AMD, dangling pointers after failed creations, filter verdicts with data that pass, a lost bounce, XCR0 after \<^verbatim>\<open>XSETBV\<close>.

  \<^bold>\<open>Not modelled.\<close>  The SVM engine (\<^verbatim>\<open>svm.c\<close>, \<^verbatim>\<open>exception_svm.c\<close>) beyond its vcpu state and its page tables.  Printing of
  diagnostics (\<^verbatim>\<open>vmx_dump_cpu\<close>), which changes no state.  The instructions that invalidate TLBs and their
  effect, the FPU and debug registers.  Kernel version switches in \<^verbatim>\<open>compat.h\<close>: the model follows kernels with system call
  wrappers and \<^verbatim>\<open>kernel_clone\<close>.
\<close>

end
